(* ===== verification/Steps.thy ===== *)
theory Steps
  imports Main
begin

text \<open>
  Transition systems: what holds at the start and is kept by every step holds in every state
  that can be reached.  The concurrent parts of the program are step relations of this kind.
\<close>

locale invariant_of_steps =
  fixes step :: "'s \<Rightarrow> 's \<Rightarrow> bool"
    and inv :: "'s \<Rightarrow> bool"
  assumes step_inv: "inv s \<Longrightarrow> step s s' \<Longrightarrow> inv s'"
begin

lemma reachable_inv: "step\<^sup>*\<^sup>* s s' \<Longrightarrow> inv s \<Longrightarrow> inv s'"
  by (induction rule: rtranclp_induct) (auto intro: step_inv)

end

text \<open>
  A system in which every state that is not final has a step cannot get stuck; if every step
  lowers a measure it also reaches a final state.
\<close>

locale terminating_steps = invariant_of_steps step inv
  for step :: "'s \<Rightarrow> 's \<Rightarrow> bool" and inv :: "'s \<Rightarrow> bool" +
  fixes final :: "'s \<Rightarrow> bool"
    and size_of :: "'s \<Rightarrow> nat"
  assumes progress: "inv s \<Longrightarrow> \<not> final s \<Longrightarrow> \<exists>s'. step s s'"
    and decreasing: "inv s \<Longrightarrow> step s s' \<Longrightarrow> size_of s' < size_of s"
begin

lemma reaches_final: "inv s \<Longrightarrow> \<exists>s'. step\<^sup>*\<^sup>* s s' \<and> final s'"
proof (induction "size_of s" arbitrary: s rule: less_induct)
  case less
  show ?case
  proof (cases "final s")
    case False
    with less.prems obtain s1 where s1: "step s s1" using progress by blast
    from less.hyps [OF decreasing [OF less.prems s1] step_inv [OF less.prems s1]] s1
    show ?thesis by (meson converse_rtranclp_into_rtranclp)
  qed blast
qed

lemma no_infinite_run: "inv (r 0) \<Longrightarrow> \<exists>i. \<not> step (r i) (r (Suc i))"
proof (rule ccontr)
  assume inv0: "inv (r 0)" and "\<nexists>i. \<not> step (r i) (r (Suc i))"
  then have steps: "step (r i) (r (Suc i))" for i by blast
  have inv: "inv (r i)" for i by (induction i) (auto intro: inv0 step_inv steps)
  have "size_of (r i) + i \<le> size_of (r 0)" for i
  proof (induction i)
    case (Suc i)
    then show ?case using decreasing [OF inv steps, of i] by simp
  qed simp
  from this [of "Suc (size_of (r 0))"] show False by simp
qed

end

end
