(* ===== verification/Prelude.thy ===== *)
theory Prelude
  imports Main "HOL-Library.Word" "HOL-Library.Sublist" "HOL-Library.Multiset"
begin

text \<open>
  What every component of the model shares: the Rust standard library operations the
  sources use on strings, integers and results, and the generic lemmas about them.

  A Rust \<open>str\<close> is modelled as the list of its Unicode scalar values, restricted to the
  range U+0000 to U+00FF that HOL's \<open>char\<close> covers; the character classes below are the
  standard library's, written out for that range.  Machine integers are words of their
  width.  A \<open>Result\<close> is a sum, with the error on the left.
\<close>

type_synonym u16 = "16 word"
type_synonym u64 = "64 word"

named_theorems str_simps
  \<open>the splitting, joining and trimming laws the parsers rest on\<close>
named_theorems unfold_ops
  \<open>definitions of the non-recursive operations, unfolded together by the component proofs\<close>

section \<open>Results\<close>

definition res_bind :: "'e + 'a \<Rightarrow> ('a \<Rightarrow> 'e + 'b) \<Rightarrow> 'e + 'b" where
  "res_bind r f = (case r of Inl e \<Rightarrow> Inl e | Inr a \<Rightarrow> f a)"

definition map_err :: "('e \<Rightarrow> 'f) \<Rightarrow> 'e + 'a \<Rightarrow> 'f + 'a" where
  "map_err f r = (case r of Inl e \<Rightarrow> Inl (f e) | Inr a \<Rightarrow> Inr a)"

lemma res_bind_simps [simp]:
  "res_bind (Inl e) f = Inl e" "res_bind (Inr a) f = f a"
  by (simp_all add: res_bind_def)

lemma map_err_simps [simp]:
  "map_err f (Inl e) = Inl (f e)" "map_err f (Inr a) = Inr a"
  by (simp_all add: map_err_def)

lemma res_bind_Inr_conv: "res_bind r f = Inr b \<longleftrightarrow> (\<exists>a. r = Inr a \<and> f a = Inr b)"
  by (cases r) auto

lemma map_err_Inr_conv [simp]: "map_err f r = Inr a \<longleftrightarrow> r = Inr a"
  by (cases r) auto

text \<open>Collecting an iterator of results stops at the first error.\<close>

fun collect_results :: "('e + 'a) list \<Rightarrow> 'e + 'a list" where
  "collect_results [] = Inr []"
| "collect_results (r # rs) =
     res_bind r (\<lambda>a. res_bind (collect_results rs) (\<lambda>as. Inr (a # as)))"

lemma collect_results_Inr_conv:
  "collect_results rs = Inr as \<longleftrightarrow> rs = map Inr as"
  by (induction rs arbitrary: as) (auto simp: res_bind_Inr_conv map_eq_Cons_conv)

section \<open>Characters and strings\<close>

text \<open>\<open>char::is_ascii_whitespace\<close> and \<open>char::is_whitespace\<close>.\<close>

definition is_ascii_whitespace :: "char \<Rightarrow> bool" where
  "is_ascii_whitespace c \<longleftrightarrow> c \<in> {CHR 0x09, CHR 0x0A, CHR 0x0C, CHR 0x0D, CHR 0x20}"

definition is_whitespace :: "char \<Rightarrow> bool" where
  "is_whitespace c \<longleftrightarrow> c \<in> {CHR 0x09, CHR 0x0A, CHR 0x0B, CHR 0x0C, CHR 0x0D, CHR 0x20,
     CHR 0x85, CHR 0xA0}"

lemma is_ascii_whitespace_is_whitespace: "is_ascii_whitespace c \<Longrightarrow> is_whitespace c"
  by (auto simp: is_ascii_whitespace_def is_whitespace_def)

text \<open>\<open>char::to_lowercase\<close> on the modelled range: the ASCII and the Latin-1 letters.\<close>

definition lower_char :: "char \<Rightarrow> char" where
  "lower_char c = (let n = (of_char c :: nat) in
     if (65 \<le> n \<and> n \<le> 90) \<or> (192 \<le> n \<and> n \<le> 222 \<and> n \<noteq> 215) then char_of (n + 32) else c)"

definition to_lowercase :: "string \<Rightarrow> string" where
  "to_lowercase s = map lower_char s"

lemma lower_char_idem [simp]: "lower_char (lower_char c) = lower_char c"
proof -
  define n :: nat where "n = of_char c"
  have "n < 256" by (simp add: n_def)
  then show ?thesis
    by (cases "(65 \<le> n \<and> n \<le> 90) \<or> (192 \<le> n \<and> n \<le> 222 \<and> n \<noteq> 215)")
      (auto simp: lower_char_def Let_def n_def [symmetric])
qed

lemma to_lowercase_idem [simp]: "to_lowercase (to_lowercase s) = to_lowercase s"
  by (simp add: to_lowercase_def)

definition trim_start_by :: "(char \<Rightarrow> bool) \<Rightarrow> string \<Rightarrow> string" where
  "trim_start_by P s = dropWhile P s"

definition trim_by :: "(char \<Rightarrow> bool) \<Rightarrow> string \<Rightarrow> string" where
  "trim_by P s = rev (dropWhile P (rev (dropWhile P s)))"

abbreviation trim :: "string \<Rightarrow> string" where
  "trim \<equiv> trim_by is_whitespace"

abbreviation trim_ascii_start :: "string \<Rightarrow> string" where
  "trim_ascii_start \<equiv> trim_start_by is_ascii_whitespace"

lemma trim_by_id [str_simps]:
  "(s \<noteq> [] \<Longrightarrow> \<not> P (hd s) \<and> \<not> P (last s)) \<Longrightarrow> trim_by P s = s"
proof -
  assume ends: "s \<noteq> [] \<Longrightarrow> \<not> P (hd s) \<and> \<not> P (last s)"
  then have "dropWhile P s = s" by (auto simp: dropWhile_eq_self_iff)
  moreover from ends have "dropWhile P (rev s) = rev s"
    by (auto simp: dropWhile_eq_self_iff hd_rev)
  ultimately show ?thesis by (simp add: trim_by_def)
qed

lemma trim_by_no_space: "\<forall>c \<in> set s. \<not> P c \<Longrightarrow> trim_by P s = s"
  by (rule trim_by_id) auto

text \<open>\<open>str::split(char)\<close>: the pieces between the delimiters, at least one.\<close>

fun split_on :: "char \<Rightarrow> string \<Rightarrow> string list" where
  "split_on d [] = [[]]"
| "split_on d (c # cs) =
     (if c = d then [] # split_on d cs
      else (case split_on d cs of [] \<Rightarrow> [[c]] | p # ps \<Rightarrow> (c # p) # ps))"

fun join :: "string \<Rightarrow> string list \<Rightarrow> string" where
  "join sep [] = []"
| "join sep [p] = p"
| "join sep (p # q # ps) = p @ sep @ join sep (q # ps)"

lemma split_on_not_Nil [simp]: "split_on d s \<noteq> []"
  by (cases s) (auto split: list.splits)

lemma split_on_no_delim: "d \<notin> set s \<Longrightarrow> split_on d s = [s]"
  by (induction s) auto

lemma split_on_append:
  "d \<notin> set p \<Longrightarrow> split_on d (p @ d # s) = p # split_on d s"
  by (induction p) auto

lemma split_on_join [str_simps]:
  "ps \<noteq> [] \<Longrightarrow> \<forall>p \<in> set ps. d \<notin> set p \<Longrightarrow> split_on d (join [d] ps) = ps"
  by (induction "[d]" ps rule: join.induct) (simp_all add: split_on_no_delim split_on_append)

lemma join_Cons: "ps \<noteq> [] \<Longrightarrow> join sep (p # ps) = p @ sep @ join sep ps"
  by (cases ps) simp_all

lemma join_split_on [str_simps]: "join [d] (split_on d s) = s"
proof (induction s)
  case Nil
  show ?case by simp
next
  case (Cons c cs)
  then show ?case
    by (cases "split_on d cs"; cases "tl (split_on d cs)") (auto simp: join_Cons)
qed

lemma split_on_parts: "p \<in> set (split_on d s) \<Longrightarrow> d \<notin> set p"
proof (induction s arbitrary: p)
  case (Cons c cs)
  then show ?case
    by (cases "split_on d cs") (auto split: if_splits)
qed simp

text \<open>\<open>str::split_once(&str)\<close>: at the first occurrence of the pattern.\<close>

fun split_once :: "string \<Rightarrow> string \<Rightarrow> (string \<times> string) option" where
  "split_once pat [] = (if pat = [] then Some ([], []) else None)"
| "split_once pat (c # cs) =
     (if prefix pat (c # cs) then Some ([], drop (length pat) (c # cs))
      else map_option (\<lambda>(a, b). (c # a, b)) (split_once pat cs))"

lemma split_once_Some: "split_once pat s = Some (a, b) \<Longrightarrow> s = a @ pat @ b"
proof (induction pat s arbitrary: a b rule: split_once.induct)
  case (2 pat c cs)
  show ?case
  proof (cases "prefix pat (c # cs)")
    case True
    then obtain r where r: "c # cs = pat @ r" by (auto simp: prefix_def)
    from True "2.prems" have "a = []" "b = drop (length pat) (c # cs)" by auto
    with r show ?thesis by simp
  next
    case False
    with 2 show ?thesis by auto
  qed
qed (auto split: if_splits)

lemma split_once_None: "split_once pat s = None \<longleftrightarrow> \<not> sublist pat s"
proof (induction s)
  case (Cons c cs)
  then show ?case by (auto simp: sublist_Cons_right)
qed (simp add: sublist_Nil_right)

lemma split_once_char: "d \<notin> set a \<Longrightarrow> split_once [d] (a @ d # b) = Some (a, b)"
  by (induction a) auto

text \<open>\<open>str::split_whitespace\<close>: the maximal runs of non-whitespace.\<close>

fun split_ws_aux :: "string \<Rightarrow> string \<Rightarrow> string list" where
  "split_ws_aux w [] = (if w = [] then [] else [rev w])"
| "split_ws_aux w (c # cs) =
     (if is_whitespace c then (if w = [] then split_ws_aux [] cs else rev w # split_ws_aux [] cs)
      else split_ws_aux (c # w) cs)"

definition split_whitespace :: "string \<Rightarrow> string list" where
  "split_whitespace s = split_ws_aux [] s"

lemma split_ws_aux_words:
  "p \<in> set (split_ws_aux w s) \<Longrightarrow> \<forall>c \<in> set w. \<not> is_whitespace c \<Longrightarrow>
   p \<noteq> [] \<and> (\<forall>c \<in> set p. \<not> is_whitespace c)"
proof (induction w s rule: split_ws_aux.induct)
  case (1 w)
  then show ?case by (simp split: if_splits)
next
  case (2 w c cs)
  consider "is_whitespace c" "w = []" | "is_whitespace c" "w \<noteq> []" | "\<not> is_whitespace c"
    by blast
  then show ?case
  proof cases
    case 1
    with "2.prems"(1) have "p \<in> set (split_ws_aux [] cs)" by simp
    from "2.IH"(1) [OF 1 this] show ?thesis by simp
  next
    case 2
    with "2.prems"(1) have "p = rev w \<or> p \<in> set (split_ws_aux [] cs)" by simp
    then show ?thesis
    proof
      assume "p = rev w"
      with \<open>w \<noteq> []\<close> "2.prems"(2) show ?thesis by simp
    next
      assume "p \<in> set (split_ws_aux [] cs)"
      from "2.IH"(2) [OF \<open>is_whitespace c\<close> \<open>w \<noteq> []\<close> this] show ?thesis by simp
    qed
  next
    case 3
    with "2.prems"(1) have "p \<in> set (split_ws_aux (c # w) cs)" by simp
    moreover from 3 "2.prems"(2) have "\<forall>c \<in> set (c # w). \<not> is_whitespace c" by simp
    ultimately show ?thesis by (rule "2.IH"(3) [OF 3])
  qed
qed

lemma split_whitespace_words:
  "p \<in> set (split_whitespace s) \<Longrightarrow> p \<noteq> [] \<and> (\<forall>c \<in> set p. \<not> is_whitespace c)"
  unfolding split_whitespace_def by (rule split_ws_aux_words) auto

lemma split_ws_aux_word:
  "\<forall>c \<in> set p. \<not> is_whitespace c \<Longrightarrow> split_ws_aux w (p @ s) = split_ws_aux (rev p @ w) s"
  by (induction p arbitrary: w) auto

lemma split_whitespace_join:
  "\<forall>p \<in> set ps. p \<noteq> [] \<and> (\<forall>c \<in> set p. \<not> is_whitespace c) \<Longrightarrow>
   split_whitespace (join [CHR 0x20] ps) = ps"
proof (induction "[CHR 0x20]" ps rule: join.induct)
  case (2 p)
  then show ?case
    using split_ws_aux_word [of p "[]" "[]"] by (simp add: split_whitespace_def)
next
  case (3 p q ps)
  then show ?case
    using split_ws_aux_word [of p "[]" "CHR 0x20 # join [CHR 0x20] (q # ps)"]
    by (simp add: split_whitespace_def is_whitespace_def)
qed (simp add: split_whitespace_def)

section \<open>Decimal integers\<close>

definition is_digit :: "char \<Rightarrow> bool" where
  "is_digit c \<longleftrightarrow> 48 \<le> (of_char c :: nat) \<and> (of_char c :: nat) \<le> 57"

definition digit_val :: "char \<Rightarrow> nat" where
  "digit_val c = of_char c - 48"

definition digit_char :: "nat \<Rightarrow> char" where
  "digit_char d = char_of (48 + d)"

text \<open>\<open>u16::to_string\<close>, \<open>u64::to_string\<close>: decimal, no leading zero.\<close>

fun show_nat :: "nat \<Rightarrow> string" where
  "show_nat n = (if n < 10 then [digit_char n] else show_nat (n div 10) @ [digit_char (n mod 10)])"

declare show_nat.simps [simp del]

datatype parse_int_error = Empty | InvalidDigit | PosOverflow

text \<open>
  \<open>str::parse\<close> into an unsigned integer whose largest value is \<open>mx\<close>: an optional plus
  sign, then digits, accumulated with checked multiplication and addition.
\<close>

fun parse_digits :: "nat \<Rightarrow> nat \<Rightarrow> string \<Rightarrow> parse_int_error + nat" where
  "parse_digits mx acc [] = Inr acc"
| "parse_digits mx acc (c # cs) =
     (if \<not> is_digit c then Inl InvalidDigit
      else if acc * 10 > mx then Inl PosOverflow
      else if acc * 10 + digit_val c > mx then Inl PosOverflow
      else parse_digits mx (acc * 10 + digit_val c) cs)"

definition parse_uint :: "nat \<Rightarrow> string \<Rightarrow> parse_int_error + nat" where
  "parse_uint mx s =
     (if s = [] then Inl Empty
      else if s = ''+'' \<or> s = ''-'' then Inl InvalidDigit
      else if hd s = CHR ''+'' then parse_digits mx 0 (tl s)
      else parse_digits mx 0 s)"

definition parse_u16 :: "string \<Rightarrow> parse_int_error + u16" where
  "parse_u16 s = res_bind (parse_uint 65535 s) (\<lambda>n. Inr (of_nat n))"

lemma is_digit_digit_char [simp]: "d < 10 \<Longrightarrow> is_digit (digit_char d)"
  by (simp add: is_digit_def digit_char_def)

lemma digit_val_digit_char [simp]: "d < 10 \<Longrightarrow> digit_val (digit_char d) = d"
  by (simp add: digit_val_def digit_char_def)

lemma digit_char_simps [simp]:
  "digit_char 0 = CHR ''0''" "digit_char (Suc 0) = CHR ''1''" "digit_char 1 = CHR ''1''"
  "digit_char 2 = CHR ''2''" "digit_char 3 = CHR ''3''" "digit_char 4 = CHR ''4''"
  "digit_char 5 = CHR ''5''" "digit_char 6 = CHR ''6''" "digit_char 7 = CHR ''7''"
  "digit_char 8 = CHR ''8''" "digit_char 9 = CHR ''9''"
  by code_simp+

lemma is_digit_not_space: "is_digit c \<Longrightarrow> \<not> is_whitespace c"
  by (auto simp: is_digit_def is_whitespace_def)

lemma is_digit_ne [simp]:
  "\<not> is_digit (CHR ''+'')" "\<not> is_digit (CHR ''-'')" "\<not> is_digit (CHR '','')"
  "\<not> is_digit (CHR ''.'')" "\<not> is_digit (CHR ''='')"
  by (simp_all add: is_digit_def)

lemma show_nat_digits: "\<forall>c \<in> set (show_nat n). is_digit c"
proof (induction n rule: show_nat.induct)
  case (1 n)
  then show ?case
    by (cases "n < 10") (auto simp: show_nat.simps [of n])
qed

lemma show_nat_not_Nil [simp]: "show_nat n \<noteq> []"
  by (simp add: show_nat.simps [of n])

lemma parse_digits_append:
  "parse_digits mx acc (xs @ ys) = res_bind (parse_digits mx acc xs) (\<lambda>a. parse_digits mx a ys)"
  by (induction mx acc xs rule: parse_digits.induct) auto

lemma parse_digits_show_nat: "n \<le> mx \<Longrightarrow> parse_digits mx 0 (show_nat n) = Inr n"
proof (induction n rule: show_nat.induct)
  case (1 n)
  show ?case
  proof (cases "n < 10")
    case True
    with "1.prems" show ?thesis by (simp add: show_nat.simps [of n])
  next
    case False
    moreover from False 1 have "parse_digits mx 0 (show_nat (n div 10)) = Inr (n div 10)"
      by simp
    moreover have "n div 10 * 10 + n mod 10 = n" by presburger
    ultimately show ?thesis
      using "1.prems" by (simp add: show_nat.simps [of n] parse_digits_append)
  qed
qed

lemma parse_uint_digits:
  "s \<noteq> [] \<Longrightarrow> \<forall>c \<in> set s. is_digit c \<Longrightarrow> parse_uint mx s = parse_digits mx 0 s"
  by (cases s) (auto simp: parse_uint_def)

lemma parse_uint_show_nat: "n \<le> mx \<Longrightarrow> parse_uint mx (show_nat n) = Inr n"
  by (simp add: parse_uint_digits show_nat_digits parse_digits_show_nat)

lemma parse_digits_bound: "parse_digits mx acc s = Inr n \<Longrightarrow> acc \<le> mx \<Longrightarrow> n \<le> mx"
  by (induction mx acc s rule: parse_digits.induct) (auto split: if_splits)

lemma parse_uint_bound: "parse_uint mx s = Inr n \<Longrightarrow> n \<le> mx"
  by (auto simp: parse_uint_def split: if_splits dest: parse_digits_bound)

lemma parse_u16_show: "parse_u16 (show_nat (unat (w :: u16))) = Inr w"
proof -
  have "unat w \<le> 65535" using unsigned_less [of w, where ?'a = nat] by simp
  then show ?thesis by (simp add: parse_u16_def parse_uint_show_nat)
qed

declare is_ascii_whitespace_def [unfold_ops] is_whitespace_def [unfold_ops]
  trim_by_def [unfold_ops] trim_start_by_def [unfold_ops] split_whitespace_def [unfold_ops]
  is_digit_def [unfold_ops] digit_val_def [unfold_ops]
  parse_uint_def [unfold_ops] parse_u16_def [unfold_ops]

section \<open>Folding a step over a history\<close>

text \<open>
  Components are driven one operation at a time.  A property that every operation keeps
  holds after any history of operations.
\<close>

locale kept_by_steps =
  fixes step :: "'op \<Rightarrow> 's \<Rightarrow> 's"
    and good :: "'s \<Rightarrow> bool"
  assumes step_keeps: "good s \<Longrightarrow> good (step op s)"
begin

lemma run_keeps: "good s \<Longrightarrow> good (fold step ops s)"
  by (induction ops arbitrary: s) (simp_all add: step_keeps)

lemma run_keeps_all_prefixes: "good s \<Longrightarrow> good (fold step (take n ops) s)"
  by (rule run_keeps)

end

text \<open>
  Operations that commute give the same state in every order: what a concurrent driver,
  which fixes no order, needs of the state it folds over.
\<close>

locale commuting_steps =
  fixes step :: "'op \<Rightarrow> 's \<Rightarrow> 's"
  assumes step_commute: "step a (step b s) = step b (step a s)"
begin

lemma step_fold_commute: "step a (fold step ops s) = fold step ops (step a s)"
  by (induction ops arbitrary: s) (simp_all add: step_commute)

lemma fold_any_order: "mset ops = mset ops' \<Longrightarrow> fold step ops s = fold step ops' s"
  using fold_multiset_equiv [of ops step ops'] by (simp add: fun_eq_iff step_commute)

end

end
