(* ===== verification/Externals.thy ===== *)
theory Externals
  imports Prelude
begin

text \<open>
  The interfaces of crates the repository only calls.  None of their code is under src/, so
  each is a record of functions that the definitions using it take as an argument, and what
  the code relies on is a named hypothesis that states the crate's documentation.  The
  concrete records at the end of each section show that the hypotheses can hold.
\<close>

section \<open>Evaluation that may panic\<close>

text \<open>The outcome of code that can panic, for example on an overflow check.\<close>

datatype 'a eval = Panic | Value 'a

definition eval_bind :: "'a eval \<Rightarrow> ('a \<Rightarrow> 'b eval) \<Rightarrow> 'b eval" where
  "eval_bind e f = (case e of Panic \<Rightarrow> Panic | Value a \<Rightarrow> f a)"

lemma eval_bind_simps [simp]:
  "eval_bind Panic f = Panic" "eval_bind (Value a) f = f a"
  by (simp_all add: eval_bind_def)

text \<open>
  Subtraction on \<open>u16\<close>: a build with overflow checks (the dev profile) panics where a build
  without them (the release profile) wraps.
\<close>

definition u16_sub :: "bool \<Rightarrow> u16 \<Rightarrow> u16 \<Rightarrow> u16 eval" where
  "u16_sub checks a b = (if checks \<and> a < b then Panic else Value (a - b))"

section \<open>The http crate's status codes\<close>

type_synonym status_code = u16

record http =
  from_u16 :: "u16 \<Rightarrow> status_code option"
  code_is_success :: "status_code \<Rightarrow> bool"
  code_is_server_error :: "status_code \<Rightarrow> bool"

text \<open>
  \<open>StatusCode::from_u16\<close> fails below 100 and from 1000 on; \<open>is_success\<close> is 200 to 299 and
  \<open>is_server_error\<close> 500 to 599.
\<close>

definition http_documented :: "http \<Rightarrow> bool" where
  "http_documented h \<longleftrightarrow>
     (\<forall>c. from_u16 h c = (if 100 \<le> c \<and> c < 1000 then Some c else None)) \<and>
     (\<forall>c. code_is_success h c \<longleftrightarrow> 200 \<le> c \<and> c < 300) \<and>
     (\<forall>c. code_is_server_error h c \<longleftrightarrow> 500 \<le> c \<and> c < 600)"

definition http_std :: http where
  "http_std = \<lparr>from_u16 = (\<lambda>c. if 100 \<le> c \<and> c < 1000 then Some c else None),
     code_is_success = (\<lambda>c. 200 \<le> c \<and> c < 300),
     code_is_server_error = (\<lambda>c. 500 \<le> c \<and> c < 600)\<rparr>"

lemma http_std_documented: "http_documented http_std"
  by (simp add: http_documented_def http_std_def)

lemma http_documentedD:
  assumes "http_documented h"
  shows "from_u16 h c = (if 100 \<le> c \<and> c < 1000 then Some c else None)"
    and "code_is_success h c \<longleftrightarrow> 200 \<le> c \<and> c < 300"
    and "code_is_server_error h c \<longleftrightarrow> 500 \<le> c \<and> c < 600"
  using assms by (simp_all add: http_documented_def)

section \<open>URLs\<close>

text \<open>
  A value of the url crate, seen through its accessors: the serialization, the scheme, the
  host, the path and its segments (none for a URL that cannot be a base), and the fragment.
  \<open>Uri\<close> wraps such a value.  Parsing, joining and rewriting URLs are parameters where the
  code uses them.
\<close>

datatype url_host = HostDomain string | HostV4 "32 word" | HostV6 "128 word"

record url =
  url_str :: string
  url_scheme :: string
  url_host :: "url_host option"
  url_path :: string
  url_segments :: "string list option"
  url_fragment :: "string option"

type_synonym uri = url

text \<open>A URL with a domain and an absolute path, for concrete instances.\<close>

definition domain_url :: "string \<Rightarrow> string \<Rightarrow> string \<Rightarrow> url" where
  "domain_url scheme host path =
     \<lparr>url_str = scheme @ ''://'' @ host @ path, url_scheme = scheme,
      url_host = Some (HostDomain host), url_path = path,
      url_segments = Some (split_on (CHR ''/'') (tl path)), url_fragment = None\<rparr>"

text \<open>The parse errors the code tells apart.\<close>

datatype url_parse_error =
    RelativeUrlWithoutBase | EmptyHost | InvalidDomainCharacter | InvalidPort | OtherParseError string

text \<open>The url crate's operations: \<open>Url::parse\<close>, \<open>join\<close>, \<open>set_scheme\<close>, \<open>set_fragment\<close>.\<close>

record url_crate =
  uc_parse :: "string \<Rightarrow> url_parse_error + url"
  uc_join :: "url \<Rightarrow> string \<Rightarrow> url_parse_error + url"
  uc_set_scheme :: "string \<Rightarrow> url \<Rightarrow> url option"
  uc_set_fragment :: "string option \<Rightarrow> url \<Rightarrow> url"

section \<open>Regular expressions\<close>

text \<open>
  The regex crate: the error of compiling a pattern (if any), whether a pattern matches
  somewhere in a text, and replacing all its matches.
\<close>

record regex_crate =
  rx_error :: "string \<Rightarrow> string option"
  rx_is_match :: "string \<Rightarrow> string \<Rightarrow> bool"
  rx_replace_all :: "string \<Rightarrow> string \<Rightarrow> string \<Rightarrow> string" \<comment> \<open>pattern, replacement, text\<close>

section \<open>IP networks\<close>

text \<open>
  The standard library's classes of IPv4 addresses and its IPv6 loopback, and the two classes of
  IPv6 addresses of the ip\_network crate.
\<close>

definition v4_is_loopback :: "32 word \<Rightarrow> bool" where
  "v4_is_loopback a \<longleftrightarrow> drop_bit 24 a = 127"

definition v4_is_private :: "32 word \<Rightarrow> bool" where
  "v4_is_private a \<longleftrightarrow> drop_bit 24 a = 10 \<or> drop_bit 20 a = 0xAC1 \<or> drop_bit 16 a = 0xC0A8"

definition v4_is_link_local :: "32 word \<Rightarrow> bool" where
  "v4_is_link_local a \<longleftrightarrow> drop_bit 16 a = 0xA9FE"

definition v6_is_loopback :: "128 word \<Rightarrow> bool" where
  "v6_is_loopback a \<longleftrightarrow> a = 1"

record ip_network =
  v6_is_unique_local :: "128 word \<Rightarrow> bool"
  v6_is_unicast_link_local :: "128 word \<Rightarrow> bool"

definition ip_network_std :: ip_network where
  "ip_network_std = \<lparr>v6_is_unique_local = (\<lambda>a. drop_bit 121 a = 0x7E),
     v6_is_unicast_link_local = (\<lambda>a. drop_bit 118 a = 0x3FA)\<rparr>"

section \<open>Errors of other crates\<close>

text \<open>
  An error of reqwest, octocrab or the standard library's I/O is what the code reads off it:
  its text, its kind, its predicates and its chain of sources.
\<close>

datatype io_kind =
    ConnectionReset | ConnectionAborted | TimedOut | NotFound | PermissionDenied | IsADirectory
  | InvalidData | BrokenPipe | ConnectionRefused | NetworkUnreachable | AddrNotAvailable | AddrInUse
  | UnexpectedEof | Interrupted | UnsupportedIo | OtherIo
  | UnlistedIo string \<comment> \<open>any other kind, by the name its \<open>Debug\<close> prints\<close>

record io_error =
  io_kind_of :: io_kind
  io_text :: string
  io_inner :: "string option" \<comment> \<open>the text of \<open>get_ref\<close>\<close>

record hyper_error =
  hy_text :: string
  hy_parse :: bool
  hy_parse_status :: bool
  hy_timeout :: bool
  hy_user :: bool
  hy_body_write_aborted :: bool
  hy_canceled :: bool
  hy_closed :: bool
  hy_incomplete :: bool

datatype error_source =
    HyperSource hyper_error
  | IoSource io_error
  | UrlSource url_parse_error
  | OtherSource string \<comment> \<open>its text\<close>

record reqwest_error =
  re_text :: string
  re_timeout :: bool
  re_connect :: bool
  re_body :: bool
  re_decode :: bool
  re_builder :: bool
  re_redirect :: bool
  re_request :: bool
  re_status :: "status_code option"
  re_sources :: "error_source list" \<comment> \<open>\<open>source()\<close>, its \<open>source()\<close>, and so on\<close>

text \<open>
  The octocrab variants the code tells apart: an HTTP error, given by the I/O error that is
  the source of its inner error (if any), an answer of GitHub, given by its message, and all others.
\<close>

datatype octo_kind = OctoHttp "io_error option" | OctoGitHub string | OctoOther

record octo_error =
  oc_text :: string
  oc_kind :: octo_kind

end
