(* ===== verification/StatusRange.thy ===== *)
theory StatusRange
  imports Externals
begin

text \<open>
  \<open>lychee-lib/src/types/accept/range.rs\<close>: an inclusive range of HTTP status codes, parsed
  from the \<open>--accept\<close> and \<open>--cache-exclude-status\<close> options, and the merging of two ranges.
\<close>

section \<open>The type and its parser\<close>

definition range_MIN :: u16 where "range_MIN = 100"
definition range_MAX :: u16 where "range_MAX = 999"

datatype status_range_error =
    NoRangePattern
  | ParseIntError parse_int_error
  | InvalidRangeIndices
  | InvalidStatusCodeValue

record status_range =
  range_start :: u16
  range_end :: u16

definition range_new :: "u16 \<Rightarrow> u16 \<Rightarrow> status_range_error + status_range" where
  "range_new s e =
     (if s < range_MIN \<or> e > range_MAX then Inl InvalidStatusCodeValue
      else if s > e then Inl InvalidRangeIndices
      else Inr \<lparr>range_start = s, range_end = e\<rparr>)"

text \<open>
  The regular expression
  \<^verbatim>\<open>^(?<start>[0-9]+)?\.\.(?<until>(?<inclusive>=)?(?<end>[0-9]+))?$|^(?<single>[0-9]+)$\<close>
  matches in one way at most, since a digit is neither a dot nor an equals sign.
\<close>

record captures =
  cap_start :: "string option"
  cap_until :: bool
  cap_inclusive :: bool
  cap_end :: "string option"
  cap_single :: "string option"

definition range_captures :: "string \<Rightarrow> captures option" where
  "range_captures s =
     (let ds = takeWhile is_digit s; r = dropWhile is_digit s;
          st = (if ds = [] then None else Some ds); u = drop 2 r;
          incl = (u \<noteq> [] \<and> hd u = CHR ''=''); e = (if incl then tl u else u)
      in if prefix ''..'' r then
           (if u = [] then
              Some \<lparr>cap_start = st, cap_until = False, cap_inclusive = False,
                    cap_end = None, cap_single = None\<rparr>
            else if e \<noteq> [] \<and> list_all is_digit e then
              Some \<lparr>cap_start = st, cap_until = True, cap_inclusive = incl,
                    cap_end = Some e, cap_single = None\<rparr>
            else None)
         else if r = [] \<and> ds \<noteq> [] then
           Some \<lparr>cap_start = None, cap_until = False, cap_inclusive = False,
                 cap_end = None, cap_single = Some ds\<rparr>
         else None)"

text \<open>
  \<open>StatusRange::from_str\<close>.  A start that does not fit a \<open>u16\<close> becomes 0
  (\<open>unwrap_or_default\<close>); an exclusive end is decremented on \<open>u16\<close>.
\<close>

definition range_from_str :: "bool \<Rightarrow> string \<Rightarrow> (status_range_error + status_range) eval" where
  "range_from_str checks s =
     (case range_captures s of
        None \<Rightarrow> Value (Inl NoRangePattern)
      | Some cap \<Rightarrow>
          (case cap_single cap of
             Some v \<Rightarrow>
               Value (res_bind (map_err ParseIntError (parse_u16 v)) (\<lambda>v. range_new v v))
           | None \<Rightarrow>
               (let st = (case cap_start cap of
                            Some st \<Rightarrow> (case parse_u16 st of Inl _ \<Rightarrow> 0 | Inr n \<Rightarrow> n)
                          | None \<Rightarrow> range_MIN)
                in if \<not> cap_until cap then Value (range_new st range_MAX)
                   else (case cap_end cap of
                           None \<Rightarrow> Panic
                         | Some e \<Rightarrow>
                             (case parse_u16 e of
                                Inl err \<Rightarrow> Value (Inl (ParseIntError err))
                              | Inr en \<Rightarrow>
                                  if cap_inclusive cap then Value (range_new st en)
                                  else eval_bind (u16_sub checks en 1)
                                         (\<lambda>en'. Value (range_new st en')))))))"

text \<open>\<open>Display for StatusRange\<close>.\<close>

definition range_show :: "status_range \<Rightarrow> string" where
  "range_show r = show_nat (unat (range_start r)) @ ''..='' @ show_nat (unat (range_end r))"

definition range_contains :: "status_range \<Rightarrow> u16 \<Rightarrow> bool" where
  "range_contains r v \<longleftrightarrow> range_start r \<le> v \<and> v \<le> range_end r"

definition update_start :: "status_range \<Rightarrow> u16 \<Rightarrow> status_range \<times> (status_range_error + unit)" where
  "update_start r new_start =
     (case range_new new_start (range_end r) of
        Inr r' \<Rightarrow> (r', Inr ()) | Inl e \<Rightarrow> (r, Inl e))"

definition update_end :: "status_range \<Rightarrow> u16 \<Rightarrow> status_range \<times> (status_range_error + unit)" where
  "update_end r new_end =
     (case range_new (range_start r) new_end of
        Inr r' \<Rightarrow> (r', Inr ()) | Inl e \<Rightarrow> (r, Inl e))"

text \<open>\<open>StatusRange::merge\<close>: the updated range, and whether the two were merged.\<close>

definition merge :: "status_range \<Rightarrow> status_range \<Rightarrow> status_range \<times> bool" where
  "merge self other =
     (if range_end self \<ge> range_start other \<and> range_end other \<ge> range_end self
      then (fst (update_end self (range_end other)), True)
      else if range_start self \<le> range_end other \<and> range_start other \<le> range_start self
      then (fst (update_start self (range_start other)), True)
      else (self, False))"

text \<open>\<open>From<StatusRange> for HashSet<StatusCode>\<close>, with the \<open>expect\<close> on each code.\<close>

definition range_codes :: "http \<Rightarrow> status_range \<Rightarrow> status_code set eval" where
  "range_codes h r =
     (let codes = map (from_u16 h \<circ> of_nat) [unat (range_start r)..<Suc (unat (range_end r))]
      in if None \<in> set codes then Panic else Value (the ` set codes))"

declare range_MIN_def [unfold_ops] range_MAX_def [unfold_ops] range_new_def [unfold_ops]
  range_captures_def [unfold_ops] range_from_str_def [unfold_ops] range_contains_def [unfold_ops]
  update_start_def [unfold_ops] update_end_def [unfold_ops] merge_def [unfold_ops]
  u16_sub_def [unfold_ops] Let_def [unfold_ops]

section \<open>Every range is a valid one\<close>

definition valid_range :: "status_range \<Rightarrow> bool" where
  "valid_range r \<longleftrightarrow>
     range_MIN \<le> range_start r \<and> range_start r \<le> range_end r \<and> range_end r \<le> range_MAX"

lemma valid_rangeI [intro]:
  "range_MIN \<le> range_start r \<Longrightarrow> range_start r \<le> range_end r \<Longrightarrow> range_end r \<le> range_MAX \<Longrightarrow>
   valid_range r"
  by (simp add: valid_range_def)

lemma range_new_Inr_conv:
  "range_new s e = Inr r \<longleftrightarrow> r = \<lparr>range_start = s, range_end = e\<rparr> \<and> valid_range r"
  by (auto simp: range_new_def valid_range_def not_less)

lemma range_new_valid: "range_new s e = Inr r \<Longrightarrow> valid_range r"
  using range_new_Inr_conv by blast

lemma range_new_of_valid: "valid_range r \<Longrightarrow> range_new (range_start r) (range_end r) = Inr r"
  by (simp add: range_new_Inr_conv)

lemma update_end_valid:
  assumes "valid_range r" and "range_end r \<le> e" and "e \<le> range_MAX"
  shows "update_end r e = (r\<lparr>range_end := e\<rparr>, Inr ())"
proof -
  have "range_new (range_start r) e = Inr (r\<lparr>range_end := e\<rparr>)"
    using assms by (auto simp: range_new_Inr_conv valid_range_def)
  then show ?thesis by (simp add: update_end_def)
qed

lemma update_start_valid:
  assumes "valid_range r" and "s \<le> range_start r" and "range_MIN \<le> s"
  shows "update_start r s = (r\<lparr>range_start := s\<rparr>, Inr ())"
proof -
  have "range_new s (range_end r) = Inr (r\<lparr>range_start := s\<rparr>)"
    using assms by (auto simp: range_new_Inr_conv valid_range_def)
  then show ?thesis by (simp add: update_start_def)
qed

text \<open>The results the source ignores in \<open>merge\<close> are indeed never errors.\<close>

lemma merge_valid:
  assumes "valid_range a" and "valid_range b"
  shows "merge a b =
    (if range_end a \<ge> range_start b \<and> range_end b \<ge> range_end a
     then (a\<lparr>range_end := range_end b\<rparr>, True)
     else if range_start a \<le> range_end b \<and> range_start b \<le> range_start a
     then (a\<lparr>range_start := range_start b\<rparr>, True)
     else (a, False))"
  using assms update_end_valid [of a "range_end b"] update_start_valid [of a "range_start b"]
  by (auto simp: merge_def valid_range_def)

lemma merge_keeps_valid: "valid_range a \<Longrightarrow> valid_range b \<Longrightarrow> valid_range (fst (merge a b))"
  by (auto simp: merge_valid valid_range_def)

section \<open>What the pattern matches\<close>

abbreviation digits :: "string \<Rightarrow> bool" where
  "digits s \<equiv> \<forall>c \<in> set s. is_digit c"

lemma takeWhile_digits:
  assumes "digits ds" and "s = [] \<or> \<not> is_digit (hd s)"
  shows "takeWhile is_digit (ds @ s) = ds" and "dropWhile is_digit (ds @ s) = s"
  using assms by (induction ds) (auto simp: takeWhile_eq_Nil_iff dropWhile_eq_self_iff)

lemma captures_single:
  "digits ds \<Longrightarrow> ds \<noteq> [] \<Longrightarrow>
   range_captures ds = Some \<lparr>cap_start = None, cap_until = False, cap_inclusive = False,
     cap_end = None, cap_single = Some ds\<rparr>"
proof -
  assume "digits ds" and ne: "ds \<noteq> []"
  then have tw: "takeWhile is_digit ds = ds" and dw: "dropWhile is_digit ds = []"
    by simp_all
  from ne show ?thesis by (simp add: range_captures_def Let_def tw dw)
qed

lemma captures_from:
  "digits ds \<Longrightarrow>
   range_captures (ds @ ''..'') =
     Some \<lparr>cap_start = (if ds = [] then None else Some ds), cap_until = False,
       cap_inclusive = False, cap_end = None, cap_single = None\<rparr>"
  by (simp add: range_captures_def takeWhile_digits Let_def)

lemma captures_exclusive:
  assumes "digits ds" "digits e" "e \<noteq> []"
  shows "range_captures (ds @ ''..'' @ e) =
     Some \<lparr>cap_start = (if ds = [] then None else Some ds), cap_until = True,
       cap_inclusive = False, cap_end = Some e, cap_single = None\<rparr>"
proof -
  from assms have "hd e \<noteq> CHR ''=''" by (cases e) auto
  with assms show ?thesis
    by (auto simp: range_captures_def takeWhile_digits Let_def list_all_iff)
qed

lemma captures_inclusive:
  "digits ds \<Longrightarrow> digits e \<Longrightarrow> e \<noteq> [] \<Longrightarrow>
   range_captures (ds @ ''..='' @ e) =
     Some \<lparr>cap_start = (if ds = [] then None else Some ds), cap_until = True,
       cap_inclusive = True, cap_end = Some e, cap_single = None\<rparr>"
  by (simp add: range_captures_def takeWhile_digits Let_def list_all_iff)

lemmas captures_forms =
  captures_single captures_from captures_exclusive captures_inclusive

lemma captures_until: "range_captures s = Some cap \<Longrightarrow> cap_until cap \<Longrightarrow> cap_end cap \<noteq> None"
  by (auto simp: range_captures_def Let_def split: if_splits)

section \<open>Parsing\<close>

lemma range_from_str_valid: "range_from_str checks s = Value (Inr r) \<Longrightarrow> valid_range r"
  by (auto simp: range_from_str_def Let_def res_bind_Inr_conv eval_bind_def
      dest!: range_new_valid split: option.splits sum.splits if_splits eval.splits)

lemma range_from_str_show:
  assumes "valid_range r"
  shows "range_from_str checks (range_show r) = Value (Inr r)"
proof -
  have "range_captures (range_show r) =
      Some \<lparr>cap_start = Some (show_nat (unat (range_start r))), cap_until = True,
        cap_inclusive = True, cap_end = Some (show_nat (unat (range_end r))), cap_single = None\<rparr>"
    using captures_inclusive [of "show_nat (unat (range_start r))" "show_nat (unat (range_end r))"]
    by (simp add: range_show_def show_nat_digits)
  then show ?thesis
    using range_new_of_valid [OF assms] by (simp add: range_from_str_def parse_u16_show)
qed

text \<open>\<open>a..b\<close> is half open, as in Rust: it selects the codes from \<open>a\<close> up to, not including, \<open>b\<close>.\<close>

lemma range_from_str_exclusive:
  assumes "0 < b"
  shows "range_from_str checks (show_nat (unat a) @ ''..'' @ show_nat (unat (b :: u16))) =
    Value (range_new a (b - 1))"
proof -
  have "\<not> b < 1" using assms by (simp add: word_less_nat_alt)
  then show ?thesis
    using captures_exclusive [of "show_nat (unat a)" "show_nat (unat b)"]
    by (simp add: range_from_str_def show_nat_digits parse_u16_show u16_sub_def)
qed

lemma range_from_str_no_panic: "range_from_str False s \<noteq> Panic"
  using captures_until [of s]
  by (auto simp: range_from_str_def Let_def eval_bind_def u16_sub_def
      split: option.splits sum.splits)

section \<open>Membership\<close>

lemma unat_le_iff: "(a :: u16) \<le> b \<longleftrightarrow> unat a \<le> unat b"
  by (simp add: word_le_nat_alt)

lemma valid_range_numbers:
  "valid_range r \<longleftrightarrow> 100 \<le> unat (range_start r) \<and> unat (range_start r) \<le> unat (range_end r) \<and>
     unat (range_end r) \<le> 999"
  by (simp add: valid_range_def range_MIN_def range_MAX_def word_le_nat_alt)

lemma range_codes_valid:
  assumes "http_documented h" and "valid_range r"
  shows "range_codes h r = Value {v. range_contains r v}"
proof -
  let ?ns = "[unat (range_start r)..<Suc (unat (range_end r))]"
  have lookup: "from_u16 h (of_nat n) = Some (of_nat n)" if "n \<in> set ?ns" for n
  proof -
    from that assms(2) have "100 \<le> n" "n \<le> 999"
      by (auto simp: valid_range_numbers)
    then have "(100 :: u16) \<le> of_nat n \<and> (of_nat n :: u16) < 1000"
      by (simp add: word_le_nat_alt word_less_nat_alt unat_of_nat)
    then show ?thesis by (simp add: http_documentedD [OF assms(1)])
  qed
  then have "map (from_u16 h \<circ> of_nat) ?ns = map (Some \<circ> of_nat) ?ns"
    by (intro map_cong refl) (simp del: upt_Suc)
  moreover have "(of_nat ` set ?ns :: u16 set) = {v. range_contains r v}"
  proof (intro set_eqI iffI)
    fix v :: u16
    assume "v \<in> {v. range_contains r v}"
    then have "unat v \<in> set ?ns" by (auto simp: range_contains_def unat_le_iff)
    then show "v \<in> of_nat ` set ?ns" by (rule rev_image_eqI) simp
  next
    fix v :: u16
    assume "v \<in> of_nat ` set ?ns"
    then obtain n where n: "n \<in> set ?ns" "v = of_nat n" by blast
    with assms(2) have "unat v = n" by (auto simp: valid_range_numbers unat_of_nat)
    with n show "v \<in> {v. range_contains r v}" by (auto simp: range_contains_def unat_le_iff)
  qed
  ultimately show ?thesis
    by (auto simp: range_codes_def image_image simp del: upt_Suc)
qed

end
