(* ===== verification/StatusSelector.thy ===== *)
theory StatusSelector
  imports StatusRange
begin

text \<open>
  \<open>lychee-lib/src/types/status_code_selector.rs\<close>: the list of ranges a user accepts (or
  excludes from the cache), its parsers, and how ranges are merged while it is built.
\<close>

section \<open>The selector and its operations\<close>

type_synonym selector = "status_range list"

datatype selector_error = InvalidInput | RangeError status_range_error

definition sel_empty :: selector where
  "sel_empty = []"

text \<open>\<open>StatusCodeSelector::add_range\<close>: only the last range is a candidate for merging.\<close>

definition add_range :: "selector \<Rightarrow> status_range \<Rightarrow> selector" where
  "add_range sel r =
     (if sel = [] then [r]
      else (case merge (last sel) r of
              (l, True) \<Rightarrow> butlast sel @ [l]
            | (l, False) \<Rightarrow> sel @ [r]))"

fun new_from_aux :: "selector \<Rightarrow> status_range list \<Rightarrow> selector" where
  "new_from_aux sel [] = sel"
| "new_from_aux sel (r # rs) = new_from_aux (add_range sel r) rs"

definition new_from :: "status_range list \<Rightarrow> selector" where
  "new_from rs = new_from_aux sel_empty rs"

definition sel_contains :: "selector \<Rightarrow> u16 \<Rightarrow> bool" where
  "sel_contains sel v \<longleftrightarrow> list_ex (\<lambda>r. range_contains r v) sel"

text \<open>The two ranges of \<open>default_accepted\<close> are literals, so its \<open>unwrap\<close>s are never reached.\<close>

definition default_accepted :: selector where
  "default_accepted =
     new_from [\<lparr>range_start = 100, range_end = 103\<rparr>, \<lparr>range_start = 200, range_end = 299\<rparr>]"

text \<open>\<open>from_str\<close>: the first part that is no range, or that panics, ends the parse.\<close>

fun parse_parts :: "bool \<Rightarrow> string list \<Rightarrow> (status_range_error + status_range list) eval" where
  "parse_parts checks [] = Value (Inr [])"
| "parse_parts checks (p # ps) =
     eval_bind (range_from_str checks (trim p)) (\<lambda>res. case res of
        Inl e \<Rightarrow> Value (Inl e)
      | Inr r \<Rightarrow> eval_bind (parse_parts checks ps) (\<lambda>rest. Value (res_bind rest (\<lambda>rs. Inr (r # rs)))))"

definition sel_from_str :: "bool \<Rightarrow> string \<Rightarrow> (selector_error + selector) eval" where
  "sel_from_str checks input =
     (let input = trim input
      in if input = [] then Value (Inr sel_empty)
         else eval_bind (parse_parts checks (split_on (CHR '','') input))
                (\<lambda>res. Value (case res of Inl e \<Rightarrow> Inl (RangeError e) | Inr rs \<Rightarrow> Inr (new_from rs))))"

definition sel_show :: "selector \<Rightarrow> string" where
  "sel_show sel = join '','' (map range_show sel)"

text \<open>\<open>From<StatusCodeSelector> for HashSet<StatusCode>\<close>.\<close>

fun sel_codes :: "http \<Rightarrow> selector \<Rightarrow> status_code set eval" where
  "sel_codes h [] = Value {}"
| "sel_codes h (r # rs) =
     eval_bind (range_codes h r) (\<lambda>cs. eval_bind (sel_codes h rs) (\<lambda>ds. Value (cs \<union> ds)))"

declare sel_empty_def [unfold_ops] add_range_def [unfold_ops] new_from_def [unfold_ops]
  sel_contains_def [unfold_ops] sel_from_str_def [unfold_ops] default_accepted_def [unfold_ops]

section \<open>Deserialization\<close>

text \<open>The values serde hands to the visitor: those of a TOML configuration file.\<close>

datatype toml_value = TInteger int | TString string | TOther

datatype de_error =
    TryFromInt
  | DeRange status_range_error
  | DeSelector selector_error
  | DeSequence

definition u16_try_from :: "int \<Rightarrow> de_error + u16" where
  "u16_try_from v = (if 0 \<le> v \<and> v \<le> 65535 then Inr (of_int v) else Inl TryFromInt)"

definition visit_str :: "bool \<Rightarrow> string \<Rightarrow> (de_error + selector) eval" where
  "visit_str checks v = eval_bind (sel_from_str checks v) (\<lambda>res. Value (map_err DeSelector res))"

definition visit_i64 :: "int \<Rightarrow> de_error + selector" where
  "visit_i64 v =
     res_bind (u16_try_from v) (\<lambda>value.
       res_bind (map_err DeRange (range_new value value)) (\<lambda>r. Inr (new_from [r])))"

fun visit_seq_aux :: "bool \<Rightarrow> selector \<Rightarrow> toml_value list \<Rightarrow> (de_error + selector) eval" where
  "visit_seq_aux checks sel [] = Value (Inr sel)"
| "visit_seq_aux checks sel (TInteger v # vs) =
     (case res_bind (u16_try_from v) (\<lambda>value. map_err DeRange (range_new value value)) of
        Inl e \<Rightarrow> Value (Inl e)
      | Inr r \<Rightarrow> visit_seq_aux checks (add_range sel r) vs)"
| "visit_seq_aux checks sel (TString s # vs) =
     eval_bind (range_from_str checks s) (\<lambda>res. case res of
        Inl e \<Rightarrow> Value (Inl (DeRange e))
      | Inr r \<Rightarrow> visit_seq_aux checks (add_range sel r) vs)"
| "visit_seq_aux checks sel (TOther # vs) = Value (Inl DeSequence)"

definition visit_seq :: "bool \<Rightarrow> toml_value list \<Rightarrow> (de_error + selector) eval" where
  "visit_seq checks vs = visit_seq_aux checks sel_empty vs"

section \<open>The interface: a set of codes grown range by range\<close>

text \<open>
  What the rest of the program relies on: growing the set never forgets a code it already
  holds, and never lets in a code outside the range that is added.
\<close>

locale growing_code_set =
  fixes empty :: 's
    and add :: "'s \<Rightarrow> 'r \<Rightarrow> 's"
    and member :: "'s \<Rightarrow> u16 \<Rightarrow> bool"
    and covers :: "'r \<Rightarrow> u16 \<Rightarrow> bool"
    and ok :: "'r \<Rightarrow> bool"
    and inv :: "'s \<Rightarrow> bool"
  assumes inv_empty: "inv empty"
    and inv_add: "inv s \<Longrightarrow> ok r \<Longrightarrow> inv (add s r)"
    and member_empty: "\<not> member empty v"
    and add_keeps: "inv s \<Longrightarrow> ok r \<Longrightarrow> member s v \<Longrightarrow> member (add s r) v"
    and add_sound: "inv s \<Longrightarrow> ok r \<Longrightarrow> member (add s r) v \<Longrightarrow> member s v \<or> covers r v"
begin

lemma inv_adds: "inv s \<Longrightarrow> \<forall>r \<in> set rs. ok r \<Longrightarrow> inv (foldl add s rs)"
  by (induction rs arbitrary: s) (auto simp: inv_add)

lemma adds_keep: "inv s \<Longrightarrow> \<forall>r \<in> set rs. ok r \<Longrightarrow> member s v \<Longrightarrow> member (foldl add s rs) v"
  by (induction rs arbitrary: s) (auto simp: inv_add add_keeps)

lemma adds_sound:
  "inv s \<Longrightarrow> \<forall>r \<in> set rs. ok r \<Longrightarrow> member (foldl add s rs) v \<Longrightarrow>
   member s v \<or> (\<exists>r \<in> set rs. covers r v)"
proof (induction rs arbitrary: s)
  case (Cons r rs)
  then have "member (add s r) v \<or> (\<exists>r \<in> set rs. covers r v)" by (auto simp: inv_add)
  with Cons.prems show ?case by (auto dest: add_sound)
qed simp

lemma built_sound:
  "\<forall>r \<in> set rs. ok r \<Longrightarrow> member (foldl add empty rs) v \<Longrightarrow> \<exists>r \<in> set rs. covers r v"
  using adds_sound [OF inv_empty] member_empty by blast

end

section \<open>Adding a range\<close>

definition valid_selector :: "selector \<Rightarrow> bool" where
  "valid_selector sel \<longleftrightarrow> list_all valid_range sel"

text \<open>
  The codes of \<open>r\<close> that adding it forgets: the last range is extended at its end only,
  although \<open>r\<close> also reaches below its start.
\<close>

definition dropped :: "selector \<Rightarrow> status_range \<Rightarrow> u16 \<Rightarrow> bool" where
  "dropped sel r v \<longleftrightarrow>
     sel \<noteq> [] \<and> range_start r \<le> range_end (last sel) \<and> range_end (last sel) \<le> range_end r \<and>
     v < range_start (last sel) \<and> \<not> sel_contains sel v"

lemma sel_contains_Nil [simp]: "\<not> sel_contains [] v"
  by (simp add: sel_contains_def)

lemma sel_contains_append [simp]:
  "sel_contains (xs @ ys) v \<longleftrightarrow> sel_contains xs v \<or> sel_contains ys v"
  by (simp add: sel_contains_def)

lemma sel_contains_single [simp]: "sel_contains [r] v \<longleftrightarrow> range_contains r v"
  by (simp add: sel_contains_def)

lemma sel_contains_split:
  "sel \<noteq> [] \<Longrightarrow> sel_contains sel v \<longleftrightarrow> sel_contains (butlast sel) v \<or> range_contains (last sel) v"
  using sel_contains_append [of "butlast sel" "[last sel]" v] by simp

lemma valid_selector_last: "valid_selector sel \<Longrightarrow> sel \<noteq> [] \<Longrightarrow> valid_range (last sel)"
  by (simp add: valid_selector_def list_all_iff)

lemma add_range_eq:
  assumes "valid_selector sel" and "valid_range r" and "sel \<noteq> []"
  shows "add_range sel r =
    (if range_start r \<le> range_end (last sel) \<and> range_end (last sel) \<le> range_end r
     then butlast sel @ [(last sel)\<lparr>range_end := range_end r\<rparr>]
     else if range_start (last sel) \<le> range_end r \<and> range_start r \<le> range_start (last sel)
     then butlast sel @ [(last sel)\<lparr>range_start := range_start r\<rparr>]
     else sel @ [r])"
  using merge_valid [OF valid_selector_last [OF assms(1,3)] assms(2)] assms(3)
  by (simp add: add_range_def)

lemma valid_selector_append [simp]:
  "valid_selector (xs @ ys) \<longleftrightarrow> valid_selector xs \<and> valid_selector ys"
  by (simp add: valid_selector_def)

lemma valid_selector_single [simp]: "valid_selector [r] \<longleftrightarrow> valid_range r"
  by (simp add: valid_selector_def)

lemma valid_selector_butlast: "valid_selector sel \<Longrightarrow> valid_selector (butlast sel)"
  by (auto simp: valid_selector_def list_all_iff dest: in_set_butlastD)

lemma add_range_valid:
  assumes "valid_selector sel" and "valid_range r"
  shows "valid_selector (add_range sel r)"
proof (cases "sel = []")
  case True
  with assms show ?thesis by (simp add: add_range_def)
next
  case False
  from assms(1) False have "valid_range (last sel)" by (rule valid_selector_last)
  with assms show ?thesis
    by (auto simp: add_range_eq [OF assms False] valid_selector_butlast valid_range_def)
qed

lemma extended_end_contains:
  assumes "range_start b \<le> range_end a" "range_end a \<le> range_end b" "range_start a \<le> range_end a"
  shows "range_contains (a\<lparr>range_end := range_end b\<rparr>) v \<longleftrightarrow>
    range_contains a v \<or> range_contains b v \<and> range_start a \<le> v"
  using assms by (auto simp: range_contains_def)

lemma extended_start_contains:
  assumes "range_start a \<le> range_end b" "range_start b \<le> range_start a" "range_end b \<le> range_end a"
  shows "range_contains (a\<lparr>range_start := range_start b\<rparr>) v \<longleftrightarrow>
    range_contains a v \<or> range_contains b v"
  using assms by (auto simp: range_contains_def)

text \<open>What adding a range does to the set of selected codes, exactly.\<close>

lemma add_range_contains:
  assumes "valid_selector sel" and "valid_range r"
  shows "sel_contains (add_range sel r) v \<longleftrightarrow>
    sel_contains sel v \<or> range_contains r v \<and> \<not> dropped sel r v"
proof (cases "sel = []")
  case True
  then show ?thesis by (simp add: add_range_def dropped_def)
next
  case False
  let ?l = "last sel"
  from assms(1) False have l: "range_start ?l \<le> range_end ?l"
    using valid_selector_last valid_range_def by blast
  note split = sel_contains_split [OF False, of v]
  consider (ending) "range_start r \<le> range_end ?l" "range_end ?l \<le> range_end r"
    | (starting) "\<not> (range_start r \<le> range_end ?l \<and> range_end ?l \<le> range_end r)"
        "range_start ?l \<le> range_end r" "range_start r \<le> range_start ?l"
    | (apart) "\<not> (range_start r \<le> range_end ?l \<and> range_end ?l \<le> range_end r)"
        "\<not> (range_start ?l \<le> range_end r \<and> range_start r \<le> range_start ?l)"
    by blast
  then show ?thesis
  proof cases
    case ending
    then have "sel_contains (add_range sel r) v \<longleftrightarrow> sel_contains (butlast sel) v \<or>
        range_contains ?l v \<or> range_contains r v \<and> range_start ?l \<le> v"
      by (simp add: add_range_eq [OF assms False] extended_end_contains [OF ending l])
    moreover have "dropped sel r v \<longleftrightarrow> v < range_start ?l \<and> \<not> sel_contains sel v"
      using ending False by (simp add: dropped_def)
    ultimately show ?thesis using split by (auto simp: not_less)
  next
    case starting
    then have "range_end r \<le> range_end ?l"
      using l by (meson le_cases order_trans)
    with starting have "sel_contains (add_range sel r) v \<longleftrightarrow> sel_contains sel v \<or> range_contains r v"
      by (simp add: add_range_eq [OF assms False] extended_start_contains split)
    moreover have "\<not> dropped sel r v"
      using starting(1) by (auto simp: dropped_def)
    ultimately show ?thesis by simp
  next
    case apart
    from apart(1) have "\<not> dropped sel r v" by (auto simp: dropped_def)
    moreover have "add_range sel r = sel @ [r]"
      unfolding add_range_eq [OF assms False] using apart by (simp only: if_False)
    ultimately show ?thesis by simp
  qed
qed

interpretation accept_set: growing_code_set
  sel_empty add_range sel_contains range_contains valid_range valid_selector
proof unfold_locales
  show "valid_selector sel_empty"
    by (simp add: sel_empty_def valid_selector_def)
next
  show "\<not> sel_contains sel_empty v" for v
    by (simp add: sel_empty_def)
qed (simp_all add: add_range_valid add_range_contains, blast)

lemma new_from_aux_foldl: "new_from_aux sel rs = foldl add_range sel rs"
  by (induction sel rs rule: new_from_aux.induct) simp_all

lemma new_from_foldl: "new_from rs = foldl add_range sel_empty rs"
  by (simp add: new_from_def new_from_aux_foldl)

lemma new_from_valid: "\<forall>r \<in> set rs. valid_range r \<Longrightarrow> valid_selector (new_from rs)"
  unfolding new_from_foldl by (rule accept_set.inv_adds [OF accept_set.inv_empty])

section \<open>Ranges in ascending order lose nothing\<close>

text \<open>
  When every range starts no earlier than the one before it, no code is dropped; the last
  range of the selector then starts at or below every range still to come.
\<close>

lemma add_range_last_start:
  assumes "valid_selector sel" "valid_range r"
    and "sel \<noteq> [] \<Longrightarrow> range_start (last sel) \<le> range_start r"
  shows "range_start (last (add_range sel r)) \<le> range_start r"
proof (cases "sel = []")
  case False
  with assms(3) show ?thesis by (simp add: add_range_eq [OF assms(1,2) False])
qed (simp add: add_range_def)

lemma adds_ascending:
  assumes "valid_selector sel" "\<forall>r \<in> set rs. valid_range r" "sorted (map range_start rs)"
    and "\<forall>r \<in> set rs. sel \<noteq> [] \<longrightarrow> range_start (last sel) \<le> range_start r"
  shows "sel_contains (foldl add_range sel rs) v \<longleftrightarrow>
    sel_contains sel v \<or> (\<exists>r \<in> set rs. range_contains r v)"
  using assms
proof (induction rs arbitrary: sel)
  case (Cons r rs)
  have "\<not> dropped sel r v" if "range_contains r v"
    using that Cons.prems(4) by (auto simp: dropped_def range_contains_def)
  then have contains: "sel_contains (add_range sel r) v \<longleftrightarrow> sel_contains sel v \<or> range_contains r v"
    using add_range_contains [of sel r v] Cons.prems(1,2) by auto
  have "range_start (last (add_range sel r)) \<le> range_start r"
    using Cons.prems(1,2,4) add_range_last_start [of sel r] by simp
  then have "range_start (last (add_range sel r)) \<le> range_start r'" if "r' \<in> set rs" for r'
    using that Cons.prems(3) by fastforce
  moreover have "valid_selector (add_range sel r)"
    using Cons.prems(1,2) by (simp add: add_range_valid)
  ultimately have "sel_contains (foldl add_range (add_range sel r) rs) v \<longleftrightarrow>
      sel_contains (add_range sel r) v \<or> (\<exists>r \<in> set rs. range_contains r v)"
    using Cons.prems(2,3) by (intro Cons.IH) simp_all
  with contains show ?case by auto
qed simp

lemma new_from_ascending:
  "\<forall>r \<in> set rs. valid_range r \<Longrightarrow> sorted (map range_start rs) \<Longrightarrow>
   sel_contains (new_from rs) v \<longleftrightarrow> (\<exists>r \<in> set rs. range_contains r v)"
  using adds_ascending [OF accept_set.inv_empty, of rs v]
  by (simp add: new_from_foldl sel_empty_def)

section \<open>Parsing\<close>

lemma parse_parts_valid:
  "parse_parts checks ps = Value (Inr rs) \<Longrightarrow> \<forall>r \<in> set rs. valid_range r"
  by (induction ps arbitrary: rs)
     (auto simp: eval_bind_def res_bind_Inr_conv dest: range_from_str_valid
       split: eval.splits sum.splits)

lemma sel_from_str_parts:
  "sel_from_str checks s = Value (Inr sel) \<longleftrightarrow>
     trim s = [] \<and> sel = sel_empty \<or>
     trim s \<noteq> [] \<and> (\<exists>rs. parse_parts checks (split_on (CHR '','') (trim s)) = Value (Inr rs) \<and>
       sel = new_from rs)"
  by (auto simp: sel_from_str_def Let_def eval_bind_def split: eval.splits sum.splits)

lemma sel_from_str_valid: "sel_from_str checks s = Value (Inr sel) \<Longrightarrow> valid_selector sel"
  unfolding sel_from_str_parts
  by (metis accept_set.inv_empty new_from_valid parse_parts_valid)

lemma parse_parts_no_panic: "parse_parts False ps \<noteq> Panic"
  by (induction ps) (auto simp: eval_bind_def range_from_str_no_panic split: eval.splits sum.splits)

lemma sel_from_str_no_panic: "sel_from_str False s \<noteq> Panic"
  by (auto simp: sel_from_str_def Let_def eval_bind_def parse_parts_no_panic split: eval.splits)

lemma range_show_chars:
  "c \<in> set (range_show r) \<Longrightarrow> is_digit c \<or> c = CHR ''.'' \<or> c = CHR ''=''"
  using show_nat_digits by (auto simp: range_show_def)

lemma range_show_not_space: "c \<in> set (range_show r) \<Longrightarrow> \<not> is_whitespace c"
  by (drule range_show_chars) (auto dest: is_digit_not_space simp: is_whitespace_def)

lemma range_show_no_comma: "CHR '','' \<notin> set (range_show r)"
proof
  assume "CHR '','' \<in> set (range_show r)"
  from range_show_chars [OF this] show False by simp
qed

lemmas range_show_plain = range_show_not_space range_show_no_comma

lemma parse_parts_shows:
  "\<forall>r \<in> set rs. valid_range r \<Longrightarrow> parse_parts checks (map range_show rs) = Value (Inr rs)"
  by (induction rs) (simp_all add: trim_by_no_space range_show_plain range_from_str_show)

lemma sel_codes_valid:
  "http_documented h \<Longrightarrow> valid_selector sel \<Longrightarrow> sel_codes h sel = Value {v. sel_contains sel v}"
  by (induction sel) (auto simp: range_codes_valid valid_selector_def sel_contains_def)

lemma sel_from_str_shows:
  assumes "valid_selector sel"
  shows "sel_from_str checks (sel_show sel) = Value (Inr (new_from sel))"
proof (cases "sel = []")
  case True
  then show ?thesis
    by (simp add: sel_from_str_def sel_show_def trim_by_def new_from_def)
next
  case False
  let ?ps = "map range_show sel"
  have split: "split_on (CHR '','') (sel_show sel) = ?ps"
    unfolding sel_show_def using False by (intro split_on_join) (auto simp: range_show_plain)
  have "\<not> is_whitespace c" if "c \<in> set (join '','' ps)" "\<forall>p \<in> set ps. \<forall>c \<in> set p. \<not> is_whitespace c"
    for c ps
    using that by (induction "'',''" ps rule: join.induct) (auto simp: is_whitespace_def)
  then have "trim (sel_show sel) = sel_show sel"
    unfolding sel_show_def by (intro trim_by_no_space) (auto simp: range_show_plain)
  moreover have "sel_show sel \<noteq> []"
    using split False by (cases sel) (auto simp: range_show_def)
  moreover have "parse_parts checks ?ps = Value (Inr sel)"
    using assms by (intro parse_parts_shows) (simp add: valid_selector_def list_all_iff)
  ultimately show ?thesis
    by (simp add: sel_from_str_def split)
qed

lemma parse_parts_origin:
  "parse_parts checks ps = Value (Inr rs) \<Longrightarrow> r \<in> set rs \<Longrightarrow>
   \<exists>p \<in> set ps. range_from_str checks (trim p) = Value (Inr r)"
  by (induction ps arbitrary: rs)
     (auto simp: eval_bind_def res_bind_Inr_conv split: eval.splits sum.splits)

section \<open>Properties\<close>

text \<open>Every code an \<open>--accept\<close> string selects is a status code from 100 to 999 that lies in
  the range of one of its comma-separated parts: parsing and merging never let in another code.\<close>

theorem accept_only_listed_codes:
  assumes "sel_from_str checks s = Value (Inr sel)" and "sel_contains sel v"
  shows "100 \<le> v \<and> v \<le> 999 \<and>
    (\<exists>p r. p \<in> set (split_on (CHR '','') (trim s)) \<and>
       range_from_str checks (trim p) = Value (Inr r) \<and> range_contains r v)"
proof -
  from assms obtain rs where rs: "parse_parts checks (split_on (CHR '','') (trim s)) = Value (Inr rs)"
    and sel: "sel = new_from rs"
    by (auto simp: sel_from_str_parts sel_empty_def)
  note valid = parse_parts_valid [OF rs]
  from assms(2) obtain r where r: "r \<in> set rs" "range_contains r v"
    using accept_set.built_sound [OF valid, of v] by (auto simp: sel new_from_foldl)
  with valid have "100 \<le> v \<and> v \<le> 999"
    by (auto simp: valid_range_def range_MIN_def range_MAX_def range_contains_def)
  with r parse_parts_origin [OF rs r(1)] show ?thesis by blast
qed

theorem accept_only_listed_codes_witness:
  "\<exists>sel. sel_from_str True ''200..=204, 429'' = Value (Inr sel) \<and> sel_contains sel 429 \<and>
     (\<exists>p r. p \<in> set (split_on (CHR '','') (trim ''200..=204, 429'')) \<and>
       range_from_str True (trim p) = Value (Inr r) \<and> range_contains r 429)"
proof -
  let ?sel = "[\<lparr>range_start = 200, range_end = 204\<rparr>, \<lparr>range_start = 429, range_end = 429\<rparr>]"
  have parse: "sel_from_str True ''200..=204, 429'' = Value (Inr ?sel)" by (simp add: unfold_ops)
  have member: "sel_contains ?sel 429" by (simp add: unfold_ops)
  from accept_only_listed_codes [OF parse member] parse member show ?thesis by blast
qed

text \<open>When the ranges of an \<open>--accept\<close> string come in ascending order of their starts, the
  selector accepts exactly the codes of the listed ranges, overlapping or not.\<close>

theorem ascending_ranges_accepted_exactly:
  assumes "parse_parts checks (split_on (CHR '','') (trim s)) = Value (Inr rs)"
    and "trim s \<noteq> []" and "sorted (map range_start rs)"
  shows "\<exists>sel. sel_from_str checks s = Value (Inr sel) \<and>
    (\<forall>v. sel_contains sel v \<longleftrightarrow> (\<exists>r. r \<in> set rs \<and> range_contains r v))"
  using new_from_ascending [OF parse_parts_valid [OF assms(1)] assms(3)] assms(1,2)
  by (auto simp: sel_from_str_parts)

theorem ascending_ranges_accepted_exactly_witness:
  "\<exists>sel. sel_from_str True ''100..=103,200..300'' = Value (Inr sel) \<and>
    (\<forall>v. sel_contains sel v \<longleftrightarrow>
      (\<exists>r. r \<in> set [\<lparr>range_start = 100, range_end = 103\<rparr>, \<lparr>range_start = 200, range_end = 299\<rparr>] \<and>
        range_contains r v))"
  by (rule ascending_ranges_accepted_exactly) (simp_all add: unfold_ops)

text \<open>A range that reaches below the start and to or past the end of the last range of the
  selector loses the codes below that start: they are in the range that is added and yet the
  selector does not accept them.\<close>

theorem merge_drops_low_codes:
  assumes "valid_selector sel" "valid_range r" "sel \<noteq> []"
    and "range_end (last sel) \<le> range_end r"
    and "range_start r \<le> v" "v < range_start (last sel)" "\<not> sel_contains sel v"
  shows "range_contains r v \<and> \<not> sel_contains (add_range sel r) v"
proof -
  have "range_start (last sel) \<le> range_end (last sel)"
    using valid_selector_last [OF assms(1,3)] by (simp add: valid_range_def)
  with assms have "range_contains r v" "dropped sel r v"
    by (auto simp: range_contains_def dropped_def)
  with add_range_contains [OF assms(1,2)] assms(7) show ?thesis by auto
qed

theorem merge_drops_low_codes_witness:
  "\<exists>sel. sel_from_str True ''200..=210,100..=300'' = Value (Inr sel) \<and> \<not> sel_contains sel 150"
proof -
  have "\<not> sel_contains (add_range [\<lparr>range_start = 200, range_end = 210\<rparr>]
      \<lparr>range_start = 100, range_end = 300\<rparr>) 150"
    by (rule conjunct2 [OF merge_drops_low_codes])
      (simp_all add: valid_selector_def valid_range_def unfold_ops)
  moreover have "sel_from_str True ''200..=210,100..=300'' = Value (Inr
      (add_range [\<lparr>range_start = 200, range_end = 210\<rparr>] \<lparr>range_start = 100, range_end = 300\<rparr>))"
    by (simp add: unfold_ops)
  ultimately show ?thesis by blast
qed

text \<open>Printing a selector whose ranges ascend and parsing the text again gives a selector
  that accepts the same codes.\<close>

theorem selector_show_parse:
  assumes "valid_selector sel" and "sorted (map range_start sel)"
  shows "\<exists>sel'. sel_from_str checks (sel_show sel) = Value (Inr sel') \<and>
    sel_contains sel' = sel_contains sel"
  using sel_from_str_shows [OF assms(1)] new_from_ascending [of sel] assms
  by (auto simp: valid_selector_def list_all_iff sel_contains_def list_ex_iff fun_eq_iff)

theorem selector_show_parse_witness:
  "\<exists>sel'. sel_from_str False (sel_show default_accepted) = Value (Inr sel') \<and>
    sel_contains sel' = sel_contains default_accepted"
  by (rule selector_show_parse) (simp_all add: valid_selector_def valid_range_def unfold_ops)

text \<open>The set of status codes built from a selector, which the checkers look codes up in, is
  the set the selector accepts, and building it never hits the \<open>expect\<close> on an invalid code.\<close>

theorem accepted_set_is_selector:
  assumes "http_documented h" and "sel_from_str checks s = Value (Inr sel)"
  shows "sel_codes h sel = Value {v. sel_contains sel v}"
  using assms by (simp add: sel_codes_valid sel_from_str_valid)

theorem accepted_set_is_selector_witness:
  "\<exists>sel. sel_from_str True ''204'' = Value (Inr sel) \<and>
    sel_codes http_std sel = Value {v. sel_contains sel v}"
proof -
  have parse: "sel_from_str True ''204'' = Value (Inr [\<lparr>range_start = 204, range_end = 204\<rparr>])"
    by (simp add: unfold_ops)
  from accepted_set_is_selector [OF http_std_documented parse] parse show ?thesis by blast
qed

text \<open>An exclusive range that ends at 0 makes a build with overflow checks panic instead of
  reporting an error, whatever its start; a build without them wraps and reports an invalid
  status code, and on no input does such a build panic.\<close>

theorem exclusive_zero_end_panics:
  assumes "\<forall>c \<in> set ds. is_digit c"
  shows "range_from_str True (ds @ ''..0'') = Panic \<and>
    range_from_str False (ds @ ''..0'') = Value (Inl InvalidStatusCodeValue) \<and>
    sel_from_str False s \<noteq> Panic"
proof -
  have cap: "range_captures (ds @ ''..0'') = Some \<lparr>cap_start = (if ds = [] then None else Some ds),
      cap_until = True, cap_inclusive = False, cap_end = Some ''0'', cap_single = None\<rparr>"
    using captures_exclusive [OF assms, of "''0''"] by (simp add: is_digit_def)
  have zero: "parse_u16 ''0'' = Inr 0" by (simp add: unfold_ops)
  have new: "range_new st 65535 = Inl InvalidStatusCodeValue" for st
    by (simp add: range_new_def range_MAX_def)
  have "u16_sub True 0 1 = Panic" "u16_sub False 0 1 = Value 65535"
    by (simp_all add: u16_sub_def)
  then show ?thesis
    using sel_from_str_no_panic [of s] by (simp add: range_from_str_def cap zero new Let_def)
qed

theorem exclusive_zero_end_panics_witness:
  "range_from_str True ''200..0'' = Panic \<and>
   range_from_str False ''200..0'' = Value (Inl InvalidStatusCodeValue) \<and>
   sel_from_str False ''..0'' \<noteq> Panic"
  using exclusive_zero_end_panics [of "''200''" "''..0''"] by (simp add: is_digit_def)

end
