(* ===== verification/Paths.thy ===== *)
theory Paths
  imports Externals
begin

text \<open>
  The standard library's operations on paths that the sources use, and the file types and file
  extensions of \<open>lychee-lib/src/types/file.rs\<close>.

  A path is the list of its components as \<open>Path::components\<close> gives them on Unix, the root
  directory being the component \<open>/\<close>: equality of paths, \<open>join\<close> and the file name are all
  defined by components.
\<close>

section \<open>Paths\<close>

type_synonym path = "string list"

definition path_rooted :: "path \<Rightarrow> bool" where
  "path_rooted p \<longleftrightarrow> (p \<noteq> [] \<and> hd p = ''/'')"

text \<open>Empty components and all but a leading \<open>.\<close> are dropped.\<close>

definition path_components :: "string \<Rightarrow> path" where
  "path_components s =
     (let parts = split_on (CHR ''/'') s;
          names = filter (\<lambda>p. p \<noteq> [] \<and> p \<noteq> ''.'') parts
      in if s \<noteq> [] \<and> hd s = CHR ''/'' then ''/'' # names
         else if hd parts = ''.'' then ''.'' # names
         else names)"

definition path_show :: "path \<Rightarrow> string" where
  "path_show p = (if path_rooted p then CHR ''/'' # join ''/'' (tl p) else join ''/'' p)"

definition path_join :: "path \<Rightarrow> string \<Rightarrow> path" where
  "path_join p s =
     (let q = path_components s in
      if path_rooted q then q
      else if p \<noteq> [] \<and> q \<noteq> [] \<and> hd q = ''.'' then p @ tl q
      else p @ q)"

definition file_name :: "path \<Rightarrow> string option" where
  "file_name p = (if p = [] \<or> last p \<in> {''/'', ''.'', ''..''} then None else Some (last p))"

text \<open>
  A file name is split at its last dot, unless it has none or nothing but the extension.
\<close>

definition split_file_at_dot :: "string \<Rightarrow> string \<times> string option" where
  "split_file_at_dot f =
     (let after = rev (takeWhile (\<lambda>c. c \<noteq> CHR ''.'') (rev f));
          before = take (length f - length after - 1) f
      in if f = ''..'' \<or> CHR ''.'' \<notin> set f \<or> before = [] then (f, None) else (before, Some after))"

definition file_stem :: "path \<Rightarrow> string option" where
  "file_stem p = map_option (\<lambda>f. fst (split_file_at_dot f)) (file_name p)"

definition extension :: "path \<Rightarrow> string option" where
  "extension p = Option.bind (file_name p) (\<lambda>f. snd (split_file_at_dot f))"

text \<open>\<open>PathBuf::set_extension\<close> panics on an extension with a path separator.\<close>

definition set_extension :: "string \<Rightarrow> path \<Rightarrow> path eval" where
  "set_extension ext p =
     (if CHR ''/'' \<in> set ext then Panic
      else Value (case file_stem p of
         None \<Rightarrow> p
       | Some stem \<Rightarrow> butlast p @ [if ext = [] then stem else stem @ CHR ''.'' # ext]))"

lemma split_file_at_dot_append:
  "f \<noteq> [] \<Longrightarrow> CHR ''.'' \<notin> set ext \<Longrightarrow> f @ CHR ''.'' # ext \<noteq> ''..'' \<Longrightarrow>
   split_file_at_dot (f @ CHR ''.'' # ext) = (f, Some ext)"
  by (simp add: split_file_at_dot_def Let_def takeWhile_append)

lemma split_file_at_dot_no_dot: "CHR ''.'' \<notin> set f \<Longrightarrow> split_file_at_dot f = (f, None)"
  by (simp add: split_file_at_dot_def)

lemma fst_split_file_at_dot: "f \<noteq> [] \<Longrightarrow> fst (split_file_at_dot f) \<noteq> []"
  by (simp add: split_file_at_dot_def Let_def)

definition name_component :: "string \<Rightarrow> bool" where
  "name_component p \<longleftrightarrow> p \<noteq> [] \<and> p \<noteq> ''.'' \<and> CHR ''/'' \<notin> set p"

lemma name_component_ne: "name_component p \<Longrightarrow> p \<noteq> ''/'' \<and> p \<noteq> ''.'' \<and> p \<noteq> []"
  by (auto simp: name_component_def)

lemma path_components_show_rooted:
  assumes "\<forall>c \<in> set p. name_component c"
  shows "path_components (path_show (''/'' # p)) = ''/'' # p"
proof (cases "p = []")
  case True
  then show ?thesis by (simp add: path_show_def path_rooted_def path_components_def)
next
  case False
  have "split_on (CHR ''/'') (join ''/'' p) = p"
    using assms False by (intro split_on_join) (auto simp: name_component_def)
  moreover have "filter (\<lambda>p. p \<noteq> [] \<and> p \<noteq> ''.'') p = p"
    using assms by (auto simp: filter_id_conv name_component_def)
  ultimately show ?thesis by (simp add: path_show_def path_rooted_def path_components_def Let_def)
qed

lemma path_join_name: "name_component f \<Longrightarrow> path_join p f = p @ [f]"
  by (cases f) (auto simp: path_join_def path_components_def Let_def path_rooted_def split_on_no_delim
      name_component_def)

lemma path_join_dot: "p \<noteq> [] \<Longrightarrow> path_join p ''.'' = p"
  by (simp add: path_join_def path_components_def path_rooted_def)

section \<open>File extensions\<close>

type_synonym file_extensions = "string list"

definition extensions_empty :: file_extensions where "extensions_empty = []"

definition extensions_extend :: "string list \<Rightarrow> file_extensions \<Rightarrow> file_extensions" where
  "extensions_extend iter self = self @ iter"

definition extensions_contains :: "string \<Rightarrow> file_extensions \<Rightarrow> bool" where
  "extensions_contains e self \<longleftrightarrow> e \<in> set self"

text \<open>The globs that \<open>build\<close> registers, each under its extension, for the ignore crate.\<close>

definition extension_globs :: "bool \<Rightarrow> file_extensions \<Rightarrow> (string \<times> string) list" where
  "extension_globs skip_hidden self =
     map (\<lambda>ext. (ext, (if skip_hidden then ''[!.]'' else []) @ ''*.'' @ ext)) self"

text \<open>\<open>Iterator::next\<close> pops the last extension.\<close>

definition extensions_next :: "file_extensions \<Rightarrow> string option \<times> file_extensions" where
  "extensions_next self = (if self = [] then (None, []) else (Some (last self), butlast self))"

definition extensions_show :: "file_extensions \<Rightarrow> string" where
  "extensions_show self = join '','' self"

definition extensions_parse :: "string \<Rightarrow> file_extensions" where
  "extensions_parse s = split_on (CHR '','') s"

lemma extensions_parse_show:
  "es \<noteq> [] \<Longrightarrow> \<forall>e \<in> set es. CHR '','' \<notin> set e \<Longrightarrow> extensions_parse (extensions_show es) = es"
  by (simp add: extensions_parse_def extensions_show_def str_simps)

lemma extensions_show_parse: "extensions_show (extensions_parse s) = s"
  by (simp add: extensions_parse_def extensions_show_def str_simps)

text \<open>An iteration consumes the list from its end.\<close>

fun extensions_drain :: "nat \<Rightarrow> file_extensions \<Rightarrow> string list" where
  "extensions_drain 0 self = []"
| "extensions_drain (Suc n) self =
     (case extensions_next self of (None, _) \<Rightarrow> [] | (Some e, rest) \<Rightarrow> e # extensions_drain n rest)"

lemma extensions_drain_rev: "length es \<le> n \<Longrightarrow> extensions_drain n es = rev es"
proof (induction es arbitrary: n rule: rev_induct)
  case Nil
  then show ?case by (cases n) (simp_all add: extensions_next_def)
next
  case (snoc e es)
  then show ?case by (cases n) (simp_all add: extensions_next_def)
qed

section \<open>File types\<close>

datatype file_type = Html | Markdown | Css | Xml | Plaintext

fun file_type_show :: "file_type \<Rightarrow> string" where
  "file_type_show Html = ''HTML''"
| "file_type_show Markdown = ''Markdown''"
| "file_type_show Css = ''CSS''"
| "file_type_show Plaintext = ''plaintext''"
| "file_type_show Xml = ''XML''"

definition MARKDOWN_EXTENSIONS :: "string list" where
  "MARKDOWN_EXTENSIONS =
     [''markdown'', ''mkdown'', ''mkdn'', ''mdwn'', ''mdown'', ''mdx'', ''mkd'', ''md'']"

definition HTML_EXTENSIONS :: "string list" where "HTML_EXTENSIONS = [''htm'', ''html'']"
definition CSS_EXTENSIONS :: "string list" where "CSS_EXTENSIONS = [''css'']"
definition PLAINTEXT_EXTENSIONS :: "string list" where "PLAINTEXT_EXTENSIONS = [''txt'']"
definition XML_EXTENSIONS :: "string list" where "XML_EXTENSIONS = [''xml'']"

fun extensions_of :: "file_type \<Rightarrow> file_extensions" where
  "extensions_of Html = HTML_EXTENSIONS"
| "extensions_of Markdown = MARKDOWN_EXTENSIONS"
| "extensions_of Css = CSS_EXTENSIONS"
| "extensions_of Plaintext = PLAINTEXT_EXTENSIONS"
| "extensions_of Xml = XML_EXTENSIONS"

definition default_extensions :: file_extensions where
  "default_extensions =
     extensions_extend XML_EXTENSIONS (extensions_extend PLAINTEXT_EXTENSIONS
       (extensions_extend CSS_EXTENSIONS (extensions_extend HTML_EXTENSIONS
         (extensions_extend MARKDOWN_EXTENSIONS extensions_empty))))"

definition from_extension :: "string \<Rightarrow> file_type option" where
  "from_extension e =
     (let ext = to_lowercase e in
      if ext \<in> set MARKDOWN_EXTENSIONS then Some Markdown
      else if ext \<in> set HTML_EXTENSIONS then Some Html
      else if ext \<in> set CSS_EXTENSIONS then Some Css
      else if ext \<in> set PLAINTEXT_EXTENSIONS then Some Plaintext
      else if ext \<in> set XML_EXTENSIONS then Some Xml
      else None)"

text \<open>A path is given as its text, for \<open>is_url\<close> reads it as a URL.\<close>

definition is_url :: "url_crate \<Rightarrow> string \<Rightarrow> bool" where
  "is_url uc s \<longleftrightarrow> (case uc_parse uc s of
      Inl _ \<Rightarrow> False
    | Inr u \<Rightarrow> url_scheme u = ''http'' \<or> url_scheme u = ''https'')"

definition file_type_of :: "url_crate \<Rightarrow> string \<Rightarrow> file_type" where
  "file_type_of uc s =
     (case Option.bind (map_option to_lowercase (extension (path_components s))) from_extension of
        Some t \<Rightarrow> t
      | None \<Rightarrow> if is_url uc s then Html else Plaintext)"

lemmas extension_tables = MARKDOWN_EXTENSIONS_def HTML_EXTENSIONS_def CSS_EXTENSIONS_def
  PLAINTEXT_EXTENSIONS_def XML_EXTENSIONS_def

text \<open>The tables are disjoint, so the order in which they are searched does not matter.\<close>

lemma extensions_of_disjoint: "set (extensions_of a) \<inter> set (extensions_of b) \<noteq> {} \<longleftrightarrow> a = b"
  by (cases a; cases b) (simp_all add: extension_tables)

lemma extensions_of_unique:
  "x \<in> set (extensions_of a) \<Longrightarrow> x \<in> set (extensions_of b) \<longleftrightarrow> a = b"
  using extensions_of_disjoint [of a b] by blast

lemma from_extension_iff: "from_extension e = Some t \<longleftrightarrow> to_lowercase e \<in> set (extensions_of t)"
proof -
  let ?x = "to_lowercase e"
  have chain: "from_extension e =
      (if ?x \<in> set (extensions_of Markdown) then Some Markdown
       else if ?x \<in> set (extensions_of Html) then Some Html
       else if ?x \<in> set (extensions_of Css) then Some Css
       else if ?x \<in> set (extensions_of Plaintext) then Some Plaintext
       else if ?x \<in> set (extensions_of Xml) then Some Xml else None)"
    by (simp add: from_extension_def Let_def)
  show ?thesis
  proof (cases "\<exists>a. ?x \<in> set (extensions_of a)")
    case True
    then obtain a where "?x \<in> set (extensions_of a)" by blast
    note unique = extensions_of_unique [OF this]
    show ?thesis unfolding chain unique by (cases a) auto
  next
    case False
    then show ?thesis unfolding chain by (simp del: extensions_of.simps)
  qed
qed

lemma file_type_ex: "(\<exists>t. P t) \<longleftrightarrow> P Html \<or> P Markdown \<or> P Css \<or> P Xml \<or> P Plaintext"
  by (metis file_type.exhaust)

lemma default_extensions_types: "e \<in> set default_extensions \<longleftrightarrow> (\<exists>t. e \<in> set (extensions_of t))"
  unfolding file_type_ex
  by (simp add: default_extensions_def extensions_extend_def extensions_empty_def disj_ac)

end
