(* ===== verification/Status.thy ===== *)
theory Status
  imports StatusSelector Paths "HOL-Library.Option_ord" "HOL-Library.Product_Lexorder"
begin

text \<open>
  The outcome of a check: \<open>lychee-lib/src/types/error.rs\<close> (the errors and their equality),
  \<open>lychee-lib/src/types/cache.rs\<close> (the status kept in the cache file) and
  \<open>lychee-lib/src/types/status.rs\<close> (the status of a response and its conversions).
\<close>

section \<open>Errors\<close>

datatype (plugins only: code size) error_kind =
    NetworkRequest reqwest_error
  | ReadResponseBody reqwest_error
  | BuildRequestClient reqwest_error
  | GithubRequest octo_error
  | RuntimeJoin string
  | ReadFileInput io_error path
  | ReadInputUrlStatusCode status_code
  | ReadStdinInput io_error
  | Utf8 string
  | BuildGithubClient octo_error
  | InvalidGithubUrl string
  | EmptyUrl
  | ParseUrl url_parse_error string
  | RootRelativeLinkWithoutRoot string
  | InvalidFilePath uri
  | InvalidFragment uri
  | InvalidIndexFile "string list"
  | InvalidUrlFromPath path
  | UnreachableEmailAddress uri string
  | InvalidHeader string
  | InvalidBase string string
  | UnsupportedUriType string
  | InvalidUrlRemap string
  | InvalidInput string
  | DirTraversal string
  | InvalidGlobPattern string nat
  | MissingGitHubToken
  | InsecureURL uri
  | Channel string
  | InvalidUrlHost
  | InvalidURI uri
  | InvalidStatusCode u16
  | RejectedStatusCode status_code
  | Regex string
  | BasicAuthExtractorError string
  | Cookies string
  | StatusCodeSelectorError selector_error
  | PreprocessorError string string
  | WikilinkNotFound uri path
  | WikilinkInvalidBase string

text \<open>
  \<open>impl PartialEq for ErrorKind\<close>, arm by arm.  Errors of other crates are compared by their
  text, so their payload here is that text.
\<close>

definition err_eq :: "error_kind \<Rightarrow> error_kind \<Rightarrow> bool" where
  "err_eq a b \<longleftrightarrow> (case a of
       NetworkRequest e1 \<Rightarrow> (case b of NetworkRequest e2 \<Rightarrow> re_text e1 = re_text e2 | _ \<Rightarrow> False)
     | ReadResponseBody e1 \<Rightarrow> (case b of ReadResponseBody e2 \<Rightarrow> re_text e1 = re_text e2 | _ \<Rightarrow> False)
     | BuildRequestClient e1 \<Rightarrow> (case b of BuildRequestClient e2 \<Rightarrow> re_text e1 = re_text e2 | _ \<Rightarrow> False)
     | RuntimeJoin e1 \<Rightarrow> (case b of RuntimeJoin e2 \<Rightarrow> e1 = e2 | _ \<Rightarrow> False)
     | ReadFileInput e1 s1 \<Rightarrow> (case b of ReadFileInput e2 s2 \<Rightarrow>
         io_kind_of e1 = io_kind_of e2 \<and> s1 = s2 | _ \<Rightarrow> False)
     | ReadInputUrlStatusCode e1 \<Rightarrow> (case b of ReadInputUrlStatusCode e2 \<Rightarrow> e1 = e2 | _ \<Rightarrow> False)
     | ReadStdinInput e1 \<Rightarrow> (case b of ReadStdinInput e2 \<Rightarrow> io_kind_of e1 = io_kind_of e2 | _ \<Rightarrow> False)
     | GithubRequest e1 \<Rightarrow> (case b of GithubRequest e2 \<Rightarrow> oc_text e1 = oc_text e2 | _ \<Rightarrow> False)
     | InvalidGithubUrl s1 \<Rightarrow> (case b of InvalidGithubUrl s2 \<Rightarrow> s1 = s2 | _ \<Rightarrow> False)
     | ParseUrl s1 e1 \<Rightarrow> (case b of ParseUrl s2 e2 \<Rightarrow> s1 = s2 \<and> e1 = e2 | _ \<Rightarrow> False)
     | UnreachableEmailAddress u1 _ \<Rightarrow> (case b of UnreachableEmailAddress u2 _ \<Rightarrow> u1 = u2 | _ \<Rightarrow> False)
     | InsecureURL u1 \<Rightarrow> (case b of InsecureURL u2 \<Rightarrow> u1 = u2 | _ \<Rightarrow> False)
     | InvalidGlobPattern m1 p1 \<Rightarrow> (case b of InvalidGlobPattern m2 p2 \<Rightarrow> m1 = m2 \<and> p1 = p2 | _ \<Rightarrow> False)
     | InvalidHeader _ \<Rightarrow> (case b of InvalidHeader _ \<Rightarrow> True | _ \<Rightarrow> False)
     | MissingGitHubToken \<Rightarrow> (case b of MissingGitHubToken \<Rightarrow> True | _ \<Rightarrow> False)
     | InvalidStatusCode c1 \<Rightarrow> (case b of InvalidStatusCode c2 \<Rightarrow> c1 = c2 | _ \<Rightarrow> False)
     | InvalidUrlHost \<Rightarrow> (case b of InvalidUrlHost \<Rightarrow> True | _ \<Rightarrow> False)
     | InvalidURI u1 \<Rightarrow> (case b of InvalidURI u2 \<Rightarrow> u1 = u2 | _ \<Rightarrow> False)
     | Regex e1 \<Rightarrow> (case b of Regex e2 \<Rightarrow> e1 = e2 | _ \<Rightarrow> False)
     | DirTraversal e1 \<Rightarrow> (case b of DirTraversal e2 \<Rightarrow> e1 = e2 | _ \<Rightarrow> False)
     | Channel _ \<Rightarrow> (case b of Channel _ \<Rightarrow> True | _ \<Rightarrow> False)
     | BasicAuthExtractorError e1 \<Rightarrow> (case b of BasicAuthExtractorError e2 \<Rightarrow> e1 = e2 | _ \<Rightarrow> False)
     | Cookies e1 \<Rightarrow> (case b of Cookies e2 \<Rightarrow> e1 = e2 | _ \<Rightarrow> False)
     | InvalidInput s1 \<Rightarrow> (case b of InvalidInput s2 \<Rightarrow> s1 = s2 | _ \<Rightarrow> False)
     | InvalidFilePath u1 \<Rightarrow> (case b of InvalidFilePath u2 \<Rightarrow> u1 = u2 | _ \<Rightarrow> False)
     | InvalidFragment u1 \<Rightarrow> (case b of InvalidFragment u2 \<Rightarrow> u1 = u2 | _ \<Rightarrow> False)
     | InvalidIndexFile p1 \<Rightarrow> (case b of InvalidIndexFile p2 \<Rightarrow> p1 = p2 | _ \<Rightarrow> False)
     | InvalidUrlFromPath p1 \<Rightarrow> (case b of InvalidUrlFromPath p2 \<Rightarrow> p1 = p2 | _ \<Rightarrow> False)
     | InvalidBase b1 e1 \<Rightarrow> (case b of InvalidBase b2 e2 \<Rightarrow> b1 = b2 \<and> e1 = e2 | _ \<Rightarrow> False)
     | InvalidUrlRemap r1 \<Rightarrow> (case b of InvalidUrlRemap r2 \<Rightarrow> r1 = r2 | _ \<Rightarrow> False)
     | EmptyUrl \<Rightarrow> (case b of EmptyUrl \<Rightarrow> True | _ \<Rightarrow> False)
     | RejectedStatusCode c1 \<Rightarrow> (case b of RejectedStatusCode c2 \<Rightarrow> c1 = c2 | _ \<Rightarrow> False)
     | _ \<Rightarrow> False)"

text \<open>What the comparison looks at: nothing for the variants that no arm names.\<close>

datatype compared =
    KText nat string | KCode nat u16 | KIo nat io_kind path | KUrl nat uri
  | KParse url_parse_error string | KTexts nat "string list" | KUnit nat | KPair nat string string
  | KGlob string nat

fun err_key :: "error_kind \<Rightarrow> compared option" where
  "err_key (NetworkRequest e) = Some (KText 0 (re_text e))"
| "err_key (ReadResponseBody e) = Some (KText 1 (re_text e))"
| "err_key (BuildRequestClient e) = Some (KText 2 (re_text e))"
| "err_key (RuntimeJoin e) = Some (KText 3 e)"
| "err_key (ReadFileInput e p) = Some (KIo 0 (io_kind_of e) p)"
| "err_key (ReadInputUrlStatusCode c) = Some (KCode 0 c)"
| "err_key (ReadStdinInput e) = Some (KIo 1 (io_kind_of e) [])"
| "err_key (GithubRequest e) = Some (KText 4 (oc_text e))"
| "err_key (InvalidGithubUrl s) = Some (KText 5 s)"
| "err_key (ParseUrl e s) = Some (KParse e s)"
| "err_key (UnreachableEmailAddress u _) = Some (KUrl 0 u)"
| "err_key (InsecureURL u) = Some (KUrl 1 u)"
| "err_key (InvalidGlobPattern m p) = Some (KGlob m p)"
| "err_key (InvalidHeader _) = Some (KUnit 0)"
| "err_key MissingGitHubToken = Some (KUnit 1)"
| "err_key (InvalidStatusCode c) = Some (KCode 1 c)"
| "err_key InvalidUrlHost = Some (KUnit 2)"
| "err_key (InvalidURI u) = Some (KUrl 2 u)"
| "err_key (Regex e) = Some (KText 6 e)"
| "err_key (DirTraversal e) = Some (KText 7 e)"
| "err_key (Channel _) = Some (KUnit 3)"
| "err_key (BasicAuthExtractorError e) = Some (KText 8 e)"
| "err_key (Cookies e) = Some (KText 9 e)"
| "err_key (InvalidInput s) = Some (KText 10 s)"
| "err_key (InvalidFilePath u) = Some (KUrl 3 u)"
| "err_key (InvalidFragment u) = Some (KUrl 4 u)"
| "err_key (InvalidIndexFile ps) = Some (KTexts 0 ps)"
| "err_key (InvalidUrlFromPath p) = Some (KTexts 1 p)"
| "err_key (InvalidBase b e) = Some (KPair 0 b e)"
| "err_key (InvalidUrlRemap r) = Some (KText 11 r)"
| "err_key EmptyUrl = Some (KUnit 4)"
| "err_key (RejectedStatusCode c) = Some (KCode 2 c)"
| "err_key _ = None"

lemma err_eq_key: "err_eq a b \<longleftrightarrow> err_key a = err_key b \<and> err_key a \<noteq> None"
  by (cases a; cases b; simp add: err_eq_def)

lemma err_eq_sym: "err_eq a b \<Longrightarrow> err_eq b a"
  by (metis err_eq_key)

lemma err_eq_trans: "err_eq a b \<Longrightarrow> err_eq b c \<Longrightarrow> err_eq a c"
  by (metis err_eq_key)

text \<open>\<open>ErrorKind::reqwest_error\<close>: the source of the error, when it is one of reqwest.\<close>

definition reqwest_error_of :: "error_kind \<Rightarrow> reqwest_error option" where
  "reqwest_error_of kind =
     (case kind of
        NetworkRequest e \<Rightarrow> Some e | ReadResponseBody e \<Rightarrow> Some e | BuildRequestClient e \<Rightarrow> Some e
      | _ \<Rightarrow> None)"

section \<open>Errors in resolving a request\<close>

text \<open>Where a link comes from: an input as the user gave it, or one resolved to content.\<close>

datatype input_source =
    RemoteUrl url
  | FsGlob string bool
  | FsPath path
  | Stdin
  | InputString string

datatype resolved_source =
    ResolvedUrl url
  | ResolvedPath path
  | ResolvedStdin
  | ResolvedString string

fun input_source_of :: "resolved_source \<Rightarrow> input_source" where
  "input_source_of (ResolvedUrl url) = RemoteUrl url"
| "input_source_of (ResolvedPath path) = FsPath path"
| "input_source_of ResolvedStdin = Stdin"
| "input_source_of (ResolvedString s) = InputString s"

record raw_uri_span =
  span_line :: nat
  span_column :: "nat option"

record raw_uri =
  raw_text :: string
  raw_element :: "string option"
  raw_attribute :: "string option"
  raw_span :: raw_uri_span

datatype request_error =
    CreateRequestItem raw_uri resolved_source error_kind
  | GetInputContent input_source error_kind
  | UserInputContent input_source error_kind
  | InputSourceError input_source error_kind

fun request_error_kind :: "request_error \<Rightarrow> error_kind" where
  "request_error_kind (CreateRequestItem _ _ e) = e"
| "request_error_kind (GetInputContent _ e) = e"
| "request_error_kind (UserInputContent _ e) = e"
| "request_error_kind (InputSourceError _ e) = e"

fun request_error_source :: "request_error \<Rightarrow> input_source" where
  "request_error_source (CreateRequestItem _ src _) = input_source_of src"
| "request_error_source (GetInputContent src _) = src"
| "request_error_source (UserInputContent src _) = src"
| "request_error_source (InputSourceError src _) = src"

text \<open>The derived equality, with \<open>err_eq\<close> on the boxed error.\<close>

fun request_error_eq :: "request_error \<Rightarrow> request_error \<Rightarrow> bool" where
  "request_error_eq (CreateRequestItem r1 s1 e1) (CreateRequestItem r2 s2 e2) =
     (r1 = r2 \<and> s1 = s2 \<and> err_eq e1 e2)"
| "request_error_eq (GetInputContent s1 e1) (GetInputContent s2 e2) = (s1 = s2 \<and> err_eq e1 e2)"
| "request_error_eq (UserInputContent s1 e1) (UserInputContent s2 e2) = (s1 = s2 \<and> err_eq e1 e2)"
| "request_error_eq (InputSourceError s1 e1) (InputSourceError s2 e2) = (s1 = s2 \<and> err_eq e1 e2)"
| "request_error_eq _ _ = False"

section \<open>The cached status\<close>

datatype cache_status =
    CacheOk status_code
  | CacheError "status_code option"
  | CacheExcluded
  | CacheUnsupported

text \<open>The derived order: by variant, then by field, with \<open>None\<close> first.\<close>

fun cache_status_rank :: "cache_status \<Rightarrow> nat \<times> status_code option" where
  "cache_status_rank (CacheOk c) = (0, Some c)"
| "cache_status_rank (CacheError c) = (1, c)"
| "cache_status_rank CacheExcluded = (2, None)"
| "cache_status_rank CacheUnsupported = (3, None)"

lemma cache_status_rank_inject [simp]: "cache_status_rank a = cache_status_rank b \<longleftrightarrow> a = b"
  by (cases a; cases b) auto

definition cache_status_le :: "cache_status \<Rightarrow> cache_status \<Rightarrow> bool" where
  "cache_status_le a b \<longleftrightarrow> cache_status_rank a \<le> cache_status_rank b"

definition cache_status_less :: "cache_status \<Rightarrow> cache_status \<Rightarrow> bool" where
  "cache_status_less a b \<longleftrightarrow> cache_status_rank a < cache_status_rank b"

instantiation cache_status :: linorder
begin

definition less_eq_cache_status_is: "a \<le> b \<longleftrightarrow> cache_status_le a b"
definition less_cache_status_is: "a < b \<longleftrightarrow> cache_status_less a b"

instance
proof
  fix a b c :: cache_status
  show "a < b \<longleftrightarrow> a \<le> b \<and> \<not> b \<le> a"
    by (simp only: less_cache_status_is less_eq_cache_status_is cache_status_le_def cache_status_less_def less_le_not_le)
  show "a \<le> a"
    by (simp only: less_eq_cache_status_is cache_status_le_def order_refl)
  show "a \<le> b \<Longrightarrow> b \<le> c \<Longrightarrow> a \<le> c"
    unfolding less_eq_cache_status_is cache_status_le_def by (rule order_trans)
  show "a \<le> b \<or> b \<le> a"
    unfolding less_eq_cache_status_is cache_status_le_def by (rule linear)
  show "a \<le> b \<Longrightarrow> b \<le> a \<Longrightarrow> a = b"
    unfolding less_eq_cache_status_is cache_status_le_def by (metis antisym cache_status_rank_inject)
qed

end

fun cache_code :: "cache_status \<Rightarrow> status_code option" where
  "cache_code (CacheOk status) = Some status"
| "cache_code (CacheError status) = status"
| "cache_code _ = None"

definition cache_is_excluded :: "cache_status \<Rightarrow> selector \<Rightarrow> bool" where
  "cache_is_excluded s excluder =
     (case cache_code s of Some status \<Rightarrow> sel_contains excluder status | None \<Rightarrow> False)"

text \<open>
  The field written to the cache file: csv writes the number of a code, an empty field for
  no code, and the name of a unit variant.
\<close>

fun cache_serialize :: "cache_status \<Rightarrow> string" where
  "cache_serialize (CacheOk c) = show_nat (unat c)"
| "cache_serialize (CacheError (Some c)) = show_nat (unat c)"
| "cache_serialize (CacheError None) = ''''"
| "cache_serialize CacheExcluded = ''Excluded''"
| "cache_serialize CacheUnsupported = ''Unsupported''"

text \<open>\<open>Deserialize for CacheStatus\<close>: \<open>None\<close> is the custom error for an invalid code.\<close>

definition cache_deserialize :: "http \<Rightarrow> string \<Rightarrow> cache_status option" where
  "cache_deserialize h status =
     (if status = ''Excluded'' then Some CacheExcluded
      else if status = ''Unsupported'' then Some CacheUnsupported
      else (case parse_u16 status of
              Inr code \<Rightarrow>
                (case from_u16 h code of
                   None \<Rightarrow> None
                 | Some code \<Rightarrow>
                     Some (if code_is_success h code then CacheOk code else CacheError (Some code)))
            | Inl _ \<Rightarrow> Some (CacheError None)))"

section \<open>The status of a response\<close>

datatype status =
    StOk status_code
  | StError error_kind
  | StRequestError request_error
  | StTimeout "status_code option"
  | StUnknownStatusCode status_code
  | StUnknownMailStatus string
  | StExcluded
  | StUnsupported error_kind
  | StCached cache_status

definition status_eq :: "status \<Rightarrow> status \<Rightarrow> bool" where
  "status_eq a b \<longleftrightarrow> (case a of
       StOk c1 \<Rightarrow> (case b of StOk c2 \<Rightarrow> c1 = c2 | _ \<Rightarrow> False)
     | StError e1 \<Rightarrow> (case b of StError e2 \<Rightarrow> err_eq e1 e2 | _ \<Rightarrow> False)
     | StRequestError e1 \<Rightarrow> (case b of StRequestError e2 \<Rightarrow> request_error_eq e1 e2 | _ \<Rightarrow> False)
     | StTimeout c1 \<Rightarrow> (case b of StTimeout c2 \<Rightarrow> c1 = c2 | _ \<Rightarrow> False)
     | StUnknownStatusCode c1 \<Rightarrow> (case b of StUnknownStatusCode c2 \<Rightarrow> c1 = c2 | _ \<Rightarrow> False)
     | StUnknownMailStatus s1 \<Rightarrow> (case b of StUnknownMailStatus s2 \<Rightarrow> s1 = s2 | _ \<Rightarrow> False)
     | StExcluded \<Rightarrow> (case b of StExcluded \<Rightarrow> True | _ \<Rightarrow> False)
     | StUnsupported e1 \<Rightarrow> (case b of StUnsupported e2 \<Rightarrow> err_eq e1 e2 | _ \<Rightarrow> False)
     | StCached c1 \<Rightarrow> (case b of StCached c2 \<Rightarrow> c1 = c2 | _ \<Rightarrow> False))"

definition status_new :: "status_code \<Rightarrow> status_code set \<Rightarrow> status" where
  "status_new code accepted =
     (if code \<in> accepted then StOk code else StError (RejectedStatusCode code))"

definition from_cache_status :: "cache_status \<Rightarrow> status_code set \<Rightarrow> status" where
  "from_cache_status s accepted =
     (case s of
        CacheOk code \<Rightarrow>
          if (case s of CacheOk _ \<Rightarrow> True | _ \<Rightarrow> False) \<or> code \<in> accepted
          then StCached (CacheOk code) else StCached (CacheError (Some code))
      | CacheError code \<Rightarrow>
          (case code of
             Some c \<Rightarrow> if c \<in> accepted then StCached (CacheOk c) else StCached (CacheError code)
           | None \<Rightarrow> StCached (CacheError code))
      | _ \<Rightarrow> StCached s)"

fun is_success :: "status \<Rightarrow> bool" where
  "is_success (StOk _) = True"
| "is_success (StCached (CacheOk _)) = True"
| "is_success _ = False"

fun is_error :: "status \<Rightarrow> bool" where
  "is_error (StError _) = True"
| "is_error (StRequestError _) = True"
| "is_error (StCached (CacheError _)) = True"
| "is_error (StTimeout _) = True"
| "is_error _ = False"

fun is_excluded_status :: "status \<Rightarrow> bool" where
  "is_excluded_status StExcluded = True"
| "is_excluded_status (StCached CacheExcluded) = True"
| "is_excluded_status _ = False"

fun is_timeout :: "status \<Rightarrow> bool" where
  "is_timeout (StTimeout _) = True"
| "is_timeout _ = False"

fun is_unsupported :: "status \<Rightarrow> bool" where
  "is_unsupported (StUnsupported _) = True"
| "is_unsupported (StCached CacheUnsupported) = True"
| "is_unsupported _ = False"

fun is_unknown :: "status \<Rightarrow> bool" where
  "is_unknown (StUnknownStatusCode _) = True"
| "is_unknown _ = False"

definition error_code :: "error_kind \<Rightarrow> status_code option" where
  "error_code kind =
     (case kind of
        RejectedStatusCode c \<Rightarrow> Some c
      | _ \<Rightarrow> (case reqwest_error_of kind of Some e \<Rightarrow> re_status e | None \<Rightarrow> None))"

fun status_code_of :: "status \<Rightarrow> status_code option" where
  "status_code_of (StOk code) = Some code"
| "status_code_of (StUnknownStatusCode code) = Some code"
| "status_code_of (StTimeout (Some code)) = Some code"
| "status_code_of (StCached (CacheOk code)) = Some code"
| "status_code_of (StCached (CacheError (Some code))) = Some code"
| "status_code_of (StError kind) = error_code kind"
| "status_code_of (StUnsupported kind) = error_code kind"
| "status_code_of _ = None"

definition code_text :: "status_code option \<Rightarrow> string \<Rightarrow> string" where
  "code_text c other = (case c of Some code \<Rightarrow> show_nat (unat code) | None \<Rightarrow> other)"

fun code_as_string :: "status \<Rightarrow> string" where
  "code_as_string (StOk code) = show_nat (unat code)"
| "code_as_string (StUnknownStatusCode code) = show_nat (unat code)"
| "code_as_string (StUnknownMailStatus _) = ''UNKNOWN''"
| "code_as_string StExcluded = ''EXCLUDED''"
| "code_as_string (StError e) =
     (case e of
        RejectedStatusCode code \<Rightarrow> show_nat (unat code)
      | ReadResponseBody e \<Rightarrow> code_text (re_status e) ''ERROR''
      | BuildRequestClient e \<Rightarrow> code_text (re_status e) ''ERROR''
      | _ \<Rightarrow> ''ERROR'')"
| "code_as_string (StRequestError _) = ''ERROR''"
| "code_as_string (StTimeout code) = code_text code ''TIMEOUT''"
| "code_as_string (StUnsupported _) = ''IGNORED''"
| "code_as_string (StCached (CacheOk code)) = show_nat (unat code)"
| "code_as_string (StCached (CacheError code)) = code_text code ''ERROR''"
| "code_as_string (StCached CacheExcluded) = ''EXCLUDED''"
| "code_as_string (StCached CacheUnsupported) = ''IGNORED''"

text \<open>\<open>From<ErrorKind> for Status\<close>.\<close>

definition status_of_reqwest :: "reqwest_error \<Rightarrow> status" where
  "status_of_reqwest e =
     (if re_timeout e then StTimeout (re_status e)
      else if re_builder e then StUnsupported (BuildRequestClient e)
      else if re_body e \<or> re_decode e then StUnsupported (ReadResponseBody e)
      else StError (NetworkRequest e))"

definition status_of_error :: "error_kind \<Rightarrow> status" where
  "status_of_error e =
     (case e of
        InvalidUrlHost \<Rightarrow> StUnsupported InvalidUrlHost
      | NetworkRequest e \<Rightarrow> status_of_reqwest e
      | ReadResponseBody e \<Rightarrow> status_of_reqwest e
      | BuildRequestClient e \<Rightarrow> status_of_reqwest e
      | e \<Rightarrow> StError e)"

text \<open>\<open>From<&Status> for CacheStatus\<close>.\<close>

fun cache_of_status :: "status \<Rightarrow> cache_status" where
  "cache_of_status (StCached s) = s"
| "cache_of_status (StOk code) = CacheOk code"
| "cache_of_status (StUnknownStatusCode code) = CacheOk code"
| "cache_of_status StExcluded = CacheExcluded"
| "cache_of_status (StUnsupported _) = CacheUnsupported"
| "cache_of_status (StTimeout code) = CacheError code"
| "cache_of_status (StError e) =
     (case e of
        RejectedStatusCode code \<Rightarrow> CacheError (Some code)
      | ReadResponseBody e \<Rightarrow>
          (case re_status e of Some code \<Rightarrow> CacheError (Some code) | None \<Rightarrow> CacheError None)
      | BuildRequestClient e \<Rightarrow>
          (case re_status e of Some code \<Rightarrow> CacheError (Some code) | None \<Rightarrow> CacheError None)
      | _ \<Rightarrow> CacheError None)"
| "cache_of_status (StRequestError _) = CacheError None"
| "cache_of_status (StUnknownMailStatus _) = CacheError None"

section \<open>Facts\<close>

lemma is_success_iff: "is_success s \<longleftrightarrow> (\<exists>c. s = StOk c \<or> s = StCached (CacheOk c))"
  by (cases s rule: is_success.cases) auto

lemma status_new_success: "is_success (status_new c accepted) \<longleftrightarrow> c \<in> accepted"
  by (simp add: status_new_def)

lemma from_cache_status_cached: "\<exists>s'. from_cache_status s accepted = StCached s'"
  by (cases s) (auto simp: from_cache_status_def split: option.splits)

lemma cache_of_status_cached [simp]: "cache_of_status (StCached s) = s"
  by simp

lemma from_cache_status_simps [simp]:
  "from_cache_status (CacheOk c) accepted = StCached (CacheOk c)"
  "from_cache_status (CacheError None) accepted = StCached (CacheError None)"
  "from_cache_status (CacheError (Some c)) accepted =
     StCached (if c \<in> accepted then CacheOk c else CacheError (Some c))"
  "from_cache_status CacheExcluded accepted = StCached CacheExcluded"
  "from_cache_status CacheUnsupported accepted = StCached CacheUnsupported"
  by (simp_all add: from_cache_status_def)

text \<open>What the cache file keeps of a cached status.\<close>

definition valid_code :: "status_code \<Rightarrow> bool" where
  "valid_code c \<longleftrightarrow> 100 \<le> c \<and> c < 1000"

definition reread :: "cache_status \<Rightarrow> cache_status" where
  "reread s =
     (case cache_code s of
        Some c \<Rightarrow> if 200 \<le> c \<and> c < 300 then CacheOk c else CacheError (Some c)
      | None \<Rightarrow> s)"

lemma show_nat_not_word:
  "show_nat n \<noteq> ''Excluded''" "show_nat n \<noteq> ''Unsupported''"
proof -
  have "CHR ''d'' \<notin> set (show_nat n)"
    using show_nat_digits [of n] by (auto simp: is_digit_def)
  then show "show_nat n \<noteq> ''Excluded''" "show_nat n \<noteq> ''Unsupported''" by auto
qed

lemma cache_deserialize_serialize:
  assumes "http_documented h" and "\<And>c. cache_code s = Some c \<Longrightarrow> valid_code c"
  shows "cache_deserialize h (cache_serialize s) = Some (reread s)"
proof -
  have code: "cache_deserialize h (show_nat (unat c)) =
      Some (if 200 \<le> c \<and> c < 300 then CacheOk c else CacheError (Some c))" if "valid_code c" for c
    using that by (simp add: cache_deserialize_def show_nat_not_word parse_u16_show valid_code_def
        http_documentedD [OF assms(1)])
  show ?thesis
    using assms(2) by (cases s rule: cache_serialize.cases)
      (simp_all add: code reread_def, simp_all add: cache_deserialize_def parse_u16_def parse_uint_def)
qed

section \<open>Properties\<close>

text \<open>The equality of errors is symmetric and transitive, but an error is equal to itself only
  if it is none of eight variants that the comparison has no arm for, although the type is
  declared \<open>Eq\<close>, which requires reflexivity.\<close>

theorem error_equality_not_reflexive:
  "(err_eq a b \<longrightarrow> err_eq b a) \<and> (err_eq a b \<and> err_eq b c \<longrightarrow> err_eq a c) \<and>
   (\<not> err_eq a a \<longleftrightarrow>
     (\<exists>t. a = Utf8 t) \<or> (\<exists>g. a = BuildGithubClient g) \<or> (\<exists>t. a = RootRelativeLinkWithoutRoot t) \<or>
     (\<exists>t. a = UnsupportedUriType t) \<or> (\<exists>e. a = StatusCodeSelectorError e) \<or>
     (\<exists>c r. a = PreprocessorError c r) \<or> (\<exists>u p. a = WikilinkNotFound u p) \<or>
     (\<exists>t. a = WikilinkInvalidBase t))"
proof -
  have "err_key a = None \<longleftrightarrow>
     (\<exists>t. a = Utf8 t) \<or> (\<exists>g. a = BuildGithubClient g) \<or> (\<exists>t. a = RootRelativeLinkWithoutRoot t) \<or>
     (\<exists>t. a = UnsupportedUriType t) \<or> (\<exists>e. a = StatusCodeSelectorError e) \<or>
     (\<exists>c r. a = PreprocessorError c r) \<or> (\<exists>u p. a = WikilinkNotFound u p) \<or>
     (\<exists>t. a = WikilinkInvalidBase t)"
    by (cases a) simp_all
  then show ?thesis
    using err_eq_sym [of a b] err_eq_trans [of a b c] err_eq_key [of a a] by metis
qed

theorem error_equality_not_reflexive_witness:
  "\<not> err_eq (RootRelativeLinkWithoutRoot ''/help'') (RootRelativeLinkWithoutRoot ''/help'')"
  using error_equality_not_reflexive
    [of "RootRelativeLinkWithoutRoot ''/help''" EmptyUrl EmptyUrl] by blast

end
