(* ===== verification/Retry.thy ===== *)
theory Retry
  imports Status
begin

text \<open>
  \<open>lychee-lib/src/retry.rs\<close>: which outcomes are worth another attempt, and the loop of
  \<open>WebsiteChecker::retry_request\<close> (\<open>lychee-lib/src/checker/website.rs\<close>) that makes them,
  with its exponentially growing waits.
\<close>

section \<open>What is retried\<close>

definition code_should_retry :: "http \<Rightarrow> status_code \<Rightarrow> bool" where
  "code_should_retry h c \<longleftrightarrow> code_is_server_error h c \<or> c = 408 \<or> c = 429"

definition should_retry_io :: "io_error \<Rightarrow> bool" where
  "should_retry_io e \<longleftrightarrow> io_kind_of e \<in> {ConnectionReset, ConnectionAborted, TimedOut}"

text \<open>\<open>get_source_error_type\<close>: the first source of the wanted type, with the sources behind it.\<close>

fun first_hyper :: "error_source list \<Rightarrow> (hyper_error \<times> error_source list) option" where
  "first_hyper [] = None"
| "first_hyper (HyperSource hyper # rest) = Some (hyper, rest)"
| "first_hyper (_ # rest) = first_hyper rest"

fun first_io :: "error_source list \<Rightarrow> io_error option" where
  "first_io [] = None"
| "first_io (IoSource e # rest) = Some e"
| "first_io (_ # rest) = first_io rest"

definition reqwest_should_retry :: "http \<Rightarrow> reqwest_error \<Rightarrow> bool" where
  "reqwest_should_retry h e =
     (if re_timeout e then True
      else if re_connect e then False
      else if re_body e \<or> re_decode e \<or> re_builder e \<or> re_redirect e then False
      else if re_request e then
        (case first_hyper (re_sources e) of
           Some (hyper, sources) \<Rightarrow>
             if hy_incomplete hyper \<or> hy_canceled hyper then True
             else (case first_io sources of Some io \<Rightarrow> should_retry_io io | None \<Rightarrow> False)
         | None \<Rightarrow> False)
      else (case re_status e of Some status \<Rightarrow> code_should_retry h status | None \<Rightarrow> False))"

definition http_error_should_retry :: "io_error option \<Rightarrow> bool" where
  "http_error_should_retry src = (case src of Some io \<Rightarrow> should_retry_io io | None \<Rightarrow> False)"

text \<open>
  \<open>ErrorKind::should_retry\<close>.  What the downcast in \<open>ErrorKind::github_error\<close> yields is up to
  the \<open>source\<close> method that thiserror generates for a boxed error, so it is the parameter
  \<open>github_error\<close>.
\<close>

definition err_should_retry ::
  "http \<Rightarrow> (error_kind \<Rightarrow> octo_error option) \<Rightarrow> error_kind \<Rightarrow> bool" where
  "err_should_retry h github_error e =
     (case reqwest_error_of e of
        Some r \<Rightarrow> reqwest_should_retry h r
      | None \<Rightarrow>
          (case map_option oc_kind (github_error e) of
             Some (OctoHttp src) \<Rightarrow> http_error_should_retry src
           | _ \<Rightarrow> (case e of RejectedStatusCode c \<Rightarrow> c = 429 | _ \<Rightarrow> False)))"

definition status_should_retry ::
  "http \<Rightarrow> (error_kind \<Rightarrow> octo_error option) \<Rightarrow> status \<Rightarrow> bool" where
  "status_should_retry h github_error s =
     (case s of
        StTimeout _ \<Rightarrow> True
      | StError err \<Rightarrow> err_should_retry h github_error err
      | _ \<Rightarrow> False)"

section \<open>Durations\<close>

text \<open>A \<open>Duration\<close> in nanoseconds: \<open>u64\<close> seconds and a part below one second.\<close>

type_synonym duration = nat

definition DURATION_MAX :: duration where
  "DURATION_MAX = (2 ^ 64 - 1) * 1000000000 + 999999999"

definition from_millis :: "nat \<Rightarrow> duration" where "from_millis n = n * 1000000"
definition from_secs :: "nat \<Rightarrow> duration" where "from_secs n = n * 1000000000"

definition saturating_mul :: "duration \<Rightarrow> nat \<Rightarrow> duration" where
  "saturating_mul d k = min DURATION_MAX (d * k)"

section \<open>The retry loop\<close>

text \<open>
  \<open>check\<close> is one attempt (\<open>check_default\<close> on a clone of the request) on the state of the
  world it runs in.  The loop returns the status, the state and the waits it slept through.
\<close>

fun retry_loop ::
  "('w \<Rightarrow> status \<times> 'w) \<Rightarrow> (status \<Rightarrow> bool) \<Rightarrow> nat \<Rightarrow> duration \<Rightarrow> status \<Rightarrow> 'w \<Rightarrow>
   status \<times> 'w \<times> duration list" where
  "retry_loop check should_retry 0 wait_time status w = (status, w, [])"
| "retry_loop check should_retry (Suc left) wait_time status w =
     (if is_success status \<or> \<not> should_retry status then (status, w, [])
      else (case check w of (status', w') \<Rightarrow>
        (case retry_loop check should_retry left (saturating_mul wait_time 2) status' w' of
           (st, w'', sleeps) \<Rightarrow> (st, w'', wait_time # sleeps))))"

definition retry_request ::
  "('w \<Rightarrow> status \<times> 'w) \<Rightarrow> (status \<Rightarrow> bool) \<Rightarrow> nat \<Rightarrow> duration \<Rightarrow> 'w \<Rightarrow>
   status \<times> 'w \<times> duration list" where
  "retry_request check should_retry max_retries retry_wait_time w =
     (case check w of (status, w') \<Rightarrow>
        retry_loop check should_retry max_retries retry_wait_time status w')"

text \<open>The outcome of the \<open>k\<close>-th attempt when each is made in the state the one before left.\<close>

fun attempt :: "('w \<Rightarrow> status \<times> 'w) \<Rightarrow> 'w \<Rightarrow> nat \<Rightarrow> status \<times> 'w" where
  "attempt check w 0 = check w"
| "attempt check w (Suc k) = check (snd (attempt check w k))"

lemma attempt_shift: "attempt check w (Suc k) = attempt check (snd (check w)) k"
  by (induction k) simp_all

lemma saturating_mul_mul: "saturating_mul (saturating_mul d a) b = saturating_mul d (a * b)" if "0 < b"
proof (cases "d * a \<le> DURATION_MAX")
  case True
  then show ?thesis by (simp add: saturating_mul_def mult.assoc)
next
  case False
  have "DURATION_MAX \<le> DURATION_MAX * b" using that by simp
  moreover have "d * a * 1 \<le> d * a * b" using that by (intro mult_le_mono2) simp
  with False have "DURATION_MAX \<le> d * (a * b)" by (simp only: mult.assoc mult_1_right not_le)
  ultimately show ?thesis using False by (simp add: saturating_mul_def)
qed

lemma saturating_mul_1: "d \<le> DURATION_MAX \<Longrightarrow> saturating_mul d 1 = d"
  by (simp add: saturating_mul_def)

text \<open>
  What the loop does from a first status: it stops at the first attempt that succeeded or is
  not worth retrying, or when the retries are used up.
\<close>

lemma retry_loop_spec:
  assumes "wait \<le> DURATION_MAX" "check w0 = (status, w)"
  shows "\<exists>n \<le> left. \<exists>st w'.
    retry_loop check should_retry left wait status w =
      (st, w', map (\<lambda>i. saturating_mul wait (2 ^ i)) [0..<n]) \<and>
    attempt check w0 n = (st, w') \<and>
    (\<forall>k < n. \<not> is_success (fst (attempt check w0 k)) \<and> should_retry (fst (attempt check w0 k))) \<and>
    (n = left \<or> is_success st \<or> \<not> should_retry st)"
  using assms
proof (induction left arbitrary: wait status w w0)
  case 0
  then show ?case by auto
next
  case (Suc left)
  show ?case
  proof (cases "is_success status \<or> \<not> should_retry status")
    case True
    with Suc.prems show ?thesis by (intro exI [of _ 0]) auto
  next
    case False
    obtain status' w' where next': "check w = (status', w')" by force
    let ?w2 = "saturating_mul wait 2"
    have "?w2 \<le> DURATION_MAX" by (simp add: saturating_mul_def)
    from Suc.IH [OF this next'] obtain n st w'' where n: "n \<le> left"
      and loop: "retry_loop check should_retry left ?w2 status' w' =
        (st, w'', map (\<lambda>i. saturating_mul ?w2 (2 ^ i)) [0..<n])"
      and last: "attempt check w n = (st, w'')"
      and before: "\<forall>k < n. \<not> is_success (fst (attempt check w k)) \<and> should_retry (fst (attempt check w k))"
      and stop: "n = left \<or> is_success st \<or> \<not> should_retry st"
      by blast
    have shift: "attempt check w0 (Suc k) = attempt check w k" for k
      using attempt_shift [of check w0 k] Suc.prems(2) by simp
    have "wait # map (\<lambda>i. saturating_mul ?w2 (2 ^ i)) [0..<n] =
        map (\<lambda>i. saturating_mul wait (2 ^ i)) [0..<Suc n]"
      using Suc.prems(1)
      by (simp add: upt_conv_Cons saturating_mul_mul saturating_mul_1 [simplified] map_Suc_upt [symmetric]
          del: upt_Suc)
    with False next' loop have "retry_loop check should_retry (Suc left) wait status w =
        (st, w'', map (\<lambda>i. saturating_mul wait (2 ^ i)) [0..<Suc n])"
      by (simp del: upt_Suc)
    moreover have "\<forall>k < Suc n. \<not> is_success (fst (attempt check w0 k)) \<and>
        should_retry (fst (attempt check w0 k))"
    proof (intro allI impI)
      fix k
      assume "k < Suc n"
      then show "\<not> is_success (fst (attempt check w0 k)) \<and> should_retry (fst (attempt check w0 k))"
        using before False Suc.prems(2) shift by (cases k) auto
    qed
    ultimately show ?thesis
      using n last stop shift by (intro exI [of _ "Suc n"]) auto
  qed
qed

lemma status_new_retry:
  "status_should_retry h gh (status_new c accepted) \<longleftrightarrow>
     c \<notin> accepted \<and> (case map_option oc_kind (gh (RejectedStatusCode c)) of
       Some (OctoHttp src) \<Rightarrow> http_error_should_retry src | _ \<Rightarrow> c = 429)"
  by (auto simp: status_should_retry_def status_new_def err_should_retry_def reqwest_error_of_def
      split: option.splits octo_kind.splits)

section \<open>Properties\<close>

text \<open>C18: A request is attempted once and then again, at most \<open>max_retries\<close> times, as long as
  the attempt before failed in a way that is worth retrying; the loop returns the status of the
  last attempt, and its waits start at the configured time and double, saturating at the largest
  duration.\<close>

theorem retry_request_attempts:
  assumes "retry_wait_time \<le> DURATION_MAX"
  shows "\<exists>n \<le> max_retries. \<exists>st w'.
    retry_request check should_retry max_retries retry_wait_time w =
      (st, w', map (\<lambda>i. min DURATION_MAX (retry_wait_time * 2 ^ i)) [0..<n]) \<and>
    attempt check w n = (st, w') \<and>
    (\<forall>k < n. \<not> is_success (fst (attempt check w k)) \<and> should_retry (fst (attempt check w k))) \<and>
    (n = max_retries \<or> is_success st \<or> \<not> should_retry st)"
proof -
  obtain status w1 where first: "check w = (status, w1)" by force
  from retry_loop_spec [where check = check, OF assms first, of max_retries should_retry]
  show ?thesis
    by (simp add: retry_request_def first saturating_mul_def)
qed

theorem retry_request_attempts_witness:
  "\<exists>n \<le> 3. \<exists>st w'.
    retry_request (\<lambda>k. (if k < (2::nat) then StTimeout None else StOk 200, Suc k)) is_timeout 3
        (from_secs 1) 0 =
      (st, w', map (\<lambda>i. min DURATION_MAX (from_secs 1 * 2 ^ i)) [0..<n]) \<and>
    attempt (\<lambda>k. (if k < (2::nat) then StTimeout None else StOk 200, Suc k)) 0 n = (st, w') \<and>
    (\<forall>k < n. \<not> is_success (fst (attempt (\<lambda>k. (if k < (2::nat) then StTimeout None else StOk 200, Suc k)) 0 k)) \<and>
      is_timeout (fst (attempt (\<lambda>k. (if k < (2::nat) then StTimeout None else StOk 200, Suc k)) 0 k))) \<and>
    (n = 3 \<or> is_success st \<or> \<not> is_timeout st)"
  by (rule retry_request_attempts) (simp add: from_secs_def DURATION_MAX_def)

end
