(* ===== verification/UriFilter.thy ===== *)
theory UriFilter
  imports Status
begin

text \<open>
  URIs and the rules that decide which of them are checked:
  \<open>lychee-lib/src/types/uri/valid.rs\<close>, \<open>lychee-lib/src/filter/mod.rs\<close> and
  \<open>lychee-lib/src/filter/regex_filter.rs\<close>.  Regular expressions, the IPv6 classes and the URL
  parser are parameters.
\<close>

section \<open>URIs\<close>

fun uri_domain :: "uri \<Rightarrow> string option" where
  "uri_domain u = (case url_host u of Some (HostDomain d) \<Rightarrow> Some d | _ \<Rightarrow> None)"

definition is_mail :: "uri \<Rightarrow> bool" where "is_mail u \<longleftrightarrow> url_scheme u = ''mailto''"
definition is_tel :: "uri \<Rightarrow> bool" where "is_tel u \<longleftrightarrow> url_scheme u = ''tel''"
definition is_file :: "uri \<Rightarrow> bool" where "is_file u \<longleftrightarrow> url_scheme u = ''file''"
definition is_data :: "uri \<Rightarrow> bool" where "is_data u \<longleftrightarrow> url_scheme u = ''data''"

definition is_loopback :: "uri \<Rightarrow> bool" where
  "is_loopback u = (case url_host u of
     Some (HostV4 addr) \<Rightarrow> v4_is_loopback addr | Some (HostV6 addr) \<Rightarrow> v6_is_loopback addr | _ \<Rightarrow> False)"

definition is_private :: "ip_network \<Rightarrow> uri \<Rightarrow> bool" where
  "is_private net u = (case url_host u of
     Some (HostV4 addr) \<Rightarrow> v4_is_private addr | Some (HostV6 addr) \<Rightarrow> v6_is_unique_local net addr
   | _ \<Rightarrow> False)"

definition is_link_local :: "ip_network \<Rightarrow> uri \<Rightarrow> bool" where
  "is_link_local net u = (case url_host u of
     Some (HostV4 addr) \<Rightarrow> v4_is_link_local addr | Some (HostV6 addr) \<Rightarrow> v6_is_unicast_link_local net addr
   | _ \<Rightarrow> False)"

definition to_https :: "url_crate \<Rightarrow> uri \<Rightarrow> error_kind + uri" where
  "to_https uc u = (case uc_set_scheme uc ''https'' u of Some u' \<Rightarrow> Inr u' | None \<Rightarrow> Inl (InvalidURI u))"

text \<open>\<open>TryFrom<&str> for Uri\<close>, with \<open>EmailAddress::is_valid\<close> as the parameter \<open>valid_mail\<close>.\<close>

definition uri_try_from :: "url_crate \<Rightarrow> (string \<Rightarrow> bool) \<Rightarrow> string \<Rightarrow> error_kind + uri" where
  "uri_try_from uc valid_mail s =
     (if s = [] then Inl EmptyUrl
      else (case uc_parse uc s of
              Inr uri \<Rightarrow> Inr uri
            | Inl err \<Rightarrow>
                (case (if valid_mail s then uc_parse uc (''mailto:'' @ s) else Inl err) of
                   Inr uri \<Rightarrow> Inr uri
                 | Inl _ \<Rightarrow> Inl (ParseUrl err s))))"

section \<open>Regular expression filters\<close>

text \<open>A \<open>RegexSet\<close> is the list of its patterns; building it fails if one does not compile.\<close>

type_synonym regex_filter = "string list"

definition regex_filter_new :: "regex_crate \<Rightarrow> string list \<Rightarrow> string + regex_filter" where
  "regex_filter_new rx exprs =
     collect_results (map (\<lambda>e. case rx_error rx e of Some err \<Rightarrow> Inl err | None \<Rightarrow> Inr e) exprs)"

definition filter_is_match :: "regex_crate \<Rightarrow> regex_filter \<Rightarrow> string \<Rightarrow> bool" where
  "filter_is_match rx f input \<longleftrightarrow> (\<exists>p \<in> set f. rx_is_match rx p input)"

section \<open>Built-in exclusions\<close>

definition EXAMPLE_DOMAINS :: "bool \<Rightarrow> string list" where
  "EXAMPLE_DOMAINS check_example_domains =
     (if check_example_domains then []
      else [''example.com'', ''example.org'', ''example.net'', ''example.edu''])"

definition EXAMPLE_TLDS :: "bool \<Rightarrow> string list" where
  "EXAMPLE_TLDS check_example_domains =
     (if check_example_domains then [] else [''.test'', ''.example'', ''.invalid'', ''.localhost''])"

definition UNSUPPORTED_DOMAINS :: "string list" where
  "UNSUPPORTED_DOMAINS = [''twitter.com'']"

definition FALSE_POSITIVE_PAT :: "string list" where
  "FALSE_POSITIVE_PAT =
     [''^https?://schemas'' @ [CHR 0x5C] @ ''.openxmlformats'' @ [CHR 0x5C] @ ''.org'',
      ''^https?://schemas'' @ [CHR 0x5C] @ ''.microsoft'' @ [CHR 0x5C] @ ''.com'',
      ''^https?://schemas'' @ [CHR 0x5C] @ ''.zune'' @ [CHR 0x5C] @ ''.net'',
      ''^https?://www'' @ [CHR 0x5C] @ ''.w3'' @ [CHR 0x5C] @ ''.org/1999/xhtml'',
      ''^https?://www'' @ [CHR 0x5C] @ ''.w3'' @ [CHR 0x5C] @ ''.org/1999/xlink'',
      ''^https?://www'' @ [CHR 0x5C] @ ''.w3'' @ [CHR 0x5C] @ ''.org/2000/svg'',
      ''^https?://www'' @ [CHR 0x5C] @ ''.w3'' @ [CHR 0x5C] @ ''.org/2001/XMLSchema-instance'',
      ''^https?://ogp'' @ [CHR 0x5C] @ ''.me/ns#'',
      ''^https?://(.*)/xmlrpc'' @ [CHR 0x5C] @ ''.php$'']"

definition is_false_positive :: "regex_crate \<Rightarrow> string \<Rightarrow> bool" where
  "is_false_positive rx input \<longleftrightarrow> filter_is_match rx FALSE_POSITIVE_PAT input"

definition is_example_domain :: "bool \<Rightarrow> uri \<Rightarrow> bool" where
  "is_example_domain check_example_domains u =
     (case uri_domain u of
        Some domain \<Rightarrow>
          (\<exists>example \<in> set (EXAMPLE_DOMAINS check_example_domains).
             domain = example \<or>
             (case split_once ''.'' domain of Some (_, tld_part) \<Rightarrow> tld_part = example | None \<Rightarrow> False)) \<or>
          (\<exists>tld \<in> set (EXAMPLE_TLDS check_example_domains). suffix tld domain)
      | None \<Rightarrow>
          if is_mail u
          then \<exists>tld \<in> set (EXAMPLE_DOMAINS check_example_domains). suffix tld (url_path u)
          else False)"

definition is_unsupported_domain :: "uri \<Rightarrow> bool" where
  "is_unsupported_domain u =
     (case uri_domain u of
        Some domain \<Rightarrow> \<exists>tld \<in> set UNSUPPORTED_DOMAINS. suffix tld domain
      | None \<Rightarrow> False)"

section \<open>The filter\<close>

record uri_filter =
  f_includes :: "regex_filter option"
  f_excludes :: "regex_filter option"
  f_schemes :: "string set"
  f_exclude_private_ips :: bool
  f_exclude_link_local_ips :: bool
  f_exclude_loopback_ips :: bool
  f_include_mail :: bool

text \<open>The environment of a filter: the crates it calls and how it was built.\<close>

record filter_env =
  fl_rx :: regex_crate
  fl_net :: ip_network
  fl_check_example_domains :: bool

definition is_mail_excluded :: "uri_filter \<Rightarrow> uri \<Rightarrow> bool" where
  "is_mail_excluded f u \<longleftrightarrow> is_mail u \<and> \<not> f_include_mail f"

definition is_ip_excluded :: "ip_network \<Rightarrow> uri_filter \<Rightarrow> uri \<Rightarrow> bool" where
  "is_ip_excluded net f u \<longleftrightarrow>
     (f_exclude_loopback_ips f \<and> is_loopback u) \<or> (f_exclude_private_ips f \<and> is_private net u) \<or>
     (f_exclude_link_local_ips f \<and> is_link_local net u)"

definition is_host_excluded :: "uri_filter \<Rightarrow> uri \<Rightarrow> bool" where
  "is_host_excluded f u \<longleftrightarrow> f_exclude_loopback_ips f \<and> uri_domain u = Some ''localhost''"

definition is_scheme_excluded :: "uri_filter \<Rightarrow> uri \<Rightarrow> bool" where
  "is_scheme_excluded f u = (if f_schemes f = {} then False else url_scheme u \<notin> f_schemes f)"

definition is_includes_empty :: "uri_filter \<Rightarrow> bool" where
  "is_includes_empty f = (\<not> (case f_includes f of Some i \<Rightarrow> i \<noteq> [] | None \<Rightarrow> False))"

definition is_excludes_empty :: "uri_filter \<Rightarrow> bool" where
  "is_excludes_empty f = (\<not> (case f_excludes f of Some e \<Rightarrow> e \<noteq> [] | None \<Rightarrow> False))"

definition is_includes_match :: "regex_crate \<Rightarrow> uri_filter \<Rightarrow> string \<Rightarrow> bool" where
  "is_includes_match rx f input =
     (case f_includes f of Some i \<Rightarrow> filter_is_match rx i input | None \<Rightarrow> False)"

definition is_excludes_match :: "regex_crate \<Rightarrow> uri_filter \<Rightarrow> string \<Rightarrow> bool" where
  "is_excludes_match rx f input =
     (case f_excludes f of Some e \<Rightarrow> filter_is_match rx e input | None \<Rightarrow> False)"

definition filter_is_excluded :: "filter_env \<Rightarrow> uri_filter \<Rightarrow> uri \<Rightarrow> bool" where
  "filter_is_excluded env f u =
     (if is_scheme_excluded f u \<or> is_host_excluded f u \<or> is_ip_excluded (fl_net env) f u \<or>
         is_mail_excluded f u \<or> is_tel u \<or> is_example_domain (fl_check_example_domains env) u \<or>
         is_unsupported_domain u
      then True
      else
        let input = url_str u; rx = fl_rx env in
        if is_includes_empty f \<and> is_excludes_empty f then is_false_positive rx input
        else if \<not> is_includes_empty f \<and> is_includes_match rx f input then False
        else is_false_positive rx input \<or> is_excludes_empty f \<or> is_excludes_match rx f input)"

section \<open>How the filter decides\<close>

definition always_excluded :: "filter_env \<Rightarrow> uri_filter \<Rightarrow> uri \<Rightarrow> bool" where
  "always_excluded env f u \<longleftrightarrow>
     is_scheme_excluded f u \<or> is_host_excluded f u \<or> is_ip_excluded (fl_net env) f u \<or>
     is_mail_excluded f u \<or> is_tel u \<or> is_example_domain (fl_check_example_domains env) u \<or>
     is_unsupported_domain u"

definition patterns :: "regex_filter option \<Rightarrow> string list" where
  "patterns r = (case r of Some ps \<Rightarrow> ps | None \<Rightarrow> [])"

lemma filter_patterns:
  "is_includes_empty f \<longleftrightarrow> patterns (f_includes f) = []"
  "is_excludes_empty f \<longleftrightarrow> patterns (f_excludes f) = []"
  "is_includes_match rx f s \<longleftrightarrow> (\<exists>p \<in> set (patterns (f_includes f)). rx_is_match rx p s)"
  "is_excludes_match rx f s \<longleftrightarrow> (\<exists>p \<in> set (patterns (f_excludes f)). rx_is_match rx p s)"
  by (auto simp: is_includes_empty_def is_excludes_empty_def is_includes_match_def
      is_excludes_match_def filter_is_match_def patterns_def split: option.splits)

lemma filter_decision:
  "filter_is_excluded env f u \<longleftrightarrow> always_excluded env f u \<or>
     \<not> is_includes_match (fl_rx env) f (url_str u) \<and>
     (is_false_positive (fl_rx env) (url_str u) \<or> is_excludes_match (fl_rx env) f (url_str u) \<or>
      is_excludes_empty f \<and> \<not> is_includes_empty f)"
  by (auto simp: filter_is_excluded_def always_excluded_def Let_def filter_patterns)

text \<open>A filter with no rules: the default one.\<close>

definition filter_default :: uri_filter where
  "filter_default = \<lparr>f_includes = None, f_excludes = None, f_schemes = {},
     f_exclude_private_ips = False, f_exclude_link_local_ips = False,
     f_exclude_loopback_ips = False, f_include_mail = False\<rparr>"

text \<open>An environment whose patterns are literal prefixes, for concrete instances.\<close>

definition prefix_env :: filter_env where
  "prefix_env = \<lparr>fl_rx = \<lparr>rx_error = Map.empty, rx_is_match = prefix, rx_replace_all = (\<lambda>p r s. s)\<rparr>,
     fl_net = ip_network_std, fl_check_example_domains = False\<rparr>"

section \<open>Properties\<close>

text \<open>A URI is excluded if its scheme, host, address, mail rule or built-in domain list says so;
  otherwise an include pattern that matches decides for it; otherwise it is excluded if it is a
  known false positive, an exclude pattern matches, or there are include patterns but no exclude
  pattern.\<close>

theorem filter_excludes_exactly:
  "filter_is_excluded env f u \<longleftrightarrow>
     (is_scheme_excluded f u \<or> is_host_excluded f u \<or> is_ip_excluded (fl_net env) f u \<or>
      is_mail_excluded f u \<or> is_tel u \<or> is_example_domain (fl_check_example_domains env) u \<or>
      is_unsupported_domain u) \<or>
     (\<forall>p \<in> set (patterns (f_includes f)). \<not> rx_is_match (fl_rx env) p (url_str u)) \<and>
     ((\<exists>p \<in> set FALSE_POSITIVE_PAT. rx_is_match (fl_rx env) p (url_str u)) \<or>
      (\<exists>p \<in> set (patterns (f_excludes f)). rx_is_match (fl_rx env) p (url_str u)) \<or>
      patterns (f_excludes f) = [] \<and> patterns (f_includes f) \<noteq> [])"
  by (auto simp: filter_decision always_excluded_def filter_patterns is_false_positive_def filter_is_match_def)

theorem filter_excludes_exactly_witness:
  "let env = prefix_env; f = filter_default\<lparr>f_excludes := Some [''https://a'']\<rparr>
   in filter_is_excluded env f (domain_url ''https'' ''a.org'' ''/'')"
  unfolding Let_def by (subst filter_excludes_exactly) (simp add: prefix_env_def patterns_def filter_default_def domain_url_def)

text \<open>Where there are include patterns and no exclude pattern, everything that no include pattern
  matches is excluded; adding a first exclude pattern then admits every such URI that neither the
  new pattern nor a built-in rule excludes.\<close>

theorem first_exclude_pattern_admits:
  assumes "patterns (f_includes f) \<noteq> []" "patterns (f_excludes f) = []"
    and "\<forall>i \<in> set (patterns (f_includes f)). \<not> rx_is_match (fl_rx env) i (url_str u)"
    and "\<not> always_excluded env f u" "\<not> is_false_positive (fl_rx env) (url_str u)"
    and "\<not> rx_is_match (fl_rx env) p (url_str u)"
  shows "filter_is_excluded env f u \<and> \<not> filter_is_excluded env (f\<lparr>f_excludes := Some [p]\<rparr>) u"
proof
  show "filter_is_excluded env f u"
    using assms by (simp add: filter_decision filter_patterns)
  have "always_excluded env (f\<lparr>f_excludes := Some [p]\<rparr>) u \<longleftrightarrow> always_excluded env f u"
    by (simp add: always_excluded_def is_scheme_excluded_def is_host_excluded_def
        is_ip_excluded_def is_mail_excluded_def)
  then show "\<not> filter_is_excluded env (f\<lparr>f_excludes := Some [p]\<rparr>) u"
    using assms by (simp add: filter_decision filter_patterns patterns_def)
qed

theorem first_exclude_pattern_admits_witness:
  "let env = prefix_env; f = filter_default\<lparr>f_includes := Some [''https://a'']\<rparr>;
       u = domain_url ''https'' ''b.org'' ''/''
   in filter_is_excluded env f u \<and> \<not> filter_is_excluded env (f\<lparr>f_excludes := Some [''https://c'']\<rparr>) u"
  unfolding Let_def
  by (rule first_exclude_pattern_admits)
    (simp_all add: prefix_env_def patterns_def filter_default_def domain_url_def always_excluded_def
      is_scheme_excluded_def is_host_excluded_def is_ip_excluded_def is_mail_excluded_def is_mail_def
      is_tel_def is_example_domain_def is_unsupported_domain_def EXAMPLE_DOMAINS_def EXAMPLE_TLDS_def
      UNSUPPORTED_DOMAINS_def is_false_positive_def filter_is_match_def FALSE_POSITIVE_PAT_def
      suffix_to_prefix)

text \<open>Every domain whose name ends in \<open>twitter.com\<close> is excluded, also one that is no subdomain of
  it, whatever the include patterns; a subdomain of an example domain is recognised only one level
  deep.\<close>

theorem builtin_domains_by_suffix:
  "(uri_domain u = Some (p @ ''twitter.com'') \<longrightarrow> filter_is_excluded env f u) \<and>
   (uri_domain u = Some (a @ ''.example.com'') \<longrightarrow> CHR ''.'' \<notin> set a \<longrightarrow>
     \<not> fl_check_example_domains env \<longrightarrow> filter_is_excluded env f u) \<and>
   (uri_domain u = Some (a @ ''.'' @ b @ ''.example.com'') \<longrightarrow> CHR ''.'' \<notin> set a \<longrightarrow>
     b \<noteq> [] \<longrightarrow> \<not> is_example_domain c u)"
proof (intro conjI impI)
  show "uri_domain u = Some (p @ ''twitter.com'') \<Longrightarrow> filter_is_excluded env f u"
    by (simp add: filter_decision always_excluded_def is_unsupported_domain_def UNSUPPORTED_DOMAINS_def
        suffix_def del: uri_domain.simps)
  assume a: "CHR ''.'' \<notin> set a"
  {
    assume "uri_domain u = Some (a @ ''.example.com'')" "\<not> fl_check_example_domains env"
    moreover have "split_once ''.'' (a @ ''.example.com'') = Some (a, ''example.com'')"
      using split_once_char [OF a, of "''example.com''"] by simp
    ultimately show "filter_is_excluded env f u"
      by (simp add: filter_decision always_excluded_def is_example_domain_def EXAMPLE_DOMAINS_def
          del: uri_domain.simps)
  }
  assume d: "uri_domain u = Some (a @ ''.'' @ b @ ''.example.com'')" and b: "b \<noteq> []"
  have split: "split_once ''.'' (a @ ''.'' @ b @ ''.example.com'') = Some (a, b @ ''.example.com'')"
    using split_once_char [OF a, of "b @ ''.example.com''"] by simp
  have "a @ ''.'' @ b @ ''.example.com'' = d' \<Longrightarrow> suffix ''.example.com'' d'" for d'
    by (auto simp: suffix_def)
  then have "a @ ''.'' @ b @ ''.example.com'' \<notin> set (EXAMPLE_DOMAINS c)"
    by (auto simp: EXAMPLE_DOMAINS_def suffix_to_prefix)
  moreover have "b @ ''.example.com'' \<notin> set (EXAMPLE_DOMAINS c)"
  proof
    assume "b @ ''.example.com'' \<in> set (EXAMPLE_DOMAINS c)"
    then have "suffix ''.example.com'' (b @ ''.example.com'')" "length (b @ ''.example.com'') \<le> 11"
      by (auto simp: EXAMPLE_DOMAINS_def suffix_def split: if_splits dest!: arg_cong [where f = length])
    with b show False by simp
  qed
  moreover have "\<not> suffix tld (a @ ''.'' @ b @ ''.example.com'')" if "tld \<in> set (EXAMPLE_TLDS c)" for tld
    using that by (auto simp: EXAMPLE_TLDS_def suffix_to_prefix split: if_splits)
  ultimately show "\<not> is_example_domain c u"
    using d split by (auto simp: is_example_domain_def simp del: uri_domain.simps)
qed

theorem builtin_domains_by_suffix_witness:
  "filter_is_excluded prefix_env filter_default (domain_url ''https'' ''nottwitter.com'' ''/'') \<and>
   \<not> is_example_domain False (domain_url ''https'' ''a.b.example.com'' ''/'')"
  using builtin_domains_by_suffix [of "domain_url ''https'' ''nottwitter.com'' ''/''" "''not''" prefix_env filter_default]
    builtin_domains_by_suffix [of "domain_url ''https'' ''a.b.example.com'' ''/''" _ prefix_env filter_default "''a''" "''b''" False]
  by (simp add: domain_url_def)

end
