(* ===== verification/HostStats.thy ===== *)
theory HostStats
  imports Complex_Main Retry UriFilter
begin

text \<open>
  What rate limiting keeps per host: its key (\<open>lychee-lib/src/ratelimit/host/key.rs\<close>), its
  configuration (\<open>ratelimit/config.rs\<close>), its statistics (\<open>ratelimit/host/stats.rs\<close>) and the
  headers a server sends about its limits (\<open>ratelimit/headers.rs\<close>).

  Durations are in nanoseconds (theory \<open>Retry\<close>), points in time nanoseconds on the clock's
  scale; counters are natural numbers.
\<close>

section \<open>Host keys\<close>

type_synonym host_key = string

text \<open>\<open>Url::host_str\<close> of a host, with the textual form of addresses as a parameter.\<close>

fun host_str :: "(url_host \<Rightarrow> string) \<Rightarrow> url_host \<Rightarrow> string" where
  "host_str show_ip (HostDomain d) = d"
| "host_str show_ip h = show_ip h"

definition key_of_url :: "(url_host \<Rightarrow> string) \<Rightarrow> url \<Rightarrow> error_kind + host_key" where
  "key_of_url show_ip url =
     (case url_host url of
        None \<Rightarrow> Inl InvalidUrlHost
      | Some host \<Rightarrow> Inr (to_lowercase (host_str show_ip host)))"

definition key_of_str :: "string \<Rightarrow> host_key" where
  "key_of_str host = to_lowercase host"

text \<open>The derived \<open>Deserialize\<close> of a key in the configuration file takes the string as it is.\<close>

definition key_deserialize :: "string \<Rightarrow> host_key" where
  "key_deserialize s = s"

section \<open>Configuration\<close>

record rate_limit_config =
  rl_concurrency :: nat
  rl_request_interval :: duration

definition rate_limit_from_options :: "nat option \<Rightarrow> duration option \<Rightarrow> rate_limit_config" where
  "rate_limit_from_options concurrency request_interval =
     \<lparr>rl_concurrency = (case concurrency of Some c \<Rightarrow> c | None \<Rightarrow> 10),
      rl_request_interval = (case request_interval of Some d \<Rightarrow> d | None \<Rightarrow> from_millis 50)\<rparr>"

text \<open>A header map as the list of its names and values; \<open>append\<close> keeps earlier values.\<close>

record host_config =
  hc_concurrency :: "nat option"
  hc_request_interval :: "duration option"
  hc_headers :: "(string \<times> string) list"

definition host_config_default :: host_config where
  "host_config_default = \<lparr>hc_concurrency = None, hc_request_interval = None, hc_headers = []\<rparr>"

definition effective_concurrency :: "rate_limit_config \<Rightarrow> host_config \<Rightarrow> nat" where
  "effective_concurrency global c =
     (case hc_concurrency c of Some n \<Rightarrow> n | None \<Rightarrow> rl_concurrency global)"

definition effective_request_interval :: "rate_limit_config \<Rightarrow> host_config \<Rightarrow> duration" where
  "effective_request_interval global c =
     (case hc_request_interval c of Some d \<Rightarrow> d | None \<Rightarrow> rl_request_interval global)"

definition option_or :: "'a option \<Rightarrow> 'a option \<Rightarrow> 'a option" where
  "option_or a b = (case a of Some x \<Rightarrow> Some x | None \<Rightarrow> b)"

definition host_config_merge :: "host_config \<Rightarrow> host_config \<Rightarrow> host_config" where
  "host_config_merge a b =
     \<lparr>hc_concurrency = option_or (hc_concurrency a) (hc_concurrency b),
      hc_request_interval = option_or (hc_request_interval a) (hc_request_interval b),
      hc_headers = hc_headers a @ hc_headers b\<rparr>"

type_synonym host_configs = "host_key \<rightharpoonup> host_config"

text \<open>The loop of \<open>HostConfigs::merge\<close> over the other map's entries, in any order.\<close>

definition host_configs_merge :: "host_configs \<Rightarrow> (host_key \<times> host_config) list \<Rightarrow> host_configs" where
  "host_configs_merge self other =
     foldl (\<lambda>m (key, value).
       let value = (case m key of Some s \<Rightarrow> host_config_merge s value | None \<Rightarrow> value)
       in m(key \<mapsto> value)) self other"

section \<open>Rate limit headers\<close>

text \<open>
  Looking up a header yields its value as \<open>to_str\<close> gives it: \<open>None\<close> if it is no visible ASCII.
\<close>

type_synonym headers = "string \<Rightarrow> string option option"

datatype retry_after_error = ValueError string | HeaderValueError

text \<open>\<open>http_date\<close> is \<open>httpdate::parse_http_date\<close>.\<close>

definition parse_retry_after ::
  "(string \<Rightarrow> nat option) \<Rightarrow> nat \<Rightarrow> string option \<Rightarrow> retry_after_error + duration" where
  "parse_retry_after http_date now value =
     (case value of
        None \<Rightarrow> Inl HeaderValueError
      | Some value \<Rightarrow>
          (case parse_uint (2 ^ 64 - 1) value of
             Inr secs \<Rightarrow> Inr (from_secs secs)
           | Inl _ \<Rightarrow>
               (case http_date value of
                  Some s \<Rightarrow> Inr (if now \<le> s then s - now else 0)
                | None \<Rightarrow> Inl (ValueError value))))"

fun parse_header_value :: "headers \<Rightarrow> string list \<Rightarrow> nat option" where
  "parse_header_value headers [] = None"
| "parse_header_value headers (name # names) =
     (case headers name of
        Some (Some value_str) \<Rightarrow>
          (case parse_uint (2 ^ 64 - 1) value_str of
             Inr number \<Rightarrow> Some number
           | Inl _ \<Rightarrow> parse_header_value headers names)
      | _ \<Rightarrow> parse_header_value headers names)"

definition parse_common_rate_limit_header_fields :: "headers \<Rightarrow> nat option \<times> nat option" where
  "parse_common_rate_limit_header_fields headers =
     (parse_header_value headers
        [''x-ratelimit-remaining'', ''x-rate-limit-remaining'', ''ratelimit-remaining''],
      parse_header_value headers
        [''x-ratelimit-limit'', ''x-rate-limit-limit'', ''ratelimit-limit''])"

section \<open>Statistics\<close>

record host_stats =
  hs_total_requests :: nat
  hs_successful_requests :: nat
  hs_rate_limited :: nat
  hs_server_errors :: nat
  hs_client_errors :: nat
  hs_last_success :: "nat option"
  hs_last_rate_limit :: "nat option"
  hs_request_times :: "duration list"
  hs_status_codes :: "u16 \<rightharpoonup> nat"
  hs_cache_hits :: nat
  hs_cache_misses :: nat

definition host_stats_default :: host_stats where
  "host_stats_default = \<lparr>hs_total_requests = 0, hs_successful_requests = 0, hs_rate_limited = 0,
     hs_server_errors = 0, hs_client_errors = 0, hs_last_success = None, hs_last_rate_limit = None,
     hs_request_times = [], hs_status_codes = Map.empty, hs_cache_hits = 0, hs_cache_misses = 0\<rparr>"

definition record_response :: "nat \<Rightarrow> u16 \<Rightarrow> duration \<Rightarrow> host_stats \<Rightarrow> host_stats" where
  "record_response now status_code request_time s =
     (let s = s\<lparr>hs_total_requests := hs_total_requests s + 1\<rparr>;
          s = s\<lparr>hs_status_codes := (hs_status_codes s)(status_code \<mapsto>
                 (case hs_status_codes s status_code of Some n \<Rightarrow> n | None \<Rightarrow> 0) + 1)\<rparr>;
          s = (if 200 \<le> status_code \<and> status_code \<le> 299
               then s\<lparr>hs_successful_requests := hs_successful_requests s + 1,
                      hs_last_success := Some now\<rparr>
               else if status_code = 429
               then s\<lparr>hs_rate_limited := hs_rate_limited s + 1, hs_last_rate_limit := Some now\<rparr>
               else if 400 \<le> status_code \<and> status_code \<le> 499
               then s\<lparr>hs_client_errors := hs_client_errors s + 1\<rparr>
               else if 500 \<le> status_code \<and> status_code \<le> 599
               then s\<lparr>hs_server_errors := hs_server_errors s + 1\<rparr>
               else s)
      in s\<lparr>hs_request_times := hs_request_times s @ [request_time]\<rparr>)"

definition record_cache_hit :: "host_stats \<Rightarrow> host_stats" where
  "record_cache_hit s = s\<lparr>hs_cache_hits := hs_cache_hits s + 1,
     hs_total_requests := hs_total_requests s + 1,
     hs_successful_requests := hs_successful_requests s + 1\<rparr>"

definition record_cache_miss :: "host_stats \<Rightarrow> host_stats" where
  "record_cache_miss s = s\<lparr>hs_cache_misses := hs_cache_misses s + 1\<rparr>"

definition median_request_time :: "host_stats \<Rightarrow> duration option" where
  "median_request_time s =
     (if hs_request_times s = [] then None
      else let times = sort (hs_request_times s); mid = length times div 2 in
           if length times mod 2 = 0
           then Some ((times ! (mid - 1) + times ! mid) div 2)
           else Some (times ! mid))"

text \<open>The count is truncated to 32 bits; dividing by a count of zero panics.\<close>

definition average_request_time :: "host_stats \<Rightarrow> duration option eval" where
  "average_request_time s =
     (if hs_request_times s = [] then Value None
      else let total = sum_list (hs_request_times s);
               count = length (hs_request_times s) mod 2 ^ 32 in
           if total > DURATION_MAX \<or> count = 0 then Panic else Value (Some (total div count)))"

definition latest_request_time :: "host_stats \<Rightarrow> duration option" where
  "latest_request_time s =
     (if hs_request_times s = [] then None else Some (last (hs_request_times s)))"

definition is_currently_rate_limited :: "nat \<Rightarrow> host_stats \<Rightarrow> bool" where
  "is_currently_rate_limited now s =
     (case hs_last_rate_limit s of Some t \<Rightarrow> now - t < from_secs 60 | None \<Rightarrow> False)"

section \<open>What the statistics say\<close>

datatype stats_op = Responded nat u16 duration | CacheHit | CacheMiss

fun stats_step :: "stats_op \<Rightarrow> host_stats \<Rightarrow> host_stats" where
  "stats_step (Responded now code time) s = record_response now code time s"
| "stats_step CacheHit s = record_cache_hit s"
| "stats_step CacheMiss s = record_cache_miss s"

text \<open>The responses counted under the status codes.\<close>

definition responses_counted :: "(u16 \<rightharpoonup> nat) \<Rightarrow> nat" where
  "responses_counted m = (\<Sum>c \<in> dom m. the (m c))"

definition host_stats_wf :: "host_stats \<Rightarrow> bool" where
  "host_stats_wf s \<longleftrightarrow>
     hs_total_requests s = hs_cache_hits s + length (hs_request_times s) \<and>
     hs_successful_requests s + hs_rate_limited s + hs_client_errors s + hs_server_errors s \<le> hs_total_requests s \<and>
     hs_cache_hits s \<le> hs_successful_requests s \<and>
     finite (dom (hs_status_codes s)) \<and> responses_counted (hs_status_codes s) = length (hs_request_times s) \<and>
     (hs_last_success s = None \<longrightarrow> hs_successful_requests s = hs_cache_hits s) \<and>
     (hs_last_rate_limit s = None \<longleftrightarrow> hs_rate_limited s = 0)"

lemma responses_counted_update:
  assumes "finite (dom m)"
  shows "responses_counted (m(c \<mapsto> (case m c of Some n \<Rightarrow> n | None \<Rightarrow> 0) + 1)) = responses_counted m + 1"
proof -
  let ?n = "(case m c of Some n \<Rightarrow> n | None \<Rightarrow> 0)"
  have "responses_counted (m(c \<mapsto> ?n + 1)) = (?n + 1) + (\<Sum>x \<in> dom m - {c}. the (m x))"
    using assms unfolding responses_counted_def
    by (simp add: sum.insert_remove dom_fun_upd)
  also have "?n + (\<Sum>x \<in> dom m - {c}. the (m x)) = responses_counted m"
    using assms unfolding responses_counted_def
    by (cases "m c") (simp_all add: sum.remove [of "dom m" c] domI domIff)
  ultimately show ?thesis by linarith
qed

lemma record_response_fields:
  "hs_total_requests (record_response now c d s) = hs_total_requests s + 1"
  "hs_cache_hits (record_response now c d s) = hs_cache_hits s"
  "hs_cache_misses (record_response now c d s) = hs_cache_misses s"
  "hs_request_times (record_response now c d s) = hs_request_times s @ [d]"
  "hs_status_codes (record_response now c d s) = (hs_status_codes s)(c \<mapsto>
     (case hs_status_codes s c of Some n \<Rightarrow> n | None \<Rightarrow> 0) + 1)"
  by (simp_all add: record_response_def Let_def)

lemma record_response_classes:
  "hs_successful_requests (record_response now c d s) =
     hs_successful_requests s + of_bool (200 \<le> c \<and> c \<le> 299)"
  "hs_rate_limited (record_response now c d s) = hs_rate_limited s + of_bool (c = 429)"
  "hs_client_errors (record_response now c d s) =
     hs_client_errors s + of_bool (400 \<le> c \<and> c \<le> 499 \<and> c \<noteq> 429)"
  "hs_server_errors (record_response now c d s) =
     hs_server_errors s + of_bool (500 \<le> c \<and> c \<le> 599)"
  "hs_last_success (record_response now c d s) =
     (if 200 \<le> c \<and> c \<le> 299 then Some now else hs_last_success s)"
  "hs_last_rate_limit (record_response now c d s) =
     (if c = 429 then Some now else hs_last_rate_limit s)"
  by (auto simp: record_response_def Let_def word_le_nat_alt word_unat_eq_iff)

lemma code_classes:
  "of_bool (200 \<le> c \<and> c \<le> 299) + of_bool (c = 429) + of_bool (400 \<le> c \<and> c \<le> 499 \<and> c \<noteq> 429) +
   of_bool (500 \<le> c \<and> c \<le> 599) \<le> (1 :: nat)" for c :: u16
  by (auto simp: of_bool_def word_le_nat_alt word_unat_eq_iff)

lemma record_response_wf: "host_stats_wf s \<Longrightarrow> host_stats_wf (record_response now c d s)"
proof -
  assume wf: "host_stats_wf s"
  let ?s = "record_response now c d s"
  have "hs_successful_requests ?s + hs_rate_limited ?s + hs_client_errors ?s + hs_server_errors ?s
      \<le> hs_total_requests ?s"
    using wf code_classes [of c] unfolding host_stats_wf_def record_response_fields record_response_classes
    by linarith
  moreover have "responses_counted (hs_status_codes ?s) = length (hs_request_times ?s)"
    using wf unfolding host_stats_wf_def record_response_fields by (simp only: responses_counted_update length_append list.size)
  moreover have "finite (dom (hs_status_codes ?s))"
    using wf by (simp add: host_stats_wf_def record_response_fields)
  moreover have "hs_total_requests ?s = hs_cache_hits ?s + length (hs_request_times ?s)"
    "hs_cache_hits ?s \<le> hs_successful_requests ?s"
    "hs_last_rate_limit ?s = None \<longleftrightarrow> hs_rate_limited ?s = 0"
    "hs_last_success ?s = None \<longrightarrow> hs_successful_requests ?s = hs_cache_hits ?s"
    using wf by (auto simp: host_stats_wf_def record_response_fields record_response_classes of_bool_def)
  ultimately show "host_stats_wf ?s" by (simp only: host_stats_wf_def)
qed

lemma stats_step_wf: "host_stats_wf s \<Longrightarrow> host_stats_wf (stats_step op s)"
  by (cases op) (simp_all add: record_response_wf, simp_all add: host_stats_wf_def record_cache_hit_def record_cache_miss_def)

interpretation host_stats: kept_by_steps stats_step host_stats_wf
  by unfold_locales (rule stats_step_wf)

lemma host_stats_default_wf: "host_stats_wf host_stats_default"
  by (simp add: host_stats_wf_def host_stats_default_def responses_counted_def)

lemma sorted_nth_between:
  assumes "sorted xs" "i < length xs"
  shows "hd xs \<le> xs ! i" "xs ! i \<le> last xs"
proof -
  have "xs \<noteq> []" using assms by auto
  then show "hd xs \<le> xs ! i" "xs ! i \<le> last xs"
    using assms sorted_nth_mono [of xs 0 i] sorted_nth_mono [of xs i "length xs - 1"]
    by (simp_all add: hd_conv_nth last_conv_nth)
qed

lemma lower_char_ascii: "65 \<le> (of_char c :: nat) \<Longrightarrow> (of_char c :: nat) \<le> 90 \<Longrightarrow> lower_char c \<noteq> c"
  by (auto simp: lower_char_def Let_def dest!: arg_cong [where f = "of_char :: char \<Rightarrow> nat"])

lemma map_fixed: "map f xs = xs \<Longrightarrow> x \<in> set xs \<Longrightarrow> f x = x"
  by (induction xs) auto

lemma host_configs_merge_notin:
  "key \<notin> fst ` set other \<Longrightarrow> host_configs_merge self other key = self key"
  unfolding host_configs_merge_def by (induction other arbitrary: self) (auto simp: Let_def)

lemma host_configs_merge_in:
  assumes "distinct (map fst other)" "(key, value) \<in> set other"
  shows "host_configs_merge self other key =
    Some (case self key of Some s \<Rightarrow> host_config_merge s value | None \<Rightarrow> value)"
  using assms
proof (induction other arbitrary: self)
  case (Cons e other)
  let ?self = "self(fst e \<mapsto> (case self (fst e) of Some s \<Rightarrow> host_config_merge s (snd e) | None \<Rightarrow> snd e))"
  have step: "host_configs_merge self (e # other) = host_configs_merge ?self other"
    by (simp add: host_configs_merge_def case_prod_beta Let_def)
  show ?case
  proof (cases "e = (key, value)")
    case True
    with Cons.prems have "key \<notin> fst ` set other" by auto
    then have "host_configs_merge self (e # other) key = ?self key"
      unfolding step by (rule host_configs_merge_notin)
    with True show ?thesis by (simp split: option.split)
  next
    case False
    with Cons.prems have "(key, value) \<in> set other" "fst e \<noteq> key" by (auto simp: rev_image_eqI)
    with Cons step show ?thesis by simp
  qed
qed simp

section \<open>Properties\<close>

text \<open>After any sequence of responses, cache hits and misses of a host, its requests are the hits
  plus the responses, every response is counted under its status code and in at most one class, a
  hit counts as successful, and the host is known as rate limited exactly if a 429 was seen.\<close>

theorem host_stats_consistent:
  assumes "s = fold stats_step ops host_stats_default"
  shows "hs_total_requests s = hs_cache_hits s + length (hs_request_times s) \<and>
    responses_counted (hs_status_codes s) = length (hs_request_times s) \<and>
    hs_cache_hits s \<le> hs_successful_requests s \<and>
    hs_successful_requests s + hs_rate_limited s + hs_client_errors s + hs_server_errors s \<le> hs_total_requests s \<and>
    (hs_last_rate_limit s = None \<longleftrightarrow> hs_rate_limited s = 0)"
  using host_stats.run_keeps [OF host_stats_default_wf, of ops] by (simp add: assms host_stats_wf_def)

theorem host_stats_consistent_witness:
  "let s = fold stats_step [Responded 5 429 100, CacheMiss, Responded 9 200 200, CacheHit] host_stats_default
   in hs_total_requests s = hs_cache_hits s + length (hs_request_times s) \<and>
      (hs_last_rate_limit s = None \<longleftrightarrow> hs_rate_limited s = 0)"
  unfolding Let_def using host_stats_consistent [OF refl] by blast

text \<open>The median request time exists exactly if a request was made, and lies between the shortest
  and the longest request time.\<close>

theorem median_between_extremes:
  "(median_request_time s = None \<longleftrightarrow> hs_request_times s = []) \<and>
   (median_request_time s = Some m \<longrightarrow>
     Min (set (hs_request_times s)) \<le> m \<and> m \<le> Max (set (hs_request_times s)))"
proof (intro conjI impI)
  show "median_request_time s = None \<longleftrightarrow> hs_request_times s = []"
    by (simp add: median_request_time_def Let_def)
  assume m: "median_request_time s = Some m"
  let ?ts = "sort (hs_request_times s)" let ?mid = "length ?ts div 2"
  have "hs_request_times s \<noteq> []" using m by (auto simp: median_request_time_def)
  then have "0 < length ?ts" by simp
  then have "?mid - 1 < length ?ts" "?mid < length ?ts" by linarith+
  then have "?ts ! (?mid - 1) \<in> set ?ts" "?ts ! ?mid \<in> set ?ts" by (simp_all only: nth_mem)
  then have between: "Min (set ?ts) \<le> ?ts ! (?mid - 1)" "?ts ! (?mid - 1) \<le> Max (set ?ts)"
    "Min (set ?ts) \<le> ?ts ! ?mid" "?ts ! ?mid \<le> Max (set ?ts)" by simp_all
  from m consider "m = (?ts ! (?mid - 1) + ?ts ! ?mid) div 2" | "m = ?ts ! ?mid"
    unfolding median_request_time_def Let_def by (metis option.distinct(1) option.inject)
  then have "Min (set ?ts) \<le> m \<and> m \<le> Max (set ?ts)"
  proof cases
    case 1
    then show ?thesis using between by linarith
  next
    case 2
    then show ?thesis using between by simp
  qed
  then show "Min (set (hs_request_times s)) \<le> m" "m \<le> Max (set (hs_request_times s))" by simp_all
qed

theorem median_between_extremes_witness:
  "let s = fold stats_step [Responded 5 200 100, Responded 9 200 300] host_stats_default
   in \<exists>m. median_request_time s = Some m \<and> 100 \<le> m \<and> m \<le> 300"
proof -
  let ?s = "fold stats_step [Responded 5 200 100, Responded 9 200 300] host_stats_default"
  have times: "set (hs_request_times ?s) = {100, 300}" "hs_request_times ?s \<noteq> []"
    by (simp_all add: record_response_fields host_stats_default_def)
  then obtain m where "median_request_time ?s = Some m"
    using median_between_extremes [of ?s] by auto
  moreover from this have "100 \<le> m \<and> m \<le> 300"
    using median_between_extremes [of ?s m] times(1) by simp
  ultimately show ?thesis by (auto simp: Let_def)
qed

text \<open>Merging host configurations keeps the hosts of both sides; where both configure a host, the
  options of the first win and the headers of both are sent.\<close>

theorem host_configs_merge_first_wins:
  assumes "distinct (map fst other)"
  shows "dom (host_configs_merge self other) = dom self \<union> fst ` set other \<and>
    (key \<notin> fst ` set other \<longrightarrow> host_configs_merge self other key = self key) \<and>
    ((key, b) \<in> set other \<and> self key = Some a \<longrightarrow>
      (\<exists>c. host_configs_merge self other key = Some c \<and>
        effective_concurrency g c = effective_concurrency (g\<lparr>rl_concurrency := effective_concurrency g b\<rparr>) a \<and>
        effective_request_interval g c =
          effective_request_interval (g\<lparr>rl_request_interval := effective_request_interval g b\<rparr>) a \<and>
        hc_headers c = hc_headers a @ hc_headers b))"
proof (intro conjI impI)
  have "host_configs_merge self other k \<noteq> None \<longleftrightarrow> self k \<noteq> None \<or> k \<in> fst ` set other" for k
  proof (cases "k \<in> fst ` set other")
    case True
    then obtain v where "(k, v) \<in> set other" by auto
    with host_configs_merge_in [OF assms this, of self] show ?thesis by force
  qed (simp add: host_configs_merge_notin)
  then show "dom (host_configs_merge self other) = dom self \<union> fst ` set other" by (auto simp: dom_def)
  show "key \<notin> fst ` set other \<Longrightarrow> host_configs_merge self other key = self key"
    by (rule host_configs_merge_notin)
  assume "(key, b) \<in> set other \<and> self key = Some a"
  then show "\<exists>c. host_configs_merge self other key = Some c \<and>
        effective_concurrency g c = effective_concurrency (g\<lparr>rl_concurrency := effective_concurrency g b\<rparr>) a \<and>
        effective_request_interval g c =
          effective_request_interval (g\<lparr>rl_request_interval := effective_request_interval g b\<rparr>) a \<and>
        hc_headers c = hc_headers a @ hc_headers b"
    using host_configs_merge_in [OF assms, of key b self]
    by (auto simp: host_config_merge_def option_or_def effective_concurrency_def
        effective_request_interval_def split: option.split)
qed

theorem host_configs_merge_first_wins_witness:
  "\<exists>c. host_configs_merge [''a.org'' \<mapsto> host_config_default\<lparr>hc_concurrency := Some 2\<rparr>]
     [(''a.org'', host_config_default\<lparr>hc_concurrency := Some 7\<rparr>)] ''a.org'' = Some c \<and>
     effective_concurrency (rate_limit_from_options None None) c = 2"
  using host_configs_merge_first_wins
    [of "[(''a.org'', host_config_default\<lparr>hc_concurrency := Some 7\<rparr>)]"
      "[''a.org'' \<mapsto> host_config_default\<lparr>hc_concurrency := Some 2\<rparr>]" "''a.org''"
      "host_config_default\<lparr>hc_concurrency := Some 7\<rparr>" "host_config_default\<lparr>hc_concurrency := Some 2\<rparr>"
      "rate_limit_from_options None None"]
  by (auto simp: effective_concurrency_def)

text \<open>The key a host is looked up under is in lower case, so a host that the configuration file
  names with an upper-case letter is never found: its settings are ignored.\<close>

theorem upper_case_host_config_ignored:
  assumes "c \<in> set name" "65 \<le> (of_char c :: nat)" "(of_char c :: nat) \<le> 90"
  shows "(key_of_url show_ip url = Inr key \<longrightarrow>
      [key_deserialize name \<mapsto> (config :: host_config)] key = None) \<and>
    [key_of_str name \<mapsto> config] (to_lowercase name) = Some config"
proof -
  have "to_lowercase name \<noteq> name"
  proof
    assume "to_lowercase name = name"
    then have "lower_char c = c" using map_fixed [OF _ assms(1)] by (simp add: to_lowercase_def)
    with lower_char_ascii [OF assms(2,3)] show False by simp
  qed
  then have "to_lowercase h \<noteq> name" for h by (metis to_lowercase_idem)
  then show ?thesis
    by (auto simp: key_of_url_def key_deserialize_def key_of_str_def split: option.splits)
qed

theorem upper_case_host_config_ignored_witness:
  "key_of_url (\<lambda>_. []) (domain_url ''https'' ''github.com'' ''/'') = Inr (to_lowercase ''github.com'') \<and>
   [key_deserialize ''GitHub.com'' \<mapsto> host_config_default] (to_lowercase ''github.com'') = None"
proof -
  have key: "key_of_url (\<lambda>_. []) (domain_url ''https'' ''github.com'' ''/'') = Inr (to_lowercase ''github.com'')"
    by (simp add: key_of_url_def domain_url_def)
  with upper_case_host_config_ignored [of "CHR ''G''" "''GitHub.com''" "\<lambda>_. []"
      "domain_url ''https'' ''github.com'' ''/''" "to_lowercase ''github.com''" host_config_default]
  show ?thesis by simp
qed

end
