(* ===== verification/Host.thy ===== *)
theory Host
  imports HostStats
begin

text \<open>
  Requests to one host, with its cache, adaptive backoff and statistics
  (\<open>lychee-lib/src/ratelimit/host/host.rs\<close>), and the pool of all hosts
  (\<open>lychee-lib/src/ratelimit/pool.rs\<close>, \<open>ratelimit/mod.rs\<close>).

  The reqwest clients are of a type \<open>'c\<close>, and the outside world a request acts on is of a type
  \<open>'w\<close>.  The two locks and the semaphore of \<open>execute_request\<close> are in the theory \<open>HostSteps\<close>;
  here is what one request does once it holds them.
\<close>

section \<open>The environment of a host\<close>

record http_request =
  hr_method :: string
  hr_url :: url
  hr_headers :: "(string \<times> string) list" \<comment> \<open>in the order of the header map\<close>

record raw_response =
  rw_status :: status_code
  rw_url :: url
  rw_headers :: headers
  rw_text :: "reqwest_error + string"

record cacheable_response =
  cb_status :: status_code
  cb_text :: "string option"
  cb_headers :: headers
  cb_url :: url

text \<open>
  Building a request of a method for a URL and executing it, the clock, HTTP dates, the rounding of \<open>f64\<close> arithmetic, and the crates
  http and url.
\<close>

record ('c, 'w) host_env =
  he_build :: "'c \<Rightarrow> string \<Rightarrow> url \<Rightarrow> reqwest_error + http_request"
  he_execute :: "'c \<Rightarrow> http_request \<Rightarrow> 'w \<Rightarrow> (reqwest_error + raw_response) \<times> 'w"
  he_clock :: "'w \<Rightarrow> nat"
  he_http_date :: "string \<Rightarrow> nat option"
  he_round :: "real \<Rightarrow> real"
  he_http :: http
  he_urls :: url_crate

definition response_from :: "raw_response \<Rightarrow> bool \<Rightarrow> error_kind + cacheable_response" where
  "response_from response needs_body =
     res_bind (if needs_body then map_err ReadResponseBody (map_sum id Some (rw_text response)) else Inr None)
       (\<lambda>text. Inr \<lparr>cb_status = rw_status response, cb_text = text, cb_headers = rw_headers response,
          cb_url = rw_url response\<rparr>)"

section \<open>The host\<close>

definition MAXIMUM_BACKOFF :: duration where
  "MAXIMUM_BACKOFF = from_secs 60"

record 'c host =
  h_key :: host_key
  h_rate_limiter :: "duration option"
  h_max_concurrent :: nat
  h_client :: 'c
  h_stats :: host_stats
  h_backoff :: duration
  h_cache :: "uri \<rightharpoonup> cacheable_response"

text \<open>A rate limiter needs a period that is not zero.\<close>

definition host_new :: "host_key \<Rightarrow> host_config \<Rightarrow> rate_limit_config \<Rightarrow> 'c \<Rightarrow> 'c host" where
  "host_new key host_config global_config client =
     (let interval = effective_request_interval global_config host_config in
      \<lparr>h_key = key, h_rate_limiter = (if interval = 0 then None else Some interval),
       h_max_concurrent = effective_concurrency global_config host_config, h_client = client,
       h_stats = host_stats_default, h_backoff = from_millis 0, h_cache = Map.empty\<rparr>)"

definition get_cached_status :: "uri \<Rightarrow> bool \<Rightarrow> 'c host \<Rightarrow> cacheable_response option" where
  "get_cached_status u needs_body host =
     (case h_cache host u of
        None \<Rightarrow> None
      | Some cached \<Rightarrow>
          if needs_body then (if cb_text cached \<noteq> None then Some cached else None) else Some cached)"

definition cache_result :: "http \<Rightarrow> uri \<Rightarrow> cacheable_response \<Rightarrow> 'c host \<Rightarrow> 'c host" where
  "cache_result h u response host =
     (if \<not> code_should_retry h (cb_status response)
      then host\<lparr>h_cache := (h_cache host)(u \<mapsto> response)\<rparr> else host)"

definition next_backoff :: "status_code \<Rightarrow> duration \<Rightarrow> duration" where
  "next_backoff status backoff =
     (if 200 \<le> status \<and> status \<le> 299 then from_millis 0
      else if status = 429
      then min (if backoff = 0 then from_millis 500 else backoff * 2) (from_secs 30)
      else if 500 \<le> status \<and> status \<le> 599 then min (backoff + from_millis 200) (from_secs 10)
      else backoff)"

definition increase_backoff :: "duration \<Rightarrow> duration \<Rightarrow> duration" where
  "increase_backoff increased_backoff backoff =
     (let increased_backoff =
            (if increased_backoff > MAXIMUM_BACKOFF then MAXIMUM_BACKOFF else increased_backoff)
      in max backoff increased_backoff)"

definition handle_retry_after_header ::
  "(string \<Rightarrow> nat option) \<Rightarrow> nat \<Rightarrow> headers \<Rightarrow> duration \<Rightarrow> duration" where
  "handle_retry_after_header http_date now headers backoff =
     (case headers ''retry-after'' of
        Some value \<Rightarrow>
          (case parse_retry_after http_date now value of
             Inr duration \<Rightarrow> increase_backoff duration backoff
           | Inl _ \<Rightarrow> backoff)
      | None \<Rightarrow> backoff)"

text \<open>\<open>rnd\<close> rounds the exact result of an operation to an \<open>f64\<close>.\<close>

definition usage_ratio :: "(real \<Rightarrow> real) \<Rightarrow> nat \<Rightarrow> nat \<Rightarrow> real" where
  "usage_ratio rnd remaining limit = rnd (rnd (real (limit - remaining)) / rnd (real limit))"

definition handle_common_rate_limit_header_fields ::
  "(real \<Rightarrow> real) \<Rightarrow> headers \<Rightarrow> duration \<Rightarrow> duration" where
  "handle_common_rate_limit_header_fields rnd headers backoff =
     (case parse_common_rate_limit_header_fields headers of
        (Some remaining, Some limit) \<Rightarrow>
          if limit > 0 then
            let u = usage_ratio rnd remaining limit in
            if u > rnd 0.8
            then increase_backoff
                   (from_millis (nat \<lfloor>rnd (rnd (200 * rnd (u - rnd 0.8)) / rnd 0.2)\<rfloor>)) backoff
            else backoff
          else backoff
      | _ \<Rightarrow> backoff)"

text \<open>What a response changes before its body is read.\<close>

definition host_respond ::
  "('c, 'w) host_env \<Rightarrow> nat \<Rightarrow> nat \<Rightarrow> raw_response \<Rightarrow> 'c host \<Rightarrow> 'c host" where
  "host_respond env now request_time response host =
     (let host = host\<lparr>h_stats := record_response now (rw_status response) request_time (h_stats host)\<rparr>;
          host = host\<lparr>h_backoff := next_backoff (rw_status response) (h_backoff host)\<rparr>;
          host = host\<lparr>h_backoff :=
            handle_retry_after_header (he_http_date env) now (rw_headers response) (h_backoff host)\<rparr>
      in host\<lparr>h_backoff :=
            handle_common_rate_limit_header_fields (he_round env) (rw_headers response) (h_backoff host)\<rparr>)"

text \<open>What follows: the body is read if it is needed, and the result kept.\<close>

definition host_finish ::
  "('c, 'w) host_env \<Rightarrow> uri \<Rightarrow> bool \<Rightarrow> raw_response \<Rightarrow> 'c host \<Rightarrow>
   (error_kind + cacheable_response) \<times> 'c host" where
  "host_finish env u needs_body response host =
     (case response_from response needs_body of
        Inl e \<Rightarrow> (Inl e, host)
      | Inr r \<Rightarrow> (Inr r, cache_result (he_http env) u r host))"

definition perform_request ::
  "('c, 'w) host_env \<Rightarrow> http_request \<Rightarrow> uri \<Rightarrow> bool \<Rightarrow> 'c host \<Rightarrow> 'w \<Rightarrow>
   (error_kind + cacheable_response) \<times> 'c host \<times> 'w" where
  "perform_request env request u needs_body host w =
     (case he_execute env (h_client host) request w of
        (Inl e, w') \<Rightarrow> (Inl (NetworkRequest e), host, w')
      | (Inr response, w') \<Rightarrow>
          (let now = he_clock env w';
               (result, host) = host_finish env u needs_body response
                 (host_respond env now (now - he_clock env w) response host)
           in (result, host, w')))"

text \<open>
  \<open>execute_request\<close> of a request that holds its locks; the list is what it slept for the
  backoff.
\<close>

definition host_execute_request ::
  "('c, 'w) host_env \<Rightarrow> http_request \<Rightarrow> bool \<Rightarrow> 'c host \<Rightarrow> 'w \<Rightarrow>
   (error_kind + cacheable_response) \<times> 'c host \<times> 'w \<times> duration list" where
  "host_execute_request env request needs_body host w =
     (let u = uc_set_fragment (he_urls env) None (hr_url request) in
      case get_cached_status u needs_body host of
        Some cached \<Rightarrow> (Inr cached, host\<lparr>h_stats := record_cache_hit (h_stats host)\<rparr>, w, [])
      | None \<Rightarrow>
          (let host = host\<lparr>h_stats := record_cache_miss (h_stats host)\<rparr>;
               slept = (if h_backoff host = 0 then [] else [h_backoff host]);
               (result, host, w') = perform_request env request u needs_body host w
           in (result, host, w', slept)))"

section \<open>The pool\<close>

record 'c host_pool =
  hp_hosts :: "host_key \<rightharpoonup> 'c host"
  hp_global_config :: rate_limit_config
  hp_host_configs :: host_configs
  hp_default_client :: 'c
  hp_client_map :: "host_key \<rightharpoonup> 'c"

definition host_pool_new :: "rate_limit_config \<Rightarrow> host_configs \<Rightarrow> 'c \<Rightarrow> (host_key \<rightharpoonup> 'c) \<Rightarrow> 'c host_pool" where
  "host_pool_new global_config host_configs default_client client_map =
     \<lparr>hp_hosts = Map.empty, hp_global_config = global_config, hp_host_configs = host_configs,
      hp_default_client = default_client, hp_client_map = client_map\<rparr>"

definition get_or_create_host :: "host_key \<Rightarrow> 'c host_pool \<Rightarrow> 'c host \<times> 'c host_pool" where
  "get_or_create_host key pool =
     (case hp_hosts pool key of
        Some host \<Rightarrow> (host, pool)
      | None \<Rightarrow>
          (let host_config = (case hp_host_configs pool key of Some c \<Rightarrow> c | None \<Rightarrow> host_config_default);
               client = (case hp_client_map pool key of Some c \<Rightarrow> c | None \<Rightarrow> hp_default_client pool);
               host = host_new key host_config (hp_global_config pool) client
           in (host, pool\<lparr>hp_hosts := (hp_hosts pool)(key \<mapsto> host)\<rparr>)))"

definition pool_execute_request ::
  "('c, 'w) host_env \<Rightarrow> (url_host \<Rightarrow> string) \<Rightarrow> http_request \<Rightarrow> bool \<Rightarrow> 'c host_pool \<Rightarrow> 'w \<Rightarrow>
   (error_kind + cacheable_response) \<times> 'c host_pool \<times> 'w \<times> duration list" where
  "pool_execute_request env show_ip request needs_body pool w =
     (case key_of_url show_ip (hr_url request) of
        Inl e \<Rightarrow> (Inl e, pool, w, [])
      | Inr key \<Rightarrow>
          (let (host, pool) = get_or_create_host key pool;
               (result, host, w', slept) = host_execute_request env request needs_body host w
           in (result, pool\<lparr>hp_hosts := (hp_hosts pool)(key \<mapsto> host)\<rparr>, w', slept)))"

definition build_request ::
  "('c, 'w) host_env \<Rightarrow> (url_host \<Rightarrow> string) \<Rightarrow> string \<Rightarrow> uri \<Rightarrow> 'c host_pool \<Rightarrow>
   (error_kind + http_request) \<times> 'c host_pool" where
  "build_request env show_ip method u pool =
     (case key_of_url show_ip u of
        Inl e \<Rightarrow> (Inl e, pool)
      | Inr key \<Rightarrow>
          (let (host, pool) = get_or_create_host key pool
           in (map_err BuildRequestClient (he_build env (h_client host) method u), pool)))"

definition host_stats_of :: "string \<Rightarrow> 'c host_pool \<Rightarrow> host_stats" where
  "host_stats_of hostname pool =
     (case hp_hosts pool (key_of_str hostname) of
        Some host \<Rightarrow> h_stats host
      | None \<Rightarrow> host_stats_default)"

definition remove_host :: "string \<Rightarrow> 'c host_pool \<Rightarrow> bool \<times> 'c host_pool" where
  "remove_host hostname pool =
     (let key = key_of_str hostname in
      (hp_hosts pool key \<noteq> None, pool\<lparr>hp_hosts := (hp_hosts pool)(key := None)\<rparr>))"

definition record_persistent_cache_hit ::
  "(url_host \<Rightarrow> string) \<Rightarrow> uri \<Rightarrow> 'c host_pool \<Rightarrow> 'c host_pool" where
  "record_persistent_cache_hit show_ip u pool =
     (if \<not> is_file u \<and> \<not> is_mail u then
        (case key_of_url show_ip u of
           Inr key \<Rightarrow>
             (let (host, pool) = get_or_create_host key pool in
              pool\<lparr>hp_hosts := (hp_hosts pool)(key \<mapsto> host\<lparr>h_stats := record_cache_hit (h_stats host)\<rparr>)\<rparr>)
         | Inl _ \<Rightarrow> pool)
      else pool)"

section \<open>What a host keeps\<close>

definition host_wf :: "http \<Rightarrow> 'c host \<Rightarrow> bool" where
  "host_wf h host \<longleftrightarrow>
     h_backoff host \<le> MAXIMUM_BACKOFF \<and> host_stats_wf (h_stats host) \<and>
     (\<forall>u r. h_cache host u = Some r \<longrightarrow> \<not> code_should_retry h (cb_status r))"

lemma next_backoff_le: "d \<le> MAXIMUM_BACKOFF \<Longrightarrow> next_backoff c d \<le> MAXIMUM_BACKOFF"
  by (auto simp: next_backoff_def MAXIMUM_BACKOFF_def from_secs_def from_millis_def)

lemma increase_backoff_le: "d \<le> MAXIMUM_BACKOFF \<Longrightarrow> increase_backoff i d \<le> MAXIMUM_BACKOFF"
  by (simp add: increase_backoff_def Let_def)

lemma increase_backoff_ge: "d \<le> increase_backoff i d"
  by (simp add: increase_backoff_def Let_def)

lemma header_backoff_le:
  assumes "d \<le> MAXIMUM_BACKOFF"
  shows "handle_retry_after_header dates now hs d \<le> MAXIMUM_BACKOFF"
    and "handle_common_rate_limit_header_fields rnd hs d \<le> MAXIMUM_BACKOFF"
  using assms increase_backoff_le
  by (auto simp: handle_retry_after_header_def handle_common_rate_limit_header_fields_def Let_def
      split: option.split sum.split prod.split)

lemma host_new_wf: "host_wf h (host_new key c g client)"
  by (simp add: host_wf_def host_new_def Let_def host_stats_default_wf from_millis_def)

lemma host_respond_wf:
  assumes "host_wf h host"
  shows "host_wf h (host_respond env now d r host)"
  using assms
  by (auto simp: host_wf_def host_respond_def Let_def record_response_wf header_backoff_le next_backoff_le)

lemma host_finish_wf:
  assumes "host_wf (he_http env) host" "host_finish env u b r host = (res, host')"
  shows "host_wf (he_http env) host'"
  using assms by (auto simp: host_finish_def host_wf_def cache_result_def split: sum.splits if_splits)

lemma host_hit_wf: "host_wf h host \<Longrightarrow> host_wf h (host\<lparr>h_stats := record_cache_hit (h_stats host)\<rparr>)"
  using stats_step_wf [of "h_stats host" CacheHit] by (simp add: host_wf_def)

lemma host_miss_wf: "host_wf h host \<Longrightarrow> host_wf h (host\<lparr>h_stats := record_cache_miss (h_stats host)\<rparr>)"
  using stats_step_wf [of "h_stats host" CacheMiss] by (simp add: host_wf_def)

lemma host_execute_wf:
  assumes "host_wf (he_http env) host"
    and "host_execute_request env request b host w = (res, host', w', slept)"
  shows "host_wf (he_http env) host'" and "\<forall>d \<in> set slept. 0 < d \<and> d \<le> MAXIMUM_BACKOFF"
proof -
  let ?u = "uc_set_fragment (he_urls env) None (hr_url request)"
  let ?miss = "host\<lparr>h_stats := record_cache_miss (h_stats host)\<rparr>"
  show "host_wf (he_http env) host'"
  proof (cases "get_cached_status ?u b host")
    case (Some r)
    with assms host_hit_wf show ?thesis by (auto simp: host_execute_request_def Let_def)
  next
    case None
    with assms(2) have run: "perform_request env request ?u b ?miss w = (res, host', w')"
      by (auto simp: host_execute_request_def Let_def split: prod.splits)
    from assms(1) have miss: "host_wf (he_http env) ?miss" by (rule host_miss_wf)
    obtain result w1 where ex: "he_execute env (h_client ?miss) request w = (result, w1)" by force
    show ?thesis
    proof (cases result)
      case (Inl e)
      with ex run miss show ?thesis by (simp add: perform_request_def)
    next
      case (Inr r)
      let ?now = "he_clock env w1"
      from ex run Inr have "host_finish env ?u b r (host_respond env ?now (?now - he_clock env w) r ?miss) = (res, host')"
        by (simp add: perform_request_def Let_def split: prod.splits)
      with host_finish_wf host_respond_wf [OF miss] show ?thesis by blast
    qed
  qed
  show "\<forall>d \<in> set slept. 0 < d \<and> d \<le> MAXIMUM_BACKOFF"
    using assms by (auto simp: host_execute_request_def Let_def host_wf_def split: option.splits prod.splits if_splits)
qed

text \<open>The pool: every host is filed under its own key.\<close>

definition pool_wf :: "http \<Rightarrow> 'c host_pool \<Rightarrow> bool" where
  "pool_wf h pool \<longleftrightarrow> (\<forall>key host. hp_hosts pool key = Some host \<longrightarrow> h_key host = key \<and> host_wf h host)"

lemma host_new_key: "h_key (host_new key c g client) = key"
  by (simp add: host_new_def Let_def)

lemma get_or_create_wf:
  assumes "pool_wf h pool" "get_or_create_host key pool = (host, pool')"
  shows "pool_wf h pool'" "host_wf h host" "h_key host = key" "hp_hosts pool' key = Some host"
  using assms
  by (auto simp: get_or_create_host_def pool_wf_def Let_def host_new_key host_new_wf split: option.splits if_splits)

lemma perform_key: "perform_request env request u b host w = (res, host', w') \<Longrightarrow> h_key host' = h_key host"
  by (auto simp: perform_request_def host_finish_def host_respond_def cache_result_def Let_def
      split: prod.splits sum.splits if_splits)

lemma host_execute_key:
  "host_execute_request env request b host w = (res, host', w', slept) \<Longrightarrow> h_key host' = h_key host"
  using perform_key by (fastforce simp: host_execute_request_def Let_def split: option.splits prod.splits)

datatype pool_op =
    Execute http_request bool | BuildRequest string uri | PersistentHit uri | RemoveHost string

fun pool_step ::
  "('c, 'w) host_env \<Rightarrow> (url_host \<Rightarrow> string) \<Rightarrow> pool_op \<Rightarrow> 'c host_pool \<times> 'w \<Rightarrow> 'c host_pool \<times> 'w" where
  "pool_step env show_ip (Execute request needs_body) (pool, w) =
     (case pool_execute_request env show_ip request needs_body pool w of (_, pool', w', _) \<Rightarrow> (pool', w'))"
| "pool_step env show_ip (BuildRequest method u) (pool, w) = (snd (build_request env show_ip method u pool), w)"
| "pool_step env show_ip (PersistentHit u) (pool, w) = (record_persistent_cache_hit show_ip u pool, w)"
| "pool_step env show_ip (RemoveHost name) (pool, w) = (snd (remove_host name pool), w)"

lemma pool_execute_wf:
  assumes "pool_wf (he_http env) pool"
    and "pool_execute_request env show_ip request b pool w = (res, pool', w', slept)"
  shows "pool_wf (he_http env) pool'" and "\<forall>d \<in> set slept. d \<le> MAXIMUM_BACKOFF"
proof -
  have "pool_wf (he_http env) pool' \<and> (\<forall>d \<in> set slept. d \<le> MAXIMUM_BACKOFF)"
  proof (cases "key_of_url show_ip (hr_url request)")
    case (Inl e)
    with assms show ?thesis by (simp add: pool_execute_request_def)
  next
    case (Inr key)
    obtain host pool1 where create: "get_or_create_host key pool = (host, pool1)" by force
    obtain res' host' w1 sl where exe: "host_execute_request env request b host w = (res', host', w1, sl)"
      by (metis prod_cases4)
    note wf = get_or_create_wf [OF assms(1) create]
    from Inr create exe assms(2) have "pool' = pool1\<lparr>hp_hosts := (hp_hosts pool1)(key \<mapsto> host')\<rparr>" "slept = sl"
      by (simp_all add: pool_execute_request_def)
    with wf host_execute_wf [OF wf(2) exe] host_execute_key [OF exe] show ?thesis
      by (auto simp: pool_wf_def)
  qed
  then show "pool_wf (he_http env) pool'" "\<forall>d \<in> set slept. d \<le> MAXIMUM_BACKOFF" by auto
qed

lemma pool_hit_wf: "pool_wf h pool \<Longrightarrow> pool_wf h (record_persistent_cache_hit show_ip u pool)"
proof -
  assume wf: "pool_wf h pool"
  have "pool_wf h (pool'\<lparr>hp_hosts := (hp_hosts pool')(key \<mapsto> host\<lparr>h_stats := record_cache_hit (h_stats host)\<rparr>)\<rparr>)"
    if "get_or_create_host key pool = (host, pool')" for key host pool'
    using get_or_create_wf [OF wf that] host_hit_wf by (auto simp: pool_wf_def)
  with wf show ?thesis
    by (auto simp: record_persistent_cache_hit_def Let_def split: sum.split prod.split)
qed

lemma build_request_wf: "pool_wf h pool \<Longrightarrow> pool_wf h (snd (build_request env show_ip method u pool))"
  using get_or_create_wf(1) [of h pool]
  by (auto simp: build_request_def split: sum.split prod.split)

lemma pool_step_wf:
  "pool_wf (he_http env) (fst s) \<Longrightarrow> pool_wf (he_http env) (fst (pool_step env show_ip op s))"
  by (cases "(env, show_ip, op, s)" rule: pool_step.cases)
    (auto simp: pool_hit_wf build_request_wf remove_host_def Let_def split: prod.split dest: pool_execute_wf(1),
     auto simp: pool_wf_def)

interpretation pool: kept_by_steps "pool_step env show_ip" "\<lambda>s. pool_wf (he_http env) (fst s)"
  for env show_ip
  by unfold_locales (rule pool_step_wf)

section \<open>Properties\<close>

text \<open>C40: Whatever a pool of hosts does and whatever the servers answer, no host ever waits longer
  than 60 seconds for its backoff, its statistics stay consistent, and its cache never keeps a
  response that is worth retrying.\<close>

theorem pool_backoff_and_cache:
  assumes "(pool, w) = fold (pool_step env show_ip) ops (host_pool_new g configs client clients, w0)"
    and "hp_hosts pool key = Some host"
  shows "h_backoff host \<le> from_secs 60 \<and> h_key host = key \<and> host_stats_wf (h_stats host) \<and>
    (\<forall>u r. h_cache host u = Some r \<longrightarrow> \<not> code_should_retry (he_http env) (cb_status r)) \<and>
    (\<forall>request b. case pool_execute_request env show_ip request b pool w of (_, _, _, slept) \<Rightarrow>
       \<forall>d \<in> set slept. d \<le> from_secs 60)"
proof -
  have "pool_wf (he_http env) (fst (host_pool_new g configs client clients, w0))"
    by (simp add: pool_wf_def host_pool_new_def)
  from pool.run_keeps [OF this, of show_ip ops] assms(1) have wf: "pool_wf (he_http env) pool"
    by (metis fst_conv)
  with assms(2) have "h_key host = key" "host_wf (he_http env) host" by (auto simp: pool_wf_def)
  moreover have "case pool_execute_request env show_ip request b pool w of (_, _, _, slept) \<Rightarrow>
      \<forall>d \<in> set slept. d \<le> from_secs 60" for request b
    using pool_execute_wf(2) [OF wf] by (fastforce simp: MAXIMUM_BACKOFF_def split: prod.split)
  ultimately show ?thesis by (auto simp: host_wf_def MAXIMUM_BACKOFF_def)
qed

text \<open>An environment whose server answers every request with the same response, after a second.\<close>

definition constant_server :: "status_code \<Rightarrow> headers \<Rightarrow> (unit, nat) host_env" where
  "constant_server code hs = \<lparr>he_build = (\<lambda>c m u. Inr \<lparr>hr_method = m, hr_url = u, hr_headers = []\<rparr>),
     he_execute = (\<lambda>c r w. (Inr \<lparr>rw_status = code, rw_url = hr_url r,
       rw_headers = hs, rw_text = Inr ''body''\<rparr>, w + from_secs 1)),
     he_clock = id, he_http_date = Map.empty, he_round = id, he_http = http_std,
     he_urls = \<lparr>uc_parse = (\<lambda>s. Inl (OtherParseError s)), uc_join = (\<lambda>u s. Inr u),
       uc_set_scheme = (\<lambda>s u. None), uc_set_fragment = (\<lambda>f u. u\<lparr>url_fragment := f\<rparr>)\<rparr>\<rparr>"

definition get_request :: "string \<Rightarrow> http_request" where
  "get_request path = \<lparr>hr_method = ''GET'', hr_url = domain_url ''https'' ''a.org'' path,
     hr_headers = []\<rparr>"

definition new_pool :: "unit host_pool" where
  "new_pool = host_pool_new (rate_limit_from_options None None) Map.empty () Map.empty"

lemma lower_a_org: "to_lowercase ''a.org'' = ''a.org''"
  by (simp add: to_lowercase_def lower_char_def)

theorem pool_backoff_and_cache_witness:
  "\<exists>pool w host. (pool, w) = fold (pool_step (constant_server 503 Map.empty) (\<lambda>_. []))
       [Execute (get_request ''/'') True] (new_pool, 0) \<and>
     hp_hosts pool ''a.org'' = Some host \<and> h_backoff host \<le> from_secs 60"
proof -
  obtain pool w where run: "(pool, w) = fold (pool_step (constant_server 503 Map.empty) (\<lambda>_. []))
       [Execute (get_request ''/'') True] (new_pool, 0)" by (metis prod.collapse)
  then have "\<exists>host. hp_hosts pool ''a.org'' = Some host"
    by (auto simp: pool_execute_request_def key_of_url_def get_request_def domain_url_def lower_a_org
        get_or_create_host_def new_pool_def host_pool_new_def split: prod.splits)
  then obtain host where host: "hp_hosts pool ''a.org'' = Some host" by blast
  from pool_backoff_and_cache [OF run [unfolded new_pool_def] host] run host show ?thesis by blast
qed

text \<open>A request whose response is in the host's cache, with the body if it is needed, is answered
  from there without reaching the server, also under another fragment; a response that is worth
  retrying is never answered from the cache.\<close>

theorem cached_request_not_repeated:
  assumes "host_execute_request env request b host w = (Inr r, host1, w1, slept1)"
    and "\<not> code_should_retry (he_http env) (cb_status r)"
    and "uc_set_fragment (he_urls env) None (hr_url request') =
         uc_set_fragment (he_urls env) None (hr_url request)"
    and "b' \<longrightarrow> b"
  shows "host_execute_request env request' b' host1 w2 =
    (Inr r, host1\<lparr>h_stats := record_cache_hit (h_stats host1)\<rparr>, w2, [])"
proof -
  let ?u = "uc_set_fragment (he_urls env) None (hr_url request)"
  have "get_cached_status ?u b' host1 = Some r"
  proof (cases "get_cached_status ?u b host")
    case (Some r0)
    with assms(1) have "r = r0" "h_cache host1 = h_cache host" by (auto simp: host_execute_request_def Let_def)
    with Some assms(4) show ?thesis by (auto simp: get_cached_status_def split: option.splits if_splits)
  next
    case None
    with assms(1) obtain raw where
      "response_from raw b = Inr r" and cache: "h_cache host1 ?u = Some r"
      using assms(2)
      by (auto simp: host_execute_request_def perform_request_def host_finish_def cache_result_def Let_def
          split: prod.splits sum.splits)
    then have "b \<longrightarrow> cb_text r \<noteq> None"
      by (auto simp: response_from_def res_bind_Inr_conv map_sum_def split: sum.splits)
    with cache assms(4) show ?thesis by (auto simp: get_cached_status_def)
  qed
  then show ?thesis by (simp add: host_execute_request_def assms(3))
qed

theorem cached_request_not_repeated_witness:
  "\<exists>host w r. host_execute_request (constant_server 200 Map.empty) (get_request ''/'') True
       (host_new ''a.org'' host_config_default (rate_limit_from_options None None) ()) 0 = (Inr r, host, w, []) \<and>
     host_execute_request (constant_server 200 Map.empty) (get_request ''/'') False host 7 =
       (Inr r, host\<lparr>h_stats := record_cache_hit (h_stats host)\<rparr>, 7, [])"
proof -
  let ?env = "constant_server 200 Map.empty"
  let ?host = "host_new ''a.org'' host_config_default (rate_limit_from_options None None) ()"
  obtain host w r slept where run: "host_execute_request ?env (get_request ''/'') True ?host 0 = (r, host, w, slept)"
    by (metis prod_cases4)
  then obtain r' where r: "r = Inr r'" "cb_status r' = 200" "slept = []"
    by (auto simp: host_execute_request_def Let_def host_new_def get_cached_status_def constant_server_def
        perform_request_def host_finish_def response_from_def from_millis_def split: prod.splits)
  have "\<not> code_should_retry (he_http ?env) (cb_status r')"
    by (simp add: r code_should_retry_def constant_server_def http_std_def)
  from cached_request_not_repeated [OF run [unfolded r(1)] this refl, of False 7] run r
  show ?thesis by blast
qed

text \<open>Rate limiting and server errors do not always raise the backoff: after a longer wait that a
  server asked for, a plain 429 lowers it to 30 seconds and a plain server error to 10 seconds.\<close>

theorem rate_limit_can_lower_backoff:
  "(from_secs 30 < d \<longrightarrow> next_backoff 429 d = from_secs 30) \<and>
   (500 \<le> c \<and> c \<le> 599 \<and> from_secs 10 \<le> d \<longrightarrow> next_backoff c d = from_secs 10) \<and>
   (d \<le> from_secs 30 \<longrightarrow> d \<le> next_backoff 429 d) \<and>
   (500 \<le> c \<and> c \<le> 599 \<and> d \<le> from_secs 10 \<longrightarrow> d \<le> next_backoff c d)"
proof -
  have c: "\<not> (200 \<le> c \<and> c \<le> 299)" "c \<noteq> 429" if "500 \<le> c" for c :: u16
    using that by (auto simp: word_le_nat_alt word_unat_eq_iff)
  show ?thesis
    using c [of c] by (auto simp: next_backoff_def from_secs_def from_millis_def)
qed

theorem rate_limit_can_lower_backoff_witness:
  "next_backoff 429 (increase_backoff (from_secs 60) 0) = from_secs 30"
proof -
  have "increase_backoff (from_secs 60) 0 = from_secs 60"
    by (simp add: increase_backoff_def MAXIMUM_BACKOFF_def)
  then show ?thesis
    using rate_limit_can_lower_backoff [of "from_secs 60" 500] by (simp add: from_secs_def)
qed

end
