(* ===== verification/HostSteps.thy ===== *)
theory HostSteps
  imports Steps Host
begin

text \<open>
  The requests to one host at the same time: the locks of
  \<open>lychee-lib/src/ratelimit/host/host.rs\<close>.  A task that calls \<open>execute_request\<close> first locks
  the mutex of its URI, then looks into the cache, then takes a permit of the semaphore, and
  gives both back when it returns; every step below is what happens between two points at which
  the code awaits.
\<close>

section \<open>Tasks and steps\<close>

datatype phase =
    Waiting
  | Locked
  | Missed
  | Permitted
  | Responding raw_response
  | Finished "error_kind + cacheable_response"

record 'c run =
  rn_host :: "'c host"
  rn_tasks :: "nat \<rightharpoonup> uri \<times> bool \<times> phase"
  rn_locks :: "uri \<rightharpoonup> nat" \<comment> \<open>who holds the mutex of a URI\<close>
  rn_permits :: nat \<comment> \<open>free permits of the semaphore\<close>
  rn_answered :: "(nat \<times> uri \<times> bool \<times> (error_kind + cacheable_response)) list" \<comment> \<open>what the server answered, and to whom\<close>

definition set_phase :: "nat \<Rightarrow> uri \<Rightarrow> bool \<Rightarrow> phase \<Rightarrow> 'c run \<Rightarrow> 'c run" where
  "set_phase t u b ph s = s\<lparr>rn_tasks := (rn_tasks s)(t \<mapsto> (u, b, ph))\<rparr>"

definition release_lock :: "uri \<Rightarrow> 'c run \<Rightarrow> 'c run" where
  "release_lock u s = s\<lparr>rn_locks := (rn_locks s)(u := None)\<rparr>"

inductive host_step :: "('c, 'w) host_env \<Rightarrow> 'c run \<Rightarrow> 'c run \<Rightarrow> bool" for env where
  lock: "rn_tasks s t = Some (u, b, Waiting) \<Longrightarrow> rn_locks s u = None \<Longrightarrow>
    host_step env s (set_phase t u b Locked s\<lparr>rn_locks := (rn_locks s)(u \<mapsto> t)\<rparr>)"
| hit: "rn_tasks s t = Some (u, b, Locked) \<Longrightarrow> get_cached_status u b (rn_host s) = Some r \<Longrightarrow>
    host_step env s (release_lock u (set_phase t u b (Finished (Inr r)) s)
      \<lparr>rn_host := (rn_host s)\<lparr>h_stats := record_cache_hit (h_stats (rn_host s))\<rparr>\<rparr>)"
| miss: "rn_tasks s t = Some (u, b, Locked) \<Longrightarrow> get_cached_status u b (rn_host s) = None \<Longrightarrow>
    host_step env s (set_phase t u b Missed s
      \<lparr>rn_host := (rn_host s)\<lparr>h_stats := record_cache_miss (h_stats (rn_host s))\<rparr>\<rparr>)"
| acquire: "rn_tasks s t = Some (u, b, Missed) \<Longrightarrow> 0 < rn_permits s \<Longrightarrow>
    host_step env s (set_phase t u b Permitted s\<lparr>rn_permits := rn_permits s - 1\<rparr>)"
| refuse: "rn_tasks s t = Some (u, b, Permitted) \<Longrightarrow>
    host_step env s (release_lock u (set_phase t u b (Finished (Inl (NetworkRequest e))) s)
      \<lparr>rn_permits := rn_permits s + 1\<rparr>)"
| respond: "rn_tasks s t = Some (u, b, Permitted) \<Longrightarrow>
    host_step env s (set_phase t u b (Responding raw) s
      \<lparr>rn_host := host_respond env now time raw (rn_host s)\<rparr>)"
| finish: "rn_tasks s t = Some (u, b, Responding raw) \<Longrightarrow>
    host_finish env u b raw (rn_host s) = (res, host') \<Longrightarrow>
    host_step env s (release_lock u (set_phase t u b (Finished res) s)
      \<lparr>rn_host := host', rn_permits := rn_permits s + 1, rn_answered := rn_answered s @ [(t, u, b, res)]\<rparr>)"

inductive_cases host_stepE [consumes 1, case_names lock hit miss acquire refuse respond finish]:
  "host_step env s s'"

definition run_start :: "'c host \<Rightarrow> (nat \<rightharpoonup> uri \<times> bool) \<Rightarrow> 'c run" where
  "run_start host requests =
     \<lparr>rn_host = host, rn_tasks = (\<lambda>t. map_option (\<lambda>(u, b). (u, b, Waiting)) (requests t)),
      rn_locks = Map.empty, rn_permits = h_max_concurrent host, rn_answered = []\<rparr>"

section \<open>The invariant\<close>

fun in_flight :: "phase \<Rightarrow> bool" where
  "in_flight Permitted = True"
| "in_flight (Responding _) = True"
| "in_flight _ = False"

fun holds_lock :: "phase \<Rightarrow> bool" where
  "holds_lock Waiting = False"
| "holds_lock (Finished _) = False"
| "holds_lock _ = True"

definition flying :: "'c run \<Rightarrow> nat set" where
  "flying s = {t. \<exists>u b ph. rn_tasks s t = Some (u, b, ph) \<and> in_flight ph}"

fun keeps :: "http \<Rightarrow> error_kind + cacheable_response \<Rightarrow> bool" where
  "keeps h (Inl _) = False"
| "keeps h (Inr r) = (\<not> code_should_retry h (cb_status r))"

text \<open>The answers for a URI that the cache kept, by whether they have a body.\<close>

definition kept_answers :: "http \<Rightarrow> uri \<Rightarrow> 'c run \<Rightarrow> bool list" where
  "kept_answers h u s =
     map (fst \<circ> snd \<circ> snd) (filter (\<lambda>a. fst (snd a) = u \<and> keeps h (snd (snd (snd a)))) (rn_answered s))"

definition answers_cached :: "http \<Rightarrow> uri \<Rightarrow> 'c run \<Rightarrow> bool" where
  "answers_cached h u s \<longleftrightarrow>
     (case h_cache (rn_host s) u of
        None \<Rightarrow> kept_answers h u s = []
      | Some r \<Rightarrow> if cb_text r = None then kept_answers h u s = [False]
                  else kept_answers h u s \<in> {[True], [False, True]})"

definition locks_ok :: "'c run \<Rightarrow> bool" where
  "locks_ok s \<longleftrightarrow> (\<forall>u t. rn_locks s u = Some t \<longleftrightarrow>
     (\<exists>b ph. rn_tasks s t = Some (u, b, ph) \<and> holds_lock ph))"

definition permits_ok :: "nat \<Rightarrow> 'c run \<Rightarrow> bool" where
  "permits_ok n s \<longleftrightarrow> finite (dom (rn_tasks s)) \<and> rn_permits s + card (flying s) = n"

fun past_miss :: "phase \<Rightarrow> bool" where
  "past_miss Missed = True"
| "past_miss ph = in_flight ph"

definition misses_ok :: "'c run \<Rightarrow> bool" where
  "misses_ok s \<longleftrightarrow> (\<forall>t u b ph. rn_tasks s t = Some (u, b, ph) \<longrightarrow> past_miss ph \<longrightarrow>
     get_cached_status u b (rn_host s) = None)"

text \<open>
  Where the result of a task is from: the server's answer to it, an answer worth keeping to another task for
  the same URI, with a body if it needs one, or a request that failed.
\<close>

definition from_server :: "'c run \<Rightarrow> nat \<Rightarrow> uri \<Rightarrow> bool \<Rightarrow> error_kind + cacheable_response \<Rightarrow> bool" where
  "from_server s t u b res \<longleftrightarrow> (t, u, b, res) \<in> set (rn_answered s)"

definition from_cache :: "http \<Rightarrow> 'c run \<Rightarrow> uri \<Rightarrow> bool \<Rightarrow> cacheable_response \<Rightarrow> bool" where
  "from_cache h s u b r \<longleftrightarrow> keeps h (Inr r) \<and> (\<exists>t' b'. from_server s t' u b' (Inr r) \<and> (b \<longrightarrow> b'))"

definition asked_server :: "'c run \<Rightarrow> nat \<Rightarrow> bool" where
  "asked_server s t \<longleftrightarrow> t \<in> fst ` set (rn_answered s)"

fun result_ok :: "http \<Rightarrow> 'c run \<Rightarrow> nat \<Rightarrow> uri \<Rightarrow> bool \<Rightarrow> phase \<Rightarrow> bool" where
  "result_ok h s t u b (Finished (Inr r)) \<longleftrightarrow>
     from_server s t u b (Inr r) \<or> \<not> asked_server s t \<and> from_cache h s u b r"
| "result_ok h s t u b (Finished (Inl e)) \<longleftrightarrow>
     from_server s t u b (Inl e) \<or> \<not> asked_server s t \<and> (\<exists>e'. e = NetworkRequest e')"
| "result_ok h s t u b _ \<longleftrightarrow> \<not> asked_server s t"

definition cache_of_answers :: "http \<Rightarrow> 'c run \<Rightarrow> bool" where
  "cache_of_answers h s \<longleftrightarrow> (\<forall>u r. h_cache (rn_host s) u = Some r \<longrightarrow> keeps h (Inr r) \<and>
     (\<exists>t b. from_server s t u b (Inr r) \<and> (b \<longleftrightarrow> cb_text r \<noteq> None)))"

definition results_ok :: "http \<Rightarrow> 'c run \<Rightarrow> bool" where
  "results_ok h s \<longleftrightarrow> cache_of_answers h s \<and> (\<forall>t u b ph. rn_tasks s t = Some (u, b, ph) \<longrightarrow> result_ok h s t u b ph)"

definition run_inv :: "http \<Rightarrow> nat \<Rightarrow> 'c run \<Rightarrow> bool" where
  "run_inv h n s \<longleftrightarrow> locks_ok s \<and> permits_ok n s \<and> misses_ok s \<and> (\<forall>u. answers_cached h u s) \<and> results_ok h s"

lemma in_flight_holds_lock: "in_flight ph \<Longrightarrow> holds_lock ph"
  by (cases ph) simp_all

lemma flying_finite: "finite (dom (rn_tasks s)) \<Longrightarrow> finite (flying s)"
  by (rule finite_subset [of _ "dom (rn_tasks s)"]) (auto simp: flying_def)

lemma flying_set_phase:
  assumes "finite (dom (rn_tasks s))" "rn_tasks s t = Some (u, b, ph0)"
  shows "card (flying (set_phase t u b ph s)) + of_bool (in_flight ph0) = card (flying s) + of_bool (in_flight ph)"
proof -
  have eq: "flying (set_phase t u b ph s) = (if in_flight ph then insert t (flying s) else flying s - {t})"
    by (auto simp: flying_def set_phase_def)
  have mem: "t \<in> flying s \<longleftrightarrow> in_flight ph0" using assms(2) by (auto simp: flying_def)
  note fin = flying_finite [OF assms(1)]
  show ?thesis
  proof (cases "in_flight ph")
    case True
    then show ?thesis using fin mem by (simp add: eq card_insert_if)
  next
    case False
    then show ?thesis using card.remove [OF fin, of t] mem by (cases "t \<in> flying s") (simp_all add: eq)
  qed
qed

lemma past_miss_holds_lock: "past_miss ph \<Longrightarrow> holds_lock ph"
  by (cases ph) simp_all

lemma set_phase_fields [simp]:
  "rn_tasks (set_phase t u b ph s) = (rn_tasks s)(t \<mapsto> (u, b, ph))"
  "rn_host (set_phase t u b ph s) = rn_host s" "rn_locks (set_phase t u b ph s) = rn_locks s"
  "rn_permits (set_phase t u b ph s) = rn_permits s" "rn_answered (set_phase t u b ph s) = rn_answered s"
  by (simp_all add: set_phase_def)

lemma release_lock_fields [simp]:
  "rn_tasks (release_lock u s) = rn_tasks s" "rn_host (release_lock u s) = rn_host s"
  "rn_locks (release_lock u s) = (rn_locks s)(u := None)"
  "rn_permits (release_lock u s) = rn_permits s" "rn_answered (release_lock u s) = rn_answered s"
  by (simp_all add: release_lock_def)

lemma flying_tasks: "flying s = flying (s'\<lparr>rn_tasks := rn_tasks s\<rparr>)"
  by (simp add: flying_def)

lemma flying_cong: "rn_tasks s = rn_tasks s' \<Longrightarrow> flying s = flying s'"
  by (simp add: flying_def)

lemma respond_cache [simp]: "h_cache (host_respond env now d raw host) = h_cache host"
  by (simp add: host_respond_def Let_def)

lemma cached_cong: "h_cache host = h_cache host' \<Longrightarrow> get_cached_status u b host = get_cached_status u b host'"
  by (simp add: get_cached_status_def)

lemma finish_cache_other:
  "host_finish env u b raw host = (res, host') \<Longrightarrow> u' \<noteq> u \<Longrightarrow> h_cache host' u' = h_cache host u'"
  by (auto simp: host_finish_def cache_result_def split: sum.splits if_splits)

lemma locks_update:
  assumes ok: "locks_ok s" and task: "rn_tasks s t = Some (u, b, ph0)"
    and tasks: "rn_tasks s' = (rn_tasks s)(t \<mapsto> (u, b, ph))"
    and locks: "rn_locks s' = (if holds_lock ph then (rn_locks s)(u \<mapsto> t)
      else if holds_lock ph0 then (rn_locks s)(u := None) else rn_locks s)"
    and free: "holds_lock ph \<Longrightarrow> \<not> holds_lock ph0 \<Longrightarrow> rn_locks s u = None"
  shows "locks_ok s'"
  unfolding locks_ok_def
proof (intro allI)
  fix u' t'
  have held: "rn_locks s u' = Some x \<longleftrightarrow> (\<exists>b ph. rn_tasks s x = Some (u', b, ph) \<and> holds_lock ph)" for x
    using ok by (simp add: locks_ok_def)
  have own: "holds_lock ph0 \<Longrightarrow> rn_locks s u = Some t"
    using ok task by (force simp: locks_ok_def)
  show "rn_locks s' u' = Some t' \<longleftrightarrow> (\<exists>b ph. rn_tasks s' t' = Some (u', b, ph) \<and> holds_lock ph)"
  proof (cases "t' = t")
    case True
    have "rn_locks s u' = Some t \<longleftrightarrow> u' = u \<and> holds_lock ph0" using held [of t] task by auto
    then show ?thesis using True tasks locks own by auto
  next
    case False
    then have same: "(\<exists>b ph. rn_tasks s' t' = Some (u', b, ph) \<and> holds_lock ph) \<longleftrightarrow> rn_locks s u' = Some t'"
      using held [of t'] tasks by simp
    have "u' = u \<Longrightarrow> holds_lock ph \<or> holds_lock ph0 \<Longrightarrow> rn_locks s u' \<noteq> Some t'"
      using own free False by (cases "holds_lock ph0") auto
    then show ?thesis unfolding same using locks False by auto
  qed
qed

lemma locks_step:
  assumes ok: "locks_ok s" and step: "host_step env s s'"
  shows "locks_ok s'"
proof -
  have own: "holds_lock ph \<Longrightarrow> rn_tasks s t = Some (u, b, ph) \<Longrightarrow> (rn_locks s)(u \<mapsto> t) = rn_locks s" for t u b ph
    using ok by (force simp: locks_ok_def fun_upd_idem_iff)
  from step show ?thesis
  proof cases
    case (lock t u b) then show ?thesis by (intro locks_update [OF ok, of t u b Waiting _ Locked]) simp_all
  next
    case (hit t u b r) then show ?thesis
      by (intro locks_update [OF ok, of t u b Locked _ "Finished (Inr r)"]) simp_all
  next
    case (miss t u b) with own [of Locked] show ?thesis
      by (intro locks_update [OF ok, of t u b Locked _ Missed]) simp_all
  next
    case (acquire t u b) with own [of Missed] show ?thesis
      by (intro locks_update [OF ok, of t u b Missed _ Permitted]) simp_all
  next
    case (refuse t u b e) then show ?thesis
      by (intro locks_update [OF ok, of t u b Permitted _ "Finished (Inl (NetworkRequest e))"]) simp_all
  next
    case (respond t u b now time raw) with own [of Permitted] show ?thesis
      by (intro locks_update [OF ok, of t u b Permitted _ "Responding raw"]) simp_all
  next
    case (finish t u b raw res host') then show ?thesis
      by (intro locks_update [OF ok, of t u b "Responding raw" _ "Finished res"]) simp_all
  qed
qed

lemma permits_step:
  assumes ok: "permits_ok n s" and step: "host_step env s s'"
  shows "permits_ok n s'"
proof -
  have fin: "finite (dom (rn_tasks s))" using ok by (simp add: permits_ok_def)
  have "permits_ok n s'" if task: "rn_tasks s t = Some (u, b, ph0)" and tasks: "rn_tasks s' = (rn_tasks s)(t \<mapsto> (u, b, ph))"
    and permits: "rn_permits s' + of_bool (in_flight ph) = rn_permits s + of_bool (in_flight ph0)" for t u b ph0 ph
  proof -
    have "flying s' = flying (set_phase t u b ph s)" using tasks by (intro flying_cong) simp
    with flying_set_phase [OF fin task, of ph] permits ok fin tasks show ?thesis by (simp add: permits_ok_def)
  qed
  note changed = this
  from step show ?thesis
  proof cases
    case (lock t u b) then show ?thesis by (intro changed [of t u b Waiting Locked]) simp_all
  next
    case (hit t u b r) then show ?thesis by (intro changed [of t u b Locked "Finished (Inr r)"]) simp_all
  next
    case (miss t u b) then show ?thesis by (intro changed [of t u b Locked Missed]) simp_all
  next
    case (acquire t u b) then show ?thesis by (intro changed [of t u b Missed Permitted]) simp_all
  next
    case (refuse t u b e) then show ?thesis
      by (intro changed [of t u b Permitted "Finished (Inl (NetworkRequest e))"]) simp_all
  next
    case (respond t u b now time raw) then show ?thesis
      by (intro changed [of t u b Permitted "Responding raw"]) simp_all
  next
    case (finish t u b raw res host') then show ?thesis
      by (intro changed [of t u b "Responding raw" "Finished res"]) simp_all
  qed
qed

lemma misses_update:
  assumes "misses_ok s" "rn_tasks s' = (rn_tasks s)(t \<mapsto> (u, b, ph))"
    and "h_cache (rn_host s') = h_cache (rn_host s)"
    and "past_miss ph \<Longrightarrow> get_cached_status u b (rn_host s) = None"
  shows "misses_ok s'"
  using assms cached_cong [OF assms(3)] unfolding misses_ok_def by (auto split: if_splits)

lemma misses_step:
  assumes "misses_ok s" "locks_ok s" and step: "host_step env s s'"
  shows "misses_ok s'"
  using step
proof cases
  case (finish t u b raw res host')
  show ?thesis
    unfolding misses_ok_def
  proof (intro allI impI)
    fix t' u' b' ph
    assume task: "rn_tasks s' t' = Some (u', b', ph)" and ph: "past_miss ph"
    then have t': "t' \<noteq> t" "rn_tasks s t' = Some (u', b', ph)" using finish(1) by (auto split: if_splits)
    have "rn_locks s u = Some t" using assms(2) finish(2) by (force simp: locks_ok_def)
    moreover have "rn_locks s u' = Some t'"
      using assms(2) t'(2) past_miss_holds_lock [OF ph] by (force simp: locks_ok_def)
    ultimately have "u' \<noteq> u" using t'(1) by auto
    with assms(1) t'(2) ph finish_cache_other [OF finish(3)] show "get_cached_status u' b' (rn_host s') = None"
      by (simp add: finish(1) misses_ok_def get_cached_status_def)
  qed
next
  case (lock t u b) then show ?thesis by (intro misses_update [OF assms(1), of _ t u b Locked]) simp_all
next
  case (hit t u b r) then show ?thesis
    by (intro misses_update [OF assms(1), of _ t u b "Finished (Inr r)"]) simp_all
next
  case (miss t u b) then show ?thesis by (intro misses_update [OF assms(1), of _ t u b Missed]) simp_all
next
  case (acquire t u b)
  then have "get_cached_status u b (rn_host s) = None" using assms(1) by (auto simp: misses_ok_def)
  with acquire show ?thesis by (intro misses_update [OF assms(1), of _ t u b Permitted]) simp_all
next
  case (refuse t u b e) then show ?thesis
    by (intro misses_update [OF assms(1), of _ t u b "Finished (Inl (NetworkRequest e))"]) simp_all
next
  case (respond t u b now time raw)
  then have "get_cached_status u b (rn_host s) = None" using assms(1) by (force simp: misses_ok_def)
  with respond show ?thesis by (intro misses_update [OF assms(1), of _ t u b "Responding raw"]) simp_all
qed

lemma response_from_text: "response_from raw b = Inr r \<Longrightarrow> cb_text r = None \<longleftrightarrow> \<not> b"
  by (auto simp: response_from_def res_bind_Inr_conv map_sum_def split: sum.splits if_splits)

lemma answers_cong:
  "h_cache (rn_host s') u = h_cache (rn_host s) u \<Longrightarrow> kept_answers h u s' = kept_answers h u s \<Longrightarrow>
   answers_cached h u s' = answers_cached h u s"
  by (simp add: answers_cached_def split: option.split)

lemma answers_same:
  "answers_cached h u s \<Longrightarrow> h_cache (rn_host s') = h_cache (rn_host s) \<Longrightarrow> rn_answered s' = rn_answered s \<Longrightarrow>
   answers_cached h u s'"
  by (subst answers_cong [of s' u s]) (simp_all add: kept_answers_def)

lemma answers_step:
  assumes answers: "answers_cached (he_http env) u' s" and misses: "misses_ok s" and step: "host_step env s s'"
  shows "answers_cached (he_http env) u' s'"
  using step
proof cases
  case (finish t u b raw res host')
  let ?h = "he_http env"
  have miss: "get_cached_status u b (rn_host s) = None"
    using misses finish(2) by (force simp: misses_ok_def)
  have kept: "kept_answers ?h u' s' = kept_answers ?h u' s @ (if u = u' \<and> keeps ?h res then [b] else [])"
    by (simp add: finish(1) kept_answers_def)
  show ?thesis
  proof (cases "u = u' \<and> keeps ?h res")
    case False
    have "h_cache host' u' = h_cache (rn_host s) u'"
    proof (cases "response_from raw b")
      case (Inl e)
      then show ?thesis using finish(3) by (simp add: host_finish_def)
    next
      case (Inr r)
      with finish(3) have "res = Inr r" "host' = cache_result ?h u r (rn_host s)"
        by (simp_all add: host_finish_def)
      with False show ?thesis by (auto simp: cache_result_def)
    qed
    with False kept answers show ?thesis by (subst answers_cong [of s' u' s]) (simp_all add: finish(1))
  next
    case True
    then obtain r where r: "res = Inr r" "\<not> code_should_retry ?h (cb_status r)" by (cases res) auto
    have r2: "response_from raw b = Inr r"
      using finish(3) r(1) by (cases "response_from raw b") (simp_all add: host_finish_def)
    with finish(3) r have r: "res = Inr r" "response_from raw b = Inr r" "h_cache host' u = Some r"
      by (auto simp: host_finish_def cache_result_def)
    then have cache: "h_cache (rn_host s') u' = Some r" using True by (simp add: finish(1))
    have body: "cb_text r = None \<longleftrightarrow> \<not> b" by (rule response_from_text [OF r(2)])
    have kept': "kept_answers ?h u' s' = kept_answers ?h u' s @ [b]" using kept True by simp
    show ?thesis
    proof (cases "h_cache (rn_host s) u'")
      case None
      then have "kept_answers ?h u' s = []" using answers by (simp add: answers_cached_def)
      then show ?thesis using body by (simp add: answers_cached_def cache kept')
    next
      case (Some r0)
      then have b: "b" "cb_text r0 = None"
        using miss True by (auto simp: get_cached_status_def split: if_splits)
      with Some have "kept_answers ?h u' s = [False]" using answers by (simp add: answers_cached_def)
      then show ?thesis using body b by (simp add: answers_cached_def cache kept')
    qed
  qed
qed (rule answers_same [OF answers]; simp)+

lemma results_update:
  assumes "results_ok h s" "rn_tasks s' = (rn_tasks s)(t \<mapsto> (u, b, ph))"
    and "h_cache (rn_host s') = h_cache (rn_host s)" "rn_answered s' = rn_answered s"
    and "result_ok h s t u b ph"
  shows "results_ok h s'"
proof -
  have same: "result_ok h s' = result_ok h s"
  proof (intro ext)
    show "result_ok h s' t u b ph = result_ok h s t u b ph" for t u b ph
      using assms(4) by (cases "(h, s, t, u, b, ph)" rule: result_ok.cases)
        (simp_all add: from_server_def from_cache_def asked_server_def)
  qed
  show ?thesis
    using assms unfolding results_ok_def same cache_of_answers_def by (auto simp: from_server_def split: if_splits)
qed

lemma result_ok_more:
  assumes "result_ok h s t u b ph" "rn_answered s' = rn_answered s @ [(t', a)]" "t \<noteq> t'"
  shows "result_ok h s' t u b ph"
  using assms by (cases "(h, s, t, u, b, ph)" rule: result_ok.cases)
    (auto simp: from_server_def from_cache_def asked_server_def)

lemma finish_cases:
  assumes "host_finish env u b raw host = (res, host')"
  obtains "h_cache host' = h_cache host" | r where "res = Inr r" "keeps (he_http env) (Inr r)"
    "h_cache host' = (h_cache host)(u \<mapsto> r)" "b \<longleftrightarrow> cb_text r \<noteq> None"
proof (cases "response_from raw b")
  case (Inl e)
  with assms that(1) show thesis by (simp add: host_finish_def)
next
  case (Inr r)
  with assms have "res = Inr r" "host' = cache_result (he_http env) u r host" by (simp_all add: host_finish_def)
  with that response_from_text [OF Inr] show thesis
    by (cases "code_should_retry (he_http env) (cb_status r)"; cases b) (auto simp: cache_result_def)
qed

lemma cache_of_answers_more:
  assumes "cache_of_answers h s" "rn_answered s' = rn_answered s @ [a]" "h_cache (rn_host s') = h_cache (rn_host s)"
  shows "cache_of_answers h s'"
  using assms by (fastforce simp: cache_of_answers_def from_server_def)

lemma results_finish:
  assumes ok: "results_ok (he_http env) s" and task: "rn_tasks s t = Some (u, b, Responding raw)"
    and fin: "host_finish env u b raw (rn_host s) = (res, host')"
    and s': "rn_tasks s' = (rn_tasks s)(t \<mapsto> (u, b, Finished res))" "rn_host s' = host'"
      "rn_answered s' = rn_answered s @ [(t, u, b, res)]"
  shows "results_ok (he_http env) s'"
proof -
  let ?h = "he_http env"
  have cached: "cache_of_answers ?h s" using ok by (simp add: results_ok_def)
  from fin have "cache_of_answers ?h s'"
  proof (cases rule: finish_cases)
    case 1
    with cached s' show ?thesis by (intro cache_of_answers_more [OF cached]) simp_all
  next
    case (2 r)
    have new: "from_server s' t u b (Inr r)" by (simp add: from_server_def s'(3) 2(1))
    have old: "from_server s t' u' b' a \<Longrightarrow> from_server s' t' u' b' a" for t' u' b' a
      by (simp add: from_server_def s'(3))
    show ?thesis
      unfolding cache_of_answers_def
    proof (intro allI impI)
      fix u' r' assume "h_cache (rn_host s') u' = Some r'"
      with 2(3) s'(2) have "u' = u \<and> r' = r \<or> h_cache (rn_host s) u' = Some r'" by (auto split: if_splits)
      then show "keeps ?h (Inr r') \<and> (\<exists>t b. from_server s' t u' b (Inr r') \<and> (b \<longleftrightarrow> cb_text r' \<noteq> None))"
        using cached new old 2(2,4) unfolding cache_of_answers_def by blast
    qed
  qed
  moreover have "result_ok ?h s' t' u' b' ph" if "rn_tasks s' t' = Some (u', b', ph)" for t' u' b' ph
  proof (cases "t' = t")
    case True
    with that s' show ?thesis by (cases res) (auto simp: from_server_def)
  next
    case False
    with that s' ok show ?thesis by (intro result_ok_more [OF _ s'(3)]) (auto simp: results_ok_def)
  qed
  ultimately show ?thesis by (simp add: results_ok_def)
qed

lemma results_step:
  assumes ok: "results_ok (he_http env) s" and step: "host_step env s s'"
  shows "results_ok (he_http env) s'"
proof -
  have old: "rn_tasks s t = Some (u, b, ph) \<Longrightarrow> result_ok (he_http env) s t u b ph" for t u b ph
    using ok by (simp add: results_ok_def)
  from step show ?thesis
  proof cases
    case (lock t u b) with old [of t u b Waiting] show ?thesis by (intro results_update [OF ok, of _ t u b Locked]) simp_all
  next
    case (hit t u b r)
    then have cached: "h_cache (rn_host s) u = Some r" "b \<longrightarrow> cb_text r \<noteq> None"
      by (auto simp: get_cached_status_def split: option.splits if_splits)
    with ok obtain t' b' where "keeps (he_http env) (Inr r)" "from_server s t' u b' (Inr r)" "b' \<longleftrightarrow> cb_text r \<noteq> None"
      unfolding results_ok_def cache_of_answers_def by blast
    with cached(2) have "from_cache (he_http env) s u b r" unfolding from_cache_def by blast
    with hit old [of t u b Locked] show ?thesis by (intro results_update [OF ok, of _ t u b "Finished (Inr r)"]) simp_all
  next
    case (miss t u b) with old [of t u b Locked] show ?thesis by (intro results_update [OF ok, of _ t u b Missed]) simp_all
  next
    case (acquire t u b) with old [of t u b Missed] show ?thesis
      by (intro results_update [OF ok, of _ t u b Permitted]) simp_all
  next
    case (refuse t u b e) with old [of t u b Permitted] show ?thesis
      by (intro results_update [OF ok, of _ t u b "Finished (Inl (NetworkRequest e))"]) simp_all
  next
    case (respond t u b now time raw) with old [of t u b Permitted] show ?thesis
      by (intro results_update [OF ok, of _ t u b "Responding raw"]) simp_all
  next
    case (finish t u b raw res host') then show ?thesis by (intro results_finish [OF ok finish(2,3)]) simp_all
  qed
qed

lemma run_inv_step: "run_inv (he_http env) n s \<Longrightarrow> host_step env s s' \<Longrightarrow> run_inv (he_http env) n s'"
  unfolding run_inv_def
  using locks_step permits_step misses_step answers_step results_step by blast

lemma run_inv_start:
  assumes "finite (dom requests)" "\<And>u. h_cache host u = None"
  shows "run_inv h (h_max_concurrent host) (run_start host requests)"
proof -
  have "flying (run_start host requests) = {}"
    by (auto simp: flying_def run_start_def)
  moreover have "dom (rn_tasks (run_start host requests)) = dom requests"
    by (auto simp: run_start_def)
  ultimately show ?thesis
    using assms by (auto simp: run_inv_def locks_ok_def permits_ok_def misses_ok_def answers_cached_def
        kept_answers_def run_start_def results_ok_def cache_of_answers_def asked_server_def split: option.splits)
qed

section \<open>Progress\<close>

fun done_phase :: "phase \<Rightarrow> bool" where
  "done_phase (Finished _) = True"
| "done_phase _ = False"

definition all_done :: "'c run \<Rightarrow> bool" where
  "all_done s \<longleftrightarrow> (\<forall>t u b ph. rn_tasks s t = Some (u, b, ph) \<longrightarrow> done_phase ph)"

fun phases_left :: "phase \<Rightarrow> nat" where
  "phases_left Waiting = 5"
| "phases_left Locked = 4"
| "phases_left Missed = 3"
| "phases_left Permitted = 2"
| "phases_left (Responding _) = 1"
| "phases_left (Finished _) = 0"

definition work_left :: "'c run \<Rightarrow> nat" where
  "work_left s = (\<Sum>t \<in> dom (rn_tasks s). phases_left (snd (snd (the (rn_tasks s t)))))"

lemma in_flight_moves:
  assumes "t \<in> flying s" shows "\<exists>s'. host_step env s s'"
proof -
  from assms obtain u b ph where task: "rn_tasks s t = Some (u, b, ph)" "in_flight ph" by (auto simp: flying_def)
  then consider "ph = Permitted" | raw where "ph = Responding raw" by (cases ph) auto
  then show ?thesis
  proof cases
    case 1
    with task show ?thesis using host_step.refuse [of s t u b env] by blast
  next
    case 2
    obtain res host' where "host_finish env u b raw (rn_host s) = (res, host')" by force
    with 2 task show ?thesis using host_step.finish [of s t u b raw env] by blast
  qed
qed

lemma locked_moves:
  assumes inv: "run_inv h n s" and n: "0 < n" and task: "rn_tasks s t = Some (u, b, ph)" "holds_lock ph"
  shows "\<exists>s'. host_step env s s'"
proof (cases "t \<in> flying s")
  case True
  then show ?thesis by (rule in_flight_moves)
next
  case False
  with task have "ph = Locked \<or> ph = Missed" by (cases ph) (auto simp: flying_def)
  then show ?thesis
  proof
    assume "ph = Locked"
    with task show ?thesis
      using host_step.hit [of s t u b _ env] host_step.miss [of s t u b env]
      by (cases "get_cached_status u b (rn_host s)") blast+
  next
    assume ph: "ph = Missed"
    show ?thesis
    proof (cases "0 < rn_permits s")
      case True
      with task ph show ?thesis using host_step.acquire [of s t u b env] by blast
    next
      case False
      with inv n have "0 < card (flying s)" by (auto simp: run_inv_def permits_ok_def)
      then obtain t' where "t' \<in> flying s" by (metis card.empty ex_in_conv less_irrefl)
      then show ?thesis by (rule in_flight_moves)
    qed
  qed
qed

lemma run_progress:
  assumes inv: "run_inv h n s" and n: "0 < n" and notdone: "\<not> all_done s"
  shows "\<exists>s'. host_step env s s'"
proof -
  from notdone obtain t u b ph where task: "rn_tasks s t = Some (u, b, ph)" "\<not> done_phase ph"
    by (auto simp: all_done_def)
  show ?thesis
  proof (cases "holds_lock ph")
    case True
    with locked_moves [OF inv n task(1)] show ?thesis by blast
  next
    case False
    with task(2) have ph: "ph = Waiting" by (cases ph) auto
    show ?thesis
    proof (cases "rn_locks s u")
      case None
      with task ph show ?thesis using host_step.lock [of s t u b env] by blast
    next
      case (Some t')
      with inv obtain b' ph' where "rn_tasks s t' = Some (u, b', ph')" "holds_lock ph'"
        by (auto simp: run_inv_def locks_ok_def)
      with locked_moves [OF inv n] show ?thesis by blast
    qed
  qed
qed

lemma work_update:
  assumes "finite (dom (rn_tasks s))" "rn_tasks s t = Some (u, b, ph0)" "rn_tasks s' = (rn_tasks s)(t \<mapsto> (u, b, ph))"
    and "phases_left ph < phases_left ph0"
  shows "work_left s' < work_left s"
proof -
  have dom: "dom (rn_tasks s') = dom (rn_tasks s)" "t \<in> dom (rn_tasks s)" using assms(2,3) by auto
  show ?thesis
    unfolding work_left_def dom(1)
    by (rule sum_strict_mono_ex1) (use assms dom(2) in \<open>auto simp: less_imp_le\<close>)
qed

lemma work_step:
  assumes fin: "finite (dom (rn_tasks s))" and step: "host_step env s s'"
  shows "work_left s' < work_left s"
  using step
proof cases
  case (lock t u b) then show ?thesis by (intro work_update [OF fin, of t u b Waiting _ Locked]) simp_all
next
  case (hit t u b r) then show ?thesis by (intro work_update [OF fin, of t u b Locked _ "Finished (Inr r)"]) simp_all
next
  case (miss t u b) then show ?thesis by (intro work_update [OF fin, of t u b Locked _ Missed]) simp_all
next
  case (acquire t u b) then show ?thesis by (intro work_update [OF fin, of t u b Missed _ Permitted]) simp_all
next
  case (refuse t u b e) then show ?thesis
    by (intro work_update [OF fin, of t u b Permitted _ "Finished (Inl (NetworkRequest e))"]) simp_all
next
  case (respond t u b now time raw) then show ?thesis
    by (intro work_update [OF fin, of t u b Permitted _ "Responding raw"]) simp_all
next
  case (finish t u b raw res host') then show ?thesis
    by (intro work_update [OF fin, of t u b "Responding raw" _ "Finished res"]) simp_all
qed

interpretation host_run: terminating_steps "host_step env" "run_inv (he_http env) (Suc n)" all_done work_left
  for env n
proof
  show "run_inv (he_http env) (Suc n) s \<Longrightarrow> host_step env s s' \<Longrightarrow> run_inv (he_http env) (Suc n) s'" for s s'
    by (rule run_inv_step)
  show "run_inv (he_http env) (Suc n) s \<Longrightarrow> \<not> all_done s \<Longrightarrow> \<exists>s'. host_step env s s'" for s
    by (rule run_progress [of "he_http env" "Suc n"]) auto
  show "run_inv (he_http env) (Suc n) s \<Longrightarrow> host_step env s s' \<Longrightarrow> work_left s' < work_left s" for s s'
    by (rule work_step) (simp_all add: run_inv_def permits_ok_def)
qed

section \<open>Properties\<close>

text \<open>C19: However the tasks of a host interleave, no two of them work on the same URI at a time, and
  no more of them have a request under way than the host's concurrency allows.\<close>

theorem host_mutual_exclusion:
  assumes "(host_step env)\<^sup>*\<^sup>* (run_start (host_new key config g client) requests) s"
    and "finite (dom requests)"
  shows "card (flying s) \<le> effective_concurrency g config \<and>
    (\<forall>t1 t2 u b1 b2 ph1 ph2. rn_tasks s t1 = Some (u, b1, ph1) \<and> rn_tasks s t2 = Some (u, b2, ph2) \<and>
       holds_lock ph1 \<and> holds_lock ph2 \<longrightarrow> t1 = t2)"
proof -
  let ?host = "host_new key config g client"
  have n: "h_max_concurrent ?host = effective_concurrency g config" by (simp add: host_new_def Let_def)
  have "run_inv (he_http env) (effective_concurrency g config) (run_start ?host requests)"
    using run_inv_start [OF assms(2), of ?host] n by (simp add: host_new_def Let_def)
  with assms(1) have "run_inv (he_http env) (effective_concurrency g config) s"
    by (induction rule: rtranclp_induct) (auto intro: run_inv_step)
  then have "locks_ok s" "card (flying s) \<le> effective_concurrency g config"
    by (auto simp: run_inv_def permits_ok_def)
  moreover have "rn_locks s u = Some t" if "rn_tasks s t = Some (u, b, ph)" "holds_lock ph" for t u b ph
    using \<open>locks_ok s\<close> that by (force simp: locks_ok_def)
  ultimately show ?thesis by (metis option.inject)
qed

text \<open>C10: The requests of a host never deadlock: with a concurrency above zero, every run of them
  ends, and from every state that is reached all tasks can still finish.\<close>

theorem host_requests_finish:
  assumes "effective_concurrency g config = Suc n" and "finite (dom requests)"
    and "(host_step env)\<^sup>*\<^sup>* (run_start (host_new key config g client) requests) s"
  shows "(\<exists>s'. (host_step env)\<^sup>*\<^sup>* s s' \<and> all_done s') \<and>
    \<not> (\<exists>r. r 0 = s \<and> (\<forall>i. host_step env (r i) (r (Suc i)))) \<and>
    ((\<nexists>s'. host_step env s s') \<longrightarrow> all_done s)"
proof -
  let ?host = "host_new key config g client"
  have n: "h_max_concurrent ?host = Suc n" by (simp add: host_new_def Let_def assms(1))
  have "run_inv (he_http env) (Suc n) (run_start ?host requests)"
    using run_inv_start [OF assms(2), of ?host] n by (simp add: host_new_def Let_def)
  with assms(3) have inv: "run_inv (he_http env) (Suc n) s" by (rule host_run.reachable_inv)
  from host_run.reaches_final [OF inv] host_run.no_infinite_run [where env = env and n = n]
    host_run.progress [OF inv] inv
  show ?thesis by blast
qed

text \<open>C11: Of all tasks that ask for the same URI, at most one gets an answer worth keeping from the
  server without a body and at most one with its body, in this order.  Every other task that has ended with a
  response has either got it from the server as one that is not worth keeping, since it may be retried, or never had an answer
  of the server of its own: it has that of one of these two, the one with a body if it needs one.  A task that
  ended with an error was answered by the server with a body that cannot be read, or could not reach it.\<close>

theorem host_asks_once:
  assumes "(host_step env)\<^sup>*\<^sup>* (run_start (host_new key config g client) requests) s"
    and "finite (dom requests)"
  shows "let kept = filter (\<lambda>(t, u', b, res). u' = u \<and> keeps (he_http env) res) (rn_answered s) in
    map (fst \<circ> snd \<circ> snd) kept \<in> {[], [False], [True], [False, True]} \<and>
    (\<forall>t b r. rn_tasks s t = Some (u, b, Finished (Inr r)) \<longrightarrow>
      (t, u, b, Inr r) \<in> set kept \<or>
      (t, u, b, Inr r) \<in> set (rn_answered s) \<and> \<not> keeps (he_http env) (Inr r) \<or>
      \<not> asked_server s t \<and> (\<exists>t' b'. (t', u, b', Inr r) \<in> set kept \<and> (b \<longrightarrow> b'))) \<and>
    (\<forall>t b e. rn_tasks s t = Some (u, b, Finished (Inl e)) \<longrightarrow>
      (t, u, b, Inl e) \<in> set (rn_answered s) \<or> \<not> asked_server s t \<and> (\<exists>e'. e = NetworkRequest e'))"
proof -
  let ?host = "host_new key config g client"
  have "run_inv (he_http env) (h_max_concurrent ?host) (run_start ?host requests)"
    by (rule run_inv_start) (simp_all add: assms(2) host_new_def Let_def)
  with assms(1) have "run_inv (he_http env) (h_max_concurrent ?host) s"
    by (induction rule: rtranclp_induct) (auto intro: run_inv_step)
  then have inv: "answers_cached (he_http env) u s" "results_ok (he_http env) s" by (simp_all add: run_inv_def)
  define kept where "kept = filter (\<lambda>(t, u', b, res). u' = u \<and> keeps (he_http env) res) (rn_answered s)"
  have kept: "kept = filter (\<lambda>a. fst (snd a) = u \<and> keeps (he_http env) (snd (snd (snd a)))) (rn_answered s)"
    unfolding kept_def by (rule filter_cong) auto
  from inv(1) have "map (fst \<circ> snd \<circ> snd) kept \<in> {[], [False], [True], [False, True]}"
    by (auto simp: kept answers_cached_def kept_answers_def split: option.splits if_splits)
  moreover have results: "result_ok (he_http env) s t u b ph" if "rn_tasks s t = Some (u, b, ph)" for t b ph
    using inv(2) that by (simp add: results_ok_def)
  have in_kept: "(t, u, b, res) \<in> set kept \<longleftrightarrow> from_server s t u b res \<and> keeps (he_http env) res" for t b res
    by (auto simp: kept from_server_def)
  have "(t, u, b, Inr r) \<in> set kept \<or> from_server s t u b (Inr r) \<and> \<not> keeps (he_http env) (Inr r) \<or>
      \<not> asked_server s t \<and> (\<exists>t' b'. (t', u, b', Inr r) \<in> set kept \<and> (b \<longrightarrow> b'))"
    if "rn_tasks s t = Some (u, b, Finished (Inr r))" for t b r
    using results [OF that] unfolding in_kept result_ok.simps from_cache_def by blast
  moreover have "from_server s t u b (Inl e) \<or> \<not> asked_server s t \<and> (\<exists>e'. e = NetworkRequest e')"
    if "rn_tasks s t = Some (u, b, Finished (Inl e))" for t b e
    using results [OF that] by simp
  ultimately show ?thesis unfolding Let_def kept_def [symmetric] from_server_def by blast
qed

text \<open>Two tasks for one URI, and the run in which the first one is answered.\<close>

definition two_requests :: "nat \<rightharpoonup> uri \<times> bool" where
  "two_requests = [0 \<mapsto> (domain_url ''https'' ''a.org'' ''/'', False), 1 \<mapsto> (domain_url ''https'' ''a.org'' ''/'', False)]"

definition a_org_host :: "unit host" where
  "a_org_host = host_new ''a.org'' host_config_default (rate_limit_from_options None None) ()"

lemma a_org_start:
  "run_start a_org_host two_requests = run_start (host_new ''a.org'' host_config_default
     (rate_limit_from_options None None) ()) two_requests"
  "finite (dom two_requests)"
  "effective_concurrency (rate_limit_from_options None None) host_config_default = Suc 9"
  by (simp_all add: a_org_host_def two_requests_def effective_concurrency_def host_config_default_def
      rate_limit_from_options_def)

theorem host_mutual_exclusion_witness:
  "\<exists>s. (host_step (constant_server 200 Map.empty))\<^sup>*\<^sup>* (run_start a_org_host two_requests) s \<and>
     rn_tasks s 0 = Some (domain_url ''https'' ''a.org'' ''/'', False, Locked) \<and> card (flying s) \<le> 10"
proof -
  let ?s = "run_start a_org_host two_requests" let ?u = "domain_url ''https'' ''a.org'' ''/''"
  let ?t = "set_phase 0 ?u False Locked ?s\<lparr>rn_locks := (rn_locks ?s)(?u \<mapsto> 0)\<rparr>"
  have "host_step (constant_server 200 Map.empty) ?s ?t"
    by (rule host_step.lock) (simp_all add: run_start_def two_requests_def)
  then have run: "(host_step (constant_server 200 Map.empty))\<^sup>*\<^sup>* ?s ?t" by blast
  from conjunct1 [OF host_mutual_exclusion [OF run [unfolded a_org_start(1)] a_org_start(2)],
      folded a_org_start(1), unfolded a_org_start(3)]
  have "card (flying ?t) \<le> 10" by simp
  moreover have "rn_tasks ?t 0 = Some (?u, False, Locked)" by simp
  ultimately show ?thesis using run by blast
qed

theorem host_requests_finish_witness:
  "\<exists>s'. (host_step (constant_server 200 Map.empty))\<^sup>*\<^sup>* (run_start a_org_host two_requests) s' \<and> all_done s'"
  using host_requests_finish [OF a_org_start(3,2) rtranclp.rtrancl_refl,
      of "constant_server 200 Map.empty" "''a.org''" "()"]
  unfolding a_org_start(1) by blast

theorem host_asks_once_witness:
  "\<exists>s. (host_step (constant_server 200 Map.empty))\<^sup>*\<^sup>* (run_start a_org_host two_requests) s \<and> all_done s \<and>
     length (filter (\<lambda>(t, u, b, res). u = domain_url ''https'' ''a.org'' ''/'' \<and> keeps http_std res) (rn_answered s)) \<le> 2"
proof -
  have inv: "run_inv (he_http (constant_server 200 Map.empty)) (Suc 9) (run_start a_org_host two_requests)"
    using run_inv_start [OF a_org_start(2), of a_org_host] a_org_start(3)
    by (simp add: a_org_host_def host_new_def Let_def)
  obtain s where s: "(host_step (constant_server 200 Map.empty))\<^sup>*\<^sup>* (run_start a_org_host two_requests) s"
    "all_done s" using host_run.reaches_final [OF inv] by blast
  let ?kept = "filter (\<lambda>(t, u, b, res). u = domain_url ''https'' ''a.org'' ''/'' \<and> keeps http_std res) (rn_answered s)"
  from conjunct1 [OF host_asks_once [OF s(1) [unfolded a_org_start(1)] a_org_start(2), of "domain_url ''https'' ''a.org'' ''/''", unfolded Let_def]]
  have "map (fst \<circ> snd \<circ> snd) ?kept \<in> {[], [False], [True], [False, True]}" by (simp add: constant_server_def)
  then have "length (map (fst \<circ> snd \<circ> snd) ?kept) \<in> length ` {[], [False], [True], [False, True]}" by (rule imageI)
  then have "length (map (fst \<circ> snd \<circ> snd) ?kept) \<le> 2" by (simp only: image_insert image_empty list.size) auto
  with s show ?thesis by (simp only: length_map) blast
qed

end
