(* ===== verification/Spans.thy ===== *)
theory Spans
  imports Status
begin

text \<open>
  Positions in a document (\<open>lychee-lib/src/types/uri/raw.rs\<close>): line and column of a byte
  offset.  Offsets count the bytes of the UTF-8 encoding, columns count characters.
\<close>

section \<open>Byte offsets\<close>

text \<open>Characters from U+0080 on take two bytes in the modelled range.\<close>

definition utf8_len :: "char \<Rightarrow> nat" where
  "utf8_len c = (if (of_char c :: nat) < 128 then 1 else 2)"

definition byte_len :: "string \<Rightarrow> nat" where
  "byte_len s = sum_list (map utf8_len s)"

text \<open>Splitting at a byte offset fails inside a character and behind the end.\<close>

fun split_at_byte :: "nat \<Rightarrow> string \<Rightarrow> (string \<times> string) option" where
  "split_at_byte n [] = (if n = 0 then Some ([], []) else None)"
| "split_at_byte n (c # cs) =
     (if n = 0 then Some ([], c # cs)
      else if n < utf8_len c then None
      else map_option (\<lambda>(a, b). (c # a, b)) (split_at_byte (n - utf8_len c) cs))"

text \<open>\<open>str::get\<close> on a range and on a range without an end.\<close>

definition str_get :: "string \<Rightarrow> nat \<Rightarrow> nat \<Rightarrow> string option" where
  "str_get s lo hi = (if hi < lo then None
     else Option.bind (split_at_byte hi s) (\<lambda>(a, _). map_option snd (split_at_byte lo a)))"

definition str_get_from :: "string \<Rightarrow> nat \<Rightarrow> string option" where
  "str_get_from s lo = map_option snd (split_at_byte lo s)"

lemma utf8_len_pos [simp]: "0 < utf8_len c" "utf8_len c \<noteq> 0"
  by (simp_all add: utf8_len_def)

lemma byte_len_simps [simp]:
  "byte_len [] = 0" "byte_len (c # cs) = utf8_len c + byte_len cs"
  "byte_len (a @ b) = byte_len a + byte_len b"
  by (simp_all add: byte_len_def)

lemma split_at_byte_0 [simp]: "split_at_byte 0 s = Some ([], s)"
  by (cases s) auto

lemma split_at_byte_append [simp]: "split_at_byte (byte_len a) (a @ b) = Some (a, b)"
  by (induction a) auto

lemma split_at_byte_Some: "split_at_byte n s = Some (a, b) \<longleftrightarrow> s = a @ b \<and> n = byte_len a"
proof
  show "split_at_byte n s = Some (a, b) \<Longrightarrow> s = a @ b \<and> n = byte_len a"
    by (induction n s arbitrary: a rule: split_at_byte.induct) (auto split: if_splits)
qed auto

lemma str_get_parts:
  "str_get (a @ b @ c) (byte_len a) (byte_len a + byte_len b) = Some b"
  using split_at_byte_append [of "a @ b" c] by (simp add: str_get_def)

section \<open>Spans\<close>

definition span_show :: "raw_uri_span \<Rightarrow> string" where
  "span_show s = (case span_column s of
      Some column \<Rightarrow> show_nat (span_line s) @ '':'' @ show_nat column
    | None \<Rightarrow> show_nat (span_line s))"

record source_span_provider =
  sp_line_starts :: "nat list"
  sp_input :: string

text \<open>The byte offsets at which \<open>match_indices\<close> finds a line feed, each plus one.\<close>

fun after_newlines :: "nat \<Rightarrow> string \<Rightarrow> nat list" where
  "after_newlines i [] = []"
| "after_newlines i (c # cs) =
     (if c = CHR 0x0A then (i + 1) # after_newlines (i + utf8_len c) cs
      else after_newlines (i + utf8_len c) cs)"

definition provider_from_input :: "string \<Rightarrow> source_span_provider" where
  "provider_from_input input = \<lparr>sp_line_starts = 0 # after_newlines 0 input, sp_input = input\<rparr>"

text \<open>
  \<open>slice::binary_search\<close> on an increasing list: the position of an element that is there on
  the right, otherwise on the left the position where it would be.
\<close>

definition binary_search :: "nat \<Rightarrow> nat list \<Rightarrow> nat + nat" where
  "binary_search x xs =
     (let i = length (takeWhile (\<lambda>y. y < x) xs) in
      if i < length xs \<and> xs ! i = x then Inr i else Inl i)"

definition source_span :: "source_span_provider \<Rightarrow> nat \<Rightarrow> raw_uri_span" where
  "source_span p offset =
     (let line = (case binary_search offset (sp_line_starts p) of Inr i \<Rightarrow> i | Inl i \<Rightarrow> i - 1);
          line_offset = sp_line_starts p ! line;
          column = (case str_get (sp_input p) line_offset offset of
              Some v \<Rightarrow> Some v
            | None \<Rightarrow> str_get_from (sp_input p) line_offset)
      in \<lparr>span_line = 1 + line, span_column = map_option (\<lambda>v. 1 + length v) column\<rparr>)"

text \<open>A provider is what the extractors use of it: a function from offsets to spans.\<close>

type_synonym span_provider = "nat \<Rightarrow> raw_uri_span"

definition offset_span :: "nat \<Rightarrow> span_provider \<Rightarrow> span_provider" where
  "offset_span offset inner n = inner (offset + n)"

section \<open>Lines and columns\<close>

definition newlines :: "string \<Rightarrow> nat" where
  "newlines s = count_list s (CHR 0x0A)"

definition last_line :: "string \<Rightarrow> string" where
  "last_line s = rev (takeWhile (\<lambda>c. c \<noteq> CHR 0x0A) (rev s))"

lemma utf8_len_newline [simp]: "utf8_len (CHR 0x0A) = 1"
  by (simp add: utf8_len_def)

lemma after_newlines_append:
  "after_newlines i (a @ b) = after_newlines i a @ after_newlines (i + byte_len a) b"
  by (induction a arbitrary: i) (auto simp: add.assoc)

lemma after_newlines_bounds: "n \<in> set (after_newlines i s) \<Longrightarrow> i < n \<and> n \<le> i + byte_len s"
  by (induction s arbitrary: i) (fastforce split: if_splits)+

lemma length_after_newlines: "length (after_newlines i s) = newlines s"
  by (induction s arbitrary: i) (auto simp: newlines_def)

lemma last_line_append_newline:
  "CHR 0x0A \<notin> set b \<Longrightarrow> last_line (a @ CHR 0x0A # b) = b"
  by (simp add: last_line_def takeWhile_append)

lemma last_line_no_newline: "CHR 0x0A \<notin> set s \<Longrightarrow> last_line s = s"
  unfolding last_line_def by (subst takeWhile_eq_all_conv [THEN iffD2]) auto

lemma split_last_line:
  obtains a where "s = a @ last_line s"
    and "a = [] \<or> (\<exists>b. a = b @ [CHR 0x0A])" and "CHR 0x0A \<notin> set (last_line s)"
proof (cases "CHR 0x0A \<in> set s")
  case True
  then obtain b c where "s = b @ CHR 0x0A # c" "CHR 0x0A \<notin> set c"
    using split_list_last by metis
  then show ?thesis using that [of "b @ [CHR 0x0A]"] by (simp add: last_line_append_newline)
next
  case False
  then show ?thesis using that [of "[]"] by (simp add: last_line_no_newline)
qed

lemma newlines_append [simp]: "newlines (a @ b) = newlines a + newlines b"
  by (simp add: newlines_def)

text \<open>The line starts up to an offset are those the text before it has.\<close>

lemma line_starts_before:
  "takeWhile (\<lambda>y. y \<le> byte_len pre) (0 # after_newlines 0 (pre @ post)) = 0 # after_newlines 0 pre"
proof -
  have "takeWhile (\<lambda>y. y \<le> byte_len pre) (after_newlines 0 pre @ after_newlines (byte_len pre) post) =
      after_newlines 0 pre @ takeWhile (\<lambda>y. y \<le> byte_len pre) (after_newlines (byte_len pre) post)"
    using after_newlines_bounds [of _ 0 pre] by (intro takeWhile_append2) auto
  moreover have "takeWhile (\<lambda>y. y \<le> byte_len pre) (after_newlines (byte_len pre) post) = []"
    using after_newlines_bounds [of _ "byte_len pre" post]
    by (cases "after_newlines (byte_len pre) post") force+
  ultimately show ?thesis by (simp add: after_newlines_append)
qed

text \<open>A search finds the last line start that is not behind the offset.\<close>

lemma binary_search_line:
  assumes "sorted_wrt (<) xs" "takeWhile (\<lambda>y. y \<le> x) xs = l @ [m]"
  shows "(case binary_search x xs of Inr i \<Rightarrow> i | Inl i \<Rightarrow> i - 1) = length l \<and> xs ! length l = m"
proof -
  obtain r where xs: "xs = l @ m # r"
    using takeWhile_dropWhile_id [of "\<lambda>y. y \<le> x" xs] assms(2) by (metis append.assoc append_Cons append_Nil)
  have m: "m \<le> x" and l: "\<forall>y \<in> set l. y < x"
    using set_takeWhileD [of _ "\<lambda>y. y \<le> x" xs] assms unfolding xs
    by (auto simp: sorted_wrt_append) (metis in_set_conv_decomp order_less_le_trans)
  have r: "r = [] \<or> x < hd r"
  proof (cases r)
    case (Cons y ys)
    have "\<not> y \<le> x"
    proof
      assume "y \<le> x"
      with m l have "\<forall>z \<in> set (l @ [m, y]). z \<le> x" by auto
      then have "takeWhile (\<lambda>y. y \<le> x) xs = l @ m # y # takeWhile (\<lambda>y. y \<le> x) ys"
        unfolding xs Cons using takeWhile_append2 [of "l @ [m, y]" "\<lambda>y. y \<le> x" ys] by simp
      with assms(2) show False by simp
    qed
    with Cons show ?thesis by simp
  qed simp
  have "takeWhile (\<lambda>y. y < x) xs = l @ (if m < x then m # takeWhile (\<lambda>y. y < x) r else [])"
    unfolding xs using l by (simp add: takeWhile_append2)
  moreover have "takeWhile (\<lambda>y. y < x) r = []"
    using r by (cases r) auto
  ultimately have take: "takeWhile (\<lambda>y. y < x) xs = (if m < x then l @ [m] else l)" by simp
  have next_not: "r ! 0 \<noteq> x" if "r \<noteq> []" using r that by (auto simp: hd_conv_nth)
  show ?thesis
  proof (cases "m < x")
    case True
    with next_not show ?thesis
      unfolding binary_search_def take by (cases r) (simp_all add: xs nth_append)
  next
    case False
    with m show ?thesis unfolding binary_search_def take by (simp add: xs nth_append)
  qed
qed

lemma sorted_after_newlines: "sorted_wrt (<) (after_newlines i s)"
proof (induction s arbitrary: i)
  case (Cons c s)
  have "i + 1 < n" if "n \<in> set (after_newlines (i + utf8_len c) s)" for n
    using after_newlines_bounds [OF that] utf8_len_pos(1) [of c] by linarith
  with Cons show ?case by auto
qed simp

lemma source_span_correct:
  "source_span (provider_from_input (pre @ post)) (byte_len pre) =
     \<lparr>span_line = 1 + newlines pre, span_column = Some (1 + length (last_line pre))\<rparr>"
proof -
  obtain a where pre: "pre = a @ last_line pre" and a: "a = [] \<or> (\<exists>b. a = b @ [CHR 0x0A])"
    and nonl: "CHR 0x0A \<notin> set (last_line pre)" by (rule split_last_line)
  have none: "after_newlines i (last_line pre) = []" for i
    using length_after_newlines [of i "last_line pre"] nonl by (simp add: newlines_def count_list_0_iff)
  have "\<exists>l. 0 # after_newlines 0 pre = l @ [byte_len a]"
    using a by (subst pre) (auto simp: after_newlines_append none)
  then obtain l where l: "0 # after_newlines 0 pre = l @ [byte_len a]" by blast
  have len: "length l = newlines pre"
    using arg_cong [OF l, of length] by (simp add: length_after_newlines)
  let ?starts = "0 # after_newlines 0 (pre @ post)"
  have "sorted_wrt (<) ?starts"
    using sorted_after_newlines after_newlines_bounds by fastforce
  from binary_search_line [OF this, of "byte_len pre" l "byte_len a"]
  have search: "(case binary_search (byte_len pre) ?starts of Inr i \<Rightarrow> i | Inl i \<Rightarrow> i - 1) = newlines pre"
    and start: "?starts ! newlines pre = byte_len a"
    by (simp_all add: line_starts_before l len del: takeWhile.simps)
  have "str_get (pre @ post) (byte_len a) (byte_len pre) = Some (last_line pre)"
    using str_get_parts [of a "last_line pre" post] pre by (metis append.assoc byte_len_simps(3))
  then show ?thesis
    unfolding source_span_def provider_from_input_def Let_def
    by (simp only: source_span_provider.simps search start) simp
qed

text \<open>A document inside another one: an offset provider reports positions in the outer document.\<close>

lemma offset_span_correct:
  "offset_span (byte_len before) (source_span (provider_from_input (before @ pre @ post))) (byte_len pre) =
     \<lparr>span_line = 1 + newlines (before @ pre), span_column = Some (1 + length (last_line (before @ pre)))\<rparr>"
  using source_span_correct [of "before @ pre" post] by (simp add: offset_span_def)

text \<open>The span of a byte offset is one plus the number of line feeds before it and one plus the
  number of characters since the last of them, also for a document embedded in an outer one, whose
  spans are those of the outer document.\<close>

theorem span_is_line_and_column:
  "offset_span (byte_len before) (source_span (provider_from_input (before @ pre @ post))) (byte_len pre) =
     source_span (provider_from_input (before @ pre @ post)) (byte_len (before @ pre)) \<and>
   source_span (provider_from_input (pre @ post)) (byte_len pre) =
     \<lparr>span_line = 1 + count_list pre (CHR 0x0A),
      span_column = Some (1 + length (takeWhile (\<lambda>c. c \<noteq> CHR 0x0A) (rev pre)))\<rparr>"
  using source_span_correct [of "before @ pre" post] source_span_correct [of pre post]
  by (simp add: offset_span_correct newlines_def last_line_def)

end
