(* ===== verification/Srcset.thy ===== *)
theory Srcset
  imports Prelude
begin

text \<open>
  The URLs of a \<open>srcset\<close> attribute (\<open>lychee-lib/src/extract/html/srcset.rs\<close>).
\<close>

section \<open>The parser\<close>

datatype srcset_state = InsideDescriptor | AfterDescriptor | InsideParens

definition split_at :: "string \<Rightarrow> (char \<Rightarrow> bool) \<Rightarrow> string \<times> string" where
  "split_at input p = (takeWhile p input, dropWhile p input)"

fun skip_descriptor_from :: "srcset_state \<Rightarrow> string \<Rightarrow> string" where
  "skip_descriptor_from st [] = []"
| "skip_descriptor_from InsideDescriptor (c # cs) =
     (if is_ascii_whitespace c then skip_descriptor_from AfterDescriptor cs
      else if c = CHR ''('' then skip_descriptor_from InsideParens cs
      else if c = CHR '','' then cs
      else skip_descriptor_from InsideDescriptor cs)"
| "skip_descriptor_from InsideParens (c # cs) =
     (if c = CHR '')'' then skip_descriptor_from InsideDescriptor cs
      else skip_descriptor_from InsideParens cs)"
| "skip_descriptor_from AfterDescriptor (c # cs) =
     (if is_ascii_whitespace c then skip_descriptor_from AfterDescriptor cs
      else skip_descriptor_from InsideDescriptor cs)"

definition skip_descriptor :: "string \<Rightarrow> string" where
  "skip_descriptor remaining = skip_descriptor_from InsideDescriptor remaining"

definition parse_one_url :: "string \<Rightarrow> string + string \<times> string option" where
  "parse_one_url remaining =
     (let (start, remaining) = split_at remaining (\<lambda>c. c = CHR '','' \<or> is_ascii_whitespace c) in
      if CHR '','' \<in> set start then Inl ''srcset parse error (too many commas)''
      else if remaining = [] then Inr ([], None)
      else
        let (url, remaining) = split_at remaining (\<lambda>c. \<not> is_ascii_whitespace c);
            comma_count = length (takeWhile (\<lambda>c. c = CHR '','') (rev url))
        in if comma_count > 1 then Inl ''srcset parse error (trailing commas)''
           else
             let url = take (length url - comma_count) url;
                 (_, remaining) = split_at remaining is_ascii_whitespace
             in Inr (skip_descriptor remaining, Some url))"

lemma length_skip_descriptor_from: "length (skip_descriptor_from st s) \<le> length s"
  by (induction st s rule: skip_descriptor_from.induct) auto

lemma parse_one_url_shorter:
  assumes "parse_one_url s = Inr (rest, url)" "s \<noteq> []"
  shows "length rest < length s"
proof -
  let ?skip = "\<lambda>c. c = CHR '','' \<or> is_ascii_whitespace c"
  let ?r = "dropWhile ?skip s"
  show ?thesis
  proof (cases "?r = []")
    case True
    with assms show ?thesis by (auto simp: parse_one_url_def split_at_def split: if_splits)
  next
    case False
    then have "\<not> ?skip (hd ?r)" by (rule hd_dropWhile)
    then have "length (dropWhile (\<lambda>c. \<not> is_ascii_whitespace c) ?r) < length ?r"
      using False by (cases ?r) (auto simp: le_imp_less_Suc length_dropWhile_le)
    moreover have "length rest \<le> length (dropWhile is_ascii_whitespace
        (dropWhile (\<lambda>c. \<not> is_ascii_whitespace c) ?r))"
      using assms False
      by (auto simp: parse_one_url_def split_at_def skip_descriptor_def Let_def
          length_skip_descriptor_from split: if_splits)
    moreover have "length (dropWhile is_ascii_whitespace (dropWhile (\<lambda>c. \<not> is_ascii_whitespace c) ?r))
        \<le> length (dropWhile (\<lambda>c. \<not> is_ascii_whitespace c) ?r)"
      by (rule length_dropWhile_le)
    moreover have "length ?r \<le> length s" by (rule length_dropWhile_le)
    ultimately show ?thesis by linarith
  qed
qed

text \<open>The loop of \<open>parse\<close>, with the candidates collected so far.\<close>

function parse_candidates :: "string list \<Rightarrow> string \<Rightarrow> string list" where
  "parse_candidates candidates remaining =
     (if remaining = [] then candidates
      else case parse_one_url remaining of
          Inr (rem, None) \<Rightarrow> parse_candidates candidates rem
        | Inr (rem, Some url) \<Rightarrow> parse_candidates (candidates @ [url]) rem
        | Inl e \<Rightarrow> [])"
  by pat_completeness auto
termination
  by (relation "measure (\<lambda>(_, s). length s)") (auto intro: parse_one_url_shorter)

declare parse_candidates.simps [simp del]

definition srcset_parse :: "string \<Rightarrow> string list" where
  "srcset_parse input = parse_candidates [] input"

section \<open>Well-formed attributes\<close>

definition plain_url :: "string \<Rightarrow> bool" where
  "plain_url u \<longleftrightarrow> u \<noteq> [] \<and> (\<forall>c \<in> set u. \<not> is_ascii_whitespace c) \<and>
     hd u \<noteq> CHR '','' \<and> last u \<noteq> CHR '',''"

definition plain_descriptor :: "string \<Rightarrow> bool" where
  "plain_descriptor d \<longleftrightarrow> d \<noteq> [] \<and>
     (\<forall>c \<in> set d. \<not> is_ascii_whitespace c \<and> c \<noteq> CHR '','' \<and> c \<noteq> CHR ''('')"

definition spaces :: "string \<Rightarrow> bool" where
  "spaces s \<longleftrightarrow> (\<forall>c \<in> set s. is_ascii_whitespace c)"

lemma skip_plain_descriptor:
  "\<forall>c \<in> set d. \<not> is_ascii_whitespace c \<and> c \<noteq> CHR '','' \<and> c \<noteq> CHR ''('' \<Longrightarrow>
   skip_descriptor (d @ rest) = skip_descriptor rest"
  unfolding skip_descriptor_def by (induction d) auto

lemma skip_descriptor_comma [simp]: "skip_descriptor (CHR '','' # rest) = rest" "skip_descriptor [] = []"
  by (simp_all add: skip_descriptor_def is_ascii_whitespace_def)

lemma is_ascii_whitespace_chars [simp]:
  "is_ascii_whitespace (CHR '' '')" "\<not> is_ascii_whitespace (CHR '','')"
  by (simp_all add: is_ascii_whitespace_def)

lemma split_at_append:
  "(\<forall>c \<in> set a. P c) \<Longrightarrow> b = [] \<or> \<not> P (hd b) \<Longrightarrow> split_at (a @ b) P = (a, b)"
  by (cases b) (auto simp: split_at_def takeWhile_append2 dropWhile_append2
      takeWhile_eq_all_conv dropWhile_eq_Nil_conv)

text \<open>One URL, with at most one comma behind it, and what is skipped after it.\<close>

lemma parse_one_url_plain:
  assumes "plain_url u" "spaces sp" "k \<le> (1::nat)" "rest = [] \<or> is_ascii_whitespace (hd rest)"
  shows "parse_one_url (sp @ u @ replicate k (CHR '','') @ rest) =
    Inr (skip_descriptor (dropWhile is_ascii_whitespace rest), Some u)"
proof -
  let ?skip = "\<lambda>c. c = CHR '','' \<or> is_ascii_whitespace c"
  let ?u = "u @ replicate k (CHR '','')"
  from assms(1) have u: "u \<noteq> []" "\<forall>c \<in> set u. \<not> is_ascii_whitespace c" "hd u \<noteq> CHR '',''" "last u \<noteq> CHR '',''"
    by (auto simp: plain_url_def)
  have no_comma: "CHR '','' \<notin> set sp" using assms(2) by (auto simp: spaces_def)
  have 1: "split_at (sp @ u @ replicate k (CHR '','') @ rest) ?skip = (sp, u @ replicate k (CHR '','') @ rest)"
    using u assms(2) by (intro split_at_append) (auto simp: spaces_def hd_append)
  have 2: "split_at (u @ replicate k (CHR '','') @ rest) (\<lambda>c. \<not> is_ascii_whitespace c) = (?u, rest)"
    using u(2) assms(4) split_at_append [of ?u "\<lambda>c. \<not> is_ascii_whitespace c" rest]
    by (auto simp: set_replicate_conv_if)
  obtain u' c where "u = u' @ [c]" "c \<noteq> CHR '',''" using u(1,4) by (cases u rule: rev_cases) auto
  then have 3: "takeWhile (\<lambda>c. c = CHR '','') (replicate k (CHR '','') @ rev u) = replicate k (CHR '','')"
    using takeWhile_append2 [of "replicate k (CHR '','')" "\<lambda>c. c = CHR '',''" "c # rev u'"] by simp
  show ?thesis
    unfolding parse_one_url_def 1
    using assms(3) u(1) no_comma by (simp add: 2 3 Let_def) (simp add: split_at_def)
qed

text \<open>The text of a list of URLs with their descriptors.\<close>

definition srcset_show :: "(string \<times> string) list \<Rightarrow> string" where
  "srcset_show cands = join '', '' (map (\<lambda>(u, d). u @ CHR '' '' # d) cands)"

lemma parse_candidates_url:
  assumes "plain_url u" "plain_descriptor d" "spaces sp" "rest = [] \<or> hd rest = CHR '','' "
  shows "parse_candidates cs (sp @ u @ CHR '' '' # d @ rest) = parse_candidates (cs @ [u]) (tl rest)"
proof -
  have "dropWhile is_ascii_whitespace (CHR '' '' # d @ rest) = d @ rest"
    using assms(2) by (cases d) (auto simp: plain_descriptor_def)
  moreover have "skip_descriptor (d @ rest) = skip_descriptor rest"
    using assms(2) by (intro skip_plain_descriptor) (auto simp: plain_descriptor_def)
  moreover have "skip_descriptor rest = tl rest" using assms(4) by (cases rest) auto
  ultimately have "parse_one_url (sp @ u @ CHR '' '' # d @ rest) = Inr (tl rest, Some u)"
    using parse_one_url_plain [OF assms(1,3), of 0 "CHR '' '' # d @ rest"] by simp
  moreover have "sp @ u @ CHR '' '' # d @ rest \<noteq> []" by simp
  ultimately show ?thesis by (simp add: parse_candidates.simps [of cs])
qed

lemma parse_candidates_show:
  "\<forall>(u, d) \<in> set cands. plain_url u \<and> plain_descriptor d \<Longrightarrow> spaces sp \<Longrightarrow> cands \<noteq> [] \<Longrightarrow>
   parse_candidates cs (sp @ srcset_show cands) = cs @ map fst cands"
proof (induction cands arbitrary: cs sp)
  case (Cons c cands)
  obtain u d where c: "c = (u, d)" "plain_url u" "plain_descriptor d" using Cons.prems(1) by fastforce
  show ?case
  proof (cases "cands = []")
    case True
    then show ?thesis
      using parse_candidates_url [OF c(2,3) Cons.prems(2), of "[]" cs] c(1)
      by (simp add: srcset_show_def parse_candidates.simps)
  next
    case False
    have "srcset_show (c # cands) = u @ CHR '' '' # d @ '', '' @ srcset_show cands"
      using False c(1) by (simp add: srcset_show_def join_Cons)
    moreover have "parse_candidates (cs @ [u]) ('' '' @ srcset_show cands) = (cs @ [u]) @ map fst cands"
      using Cons.prems(1) False by (intro Cons.IH) (auto simp: spaces_def)
    ultimately show ?thesis
      using parse_candidates_url [OF c(2,3) Cons.prems(2), of "'', '' @ srcset_show cands" cs] c(1) by simp
  qed
qed simp

text \<open>An attribute that lists URLs with their descriptors gives exactly these URLs in order, commas
  inside the URLs included; but behind a URL that has no descriptor the next URL of the list is
  skipped as if it were one.\<close>

theorem srcset_urls:
  assumes "\<forall>(u, d) \<in> set cands. plain_url u \<and> plain_descriptor d"
    and "plain_url u0" "plain_descriptor u1" "plain_descriptor d1"
  shows "srcset_parse (srcset_show cands) = map fst cands \<and>
    srcset_parse (u0 @ '', '' @ u1 @ '' '' @ d1) = [u0]"
proof
  show "srcset_parse (srcset_show cands) = map fst cands"
  proof (cases "cands = []")
    case True
    then show ?thesis by (simp add: srcset_parse_def srcset_show_def parse_candidates.simps)
  next
    case False
    then show ?thesis
      using parse_candidates_show [OF assms(1), of "[]" "[]"] by (simp add: srcset_parse_def spaces_def)
  qed
next
  let ?rest = "'' '' @ u1 @ '' '' @ d1"
  have drop: "dropWhile is_ascii_whitespace ?rest = u1 @ CHR '' '' # d1"
    using assms(3) by (cases u1) (auto simp: plain_descriptor_def)
  have "skip_descriptor (u1 @ CHR '' '' # d1) = skip_descriptor (CHR '' '' # d1)"
    using assms(3) by (intro skip_plain_descriptor) (auto simp: plain_descriptor_def)
  also have "\<dots> = skip_descriptor (tl d1)"
    using assms(4) by (cases d1) (auto simp: skip_descriptor_def plain_descriptor_def)
  also have "\<dots> = []"
    using assms(4) skip_plain_descriptor [of "tl d1" "[]"] by (cases d1) (auto simp: plain_descriptor_def)
  finally have "skip_descriptor (u1 @ CHR '' '' # d1) = []" .
  with drop have "parse_one_url (u0 @ '','' @ ?rest) = Inr ([], Some u0)"
    using parse_one_url_plain [OF assms(2), of "[]" 1 ?rest] by (simp add: spaces_def)
  moreover have "u0 \<noteq> []" using assms(2) by (simp add: plain_url_def)
  ultimately show "srcset_parse (u0 @ '', '' @ u1 @ '' '' @ d1) = [u0]"
    by (simp add: srcset_parse_def parse_candidates.simps)
qed

theorem srcset_urls_witness:
  "srcset_parse ''a.png 1x, b,c.png 2x'' = [''a.png'', ''b,c.png''] \<and>
   srcset_parse ''a.png, b.png 2x'' = [''a.png'']"
  using srcset_urls [of "[(''a.png'', ''1x''), (''b,c.png'', ''2x'')]" "''a.png''" "''b.png''" "''2x''"]
  by (simp add: plain_url_def plain_descriptor_def is_ascii_whitespace_def srcset_show_def)

end
