(* ===== verification/Extract.thy ===== *)
theory Extract
  imports Spans Srcset
begin

text \<open>
  The links of plain text, style sheets and XML documents (\<open>lychee-lib/src/extract/plaintext.rs\<close>,
  \<open>css.rs\<close>, \<open>xml.rs\<close>) and what the HTML extractors share (\<open>extract/html/mod.rs\<close>).
\<close>

section \<open>The parsers of other crates\<close>

text \<open>
  The events of html5gum's callback emitter, the tokens of its default emitter, the events of
  quick\_xml with the attributes of an empty element, and one match of the regular expression for
  \<open>url()\<close> with its three groups.
\<close>

datatype html_event =
    OpenStartTag string
  | AttributeName string
  | AttributeValue string
  | CloseStartTag bool
  | EndTag string
  | StringEvent string
  | OtherHtmlEvent

datatype html_token = StartTagToken string | EndTagToken string | StringToken string | OtherToken

datatype xml_event =
    XmlStart string "string option" \<comment> \<open>what \<open>read_text\<close> gives for it\<close>
  | XmlEmpty string "(string \<times> string) list"
  | XmlEof
  | XmlOther
  | XmlError

text \<open>The tokens of html5ever, where a tag says whether it is an end tag and has its attributes.\<close>

datatype html5ever_token =
    CharacterTokens string
  | TagToken bool string "(string \<times> string) list"
  | OtherHtml5everToken

text \<open>
  The events of pulldown\_cmark.  A wiki link says whether it has a pothole, a heading may have an
  identifier of its own.
\<close>

datatype link_type =
    Inline | Reference | ReferenceUnknown | Collapsed | CollapsedUnknown | Shortcut
  | ShortcutUnknown | Autolink | Email | WikiLink bool

datatype md_event =
    StartLink link_type string
  | StartImage string
  | StartCodeBlock
  | EndCodeBlock
  | TextEvent string
  | StartHtmlBlock
  | EndHtmlBlock
  | HtmlEvent string
  | InlineHtmlEvent string
  | CodeEvent string
  | EndLink
  | StartHeading "string option"
  | EndHeading
  | OtherMdEvent

record css_capture =
  cc_double :: "string option"
  cc_single :: "string option"
  cc_unquoted :: "string option"
  cc_start :: nat

text \<open>
  The crates the extractors call.  Events come with the byte offset at which they start (of an
  XML event: the reader's position behind it).  A \<open>HashMap\<close> is iterated in an order of its own.
\<close>

record extract_env =
  xe_find_links :: "string \<Rightarrow> (string \<times> nat) list"
  xe_find_emails :: "string \<Rightarrow> string list"
  xe_css_captures :: "string \<Rightarrow> css_capture list"
  xe_html_events :: "string \<Rightarrow> (html_event \<times> nat) list"
  xe_html_tokens :: "string \<Rightarrow> html_token list"
  xe_html5ever_tokens :: "string \<Rightarrow> (html5ever_token \<times> nat) list" \<comment> \<open>with their line numbers\<close>
  xe_xml_events :: "string \<Rightarrow> (xml_event \<times> nat) list"
  xe_md_merged_events :: "string \<Rightarrow> (md_event \<times> nat) list" \<comment> \<open>with adjacent texts merged\<close>
  xe_md_events :: "string \<Rightarrow> md_event list"
  xe_hash_order :: "(string \<times> string \<times> nat) list \<Rightarrow> (string \<times> string \<times> nat) list"

section \<open>Plain text and style sheets\<close>

definition extract_plaintext :: "extract_env \<Rightarrow> string \<Rightarrow> span_provider \<Rightarrow> raw_uri list" where
  "extract_plaintext xe input sp =
     map (\<lambda>(s, start). \<lparr>raw_text = s, raw_element = None, raw_attribute = None, raw_span = sp start\<rparr>)
       (xe_find_links xe input)"

definition css_capture_url :: "span_provider \<Rightarrow> css_capture \<Rightarrow> raw_uri option" where
  "css_capture_url sp cap =
     (let captured = (case cc_double cap of Some m \<Rightarrow> Some m
           | None \<Rightarrow> (case cc_single cap of Some m \<Rightarrow> Some m | None \<Rightarrow> cc_unquoted cap))
      in case captured of
           None \<Rightarrow> None
         | Some m \<Rightarrow>
             let url = trim m in
             if url = [] then None
             else Some \<lparr>raw_text = url, raw_element = Some ''style'', raw_attribute = Some ''url'',
                    raw_span = sp (cc_start cap)\<rparr>)"

definition extract_css :: "extract_env \<Rightarrow> string \<Rightarrow> span_provider \<Rightarrow> raw_uri list" where
  "extract_css xe input sp = List.map_filter (css_capture_url sp) (xe_css_captures xe input)"

section \<open>XML\<close>

definition xml_link :: "string \<Rightarrow> string \<Rightarrow> string option \<Rightarrow> raw_uri_span \<Rightarrow> raw_uri list" where
  "xml_link element content attribute span =
     (if content \<noteq> [] \<and> element \<noteq> []
      then [\<lparr>raw_text = content, raw_element = Some element, raw_attribute = attribute, raw_span = span\<rparr>]
      else [])"

text \<open>The loop of \<open>extract_xml\<close>: \<open>unwrap\<close> panics on an event that is an error.\<close>

fun extract_xml_events :: "span_provider \<Rightarrow> raw_uri list \<Rightarrow> (xml_event \<times> nat) list \<Rightarrow> raw_uri list eval" where
  "extract_xml_events sp uris [] = Value uris"
| "extract_xml_events sp uris ((e, position) # es) =
     (case e of
        XmlError \<Rightarrow> Panic
      | XmlEof \<Rightarrow> Value uris
      | XmlOther \<Rightarrow> extract_xml_events sp uris es
      | XmlStart name inner \<Rightarrow>
          if name \<in> {''loc'', ''link''} then
            extract_xml_events sp
              (uris @ xml_link name (case inner of Some s \<Rightarrow> s | None \<Rightarrow> []) None (sp position)) es
          else extract_xml_events sp uris es
      | XmlEmpty name attrs \<Rightarrow>
          if name = ''link'' then
            extract_xml_events sp
              (uris @ concat (map (\<lambda>(k, v). if k = ''href'' then xml_link name v (Some ''href'') (sp position)
                 else []) attrs)) es
          else extract_xml_events sp uris es)"

definition extract_xml :: "extract_env \<Rightarrow> string \<Rightarrow> span_provider \<Rightarrow> raw_uri list eval" where
  "extract_xml xe input sp = extract_xml_events sp [] (xe_xml_events xe input)"

text \<open>What one event before the end contributes.\<close>

fun xml_event_links :: "span_provider \<Rightarrow> xml_event \<times> nat \<Rightarrow> raw_uri list" where
  "xml_event_links sp (XmlStart name inner, position) =
     (if name = ''loc'' \<or> name = ''link''
      then xml_link name (case inner of Some s \<Rightarrow> s | None \<Rightarrow> []) None (sp position) else [])"
| "xml_event_links sp (XmlEmpty name attrs, position) =
     (if name = ''link''
      then concat (map (\<lambda>(k, v). if k = ''href'' then xml_link name v (Some ''href'') (sp position) else [])
        attrs)
      else [])"
| "xml_event_links sp (_, position) = []"

lemma extract_xml_events_prefix:
  "\<forall>(e, _) \<in> set es. e \<noteq> XmlError \<and> e \<noteq> XmlEof \<Longrightarrow>
   extract_xml_events sp uris (es @ rest) =
     extract_xml_events sp (uris @ concat (map (xml_event_links sp) es)) rest"
proof (induction es arbitrary: uris)
  case (Cons ep es)
  obtain e p where ep: "ep = (e, p)" by force
  from Cons show ?case by (cases e) (auto simp: ep)
qed simp

text \<open>From XML exactly the text of the \<open>loc\<close> and \<open>link\<close> elements and the \<open>href\<close> attributes of
  empty \<open>link\<close> elements are taken, in document order, up to the end of the document; a document
  with a syntax error before its end gives no links but a panic, whatever was found before it.\<close>

theorem xml_links_or_panic:
  assumes "xe_xml_events xe input = es @ (last_event, position) # rest"
    and "\<forall>(e, _) \<in> set es. e \<noteq> XmlError \<and> e \<noteq> XmlEof"
  shows "(last_event = XmlEof \<longrightarrow>
      extract_xml xe input sp = Value (concat (map (xml_event_links sp) es))) \<and>
    (last_event = XmlError \<longrightarrow> extract_xml xe input sp = Panic)"
  by (auto simp: extract_xml_def assms(1) extract_xml_events_prefix [OF assms(2)])

text \<open>An environment for a document with the given events.\<close>

definition xml_document :: "(xml_event \<times> nat) list \<Rightarrow> extract_env" where
  "xml_document es = \<lparr>xe_find_links = \<lambda>_. [], xe_find_emails = \<lambda>_. [], xe_css_captures = \<lambda>_. [],
     xe_html_events = \<lambda>_. [], xe_html_tokens = \<lambda>_. [], xe_html5ever_tokens = \<lambda>_. [], xe_xml_events = \<lambda>_. es,
     xe_md_merged_events = \<lambda>_. [], xe_md_events = \<lambda>_. [], xe_hash_order = id\<rparr>"

theorem xml_links_or_panic_witness:
  "extract_xml (xml_document [(XmlStart ''loc'' (Some ''https://a.org''), 5), (XmlEof, 30)]) [] (\<lambda>n. \<lparr>span_line = 1, span_column = Some n\<rparr>) =
     Value [\<lparr>raw_text = ''https://a.org'', raw_element = Some ''loc'', raw_attribute = None,
       raw_span = \<lparr>span_line = 1, span_column = Some 5\<rparr>\<rparr>] \<and>
   extract_xml (xml_document [(XmlStart ''loc'' (Some ''https://a.org''), 5), (XmlError, 30)]) []
       (\<lambda>n. \<lparr>span_line = 1, span_column = Some n\<rparr>) = Panic"
  using xml_links_or_panic [of "xml_document [(XmlStart ''loc'' (Some ''https://a.org''), 5), (XmlEof, 30)]" "[]"
      "[(XmlStart ''loc'' (Some ''https://a.org''), 5)]" XmlEof 30 "[]" "\<lambda>n. \<lparr>span_line = 1, span_column = Some n\<rparr>"]
    xml_links_or_panic [of "xml_document [(XmlStart ''loc'' (Some ''https://a.org''), 5), (XmlError, 30)]" "[]"
      "[(XmlStart ''loc'' (Some ''https://a.org''), 5)]" XmlError 30 "[]" "\<lambda>n. \<lparr>span_line = 1, span_column = Some n\<rparr>"]
  by (simp add: xml_document_def xml_link_def)

section \<open>Shared by the HTML extractors\<close>

definition is_email_link :: "extract_env \<Rightarrow> string \<Rightarrow> bool" where
  "is_email_link xe input =
     (case xe_find_emails xe input of
        [] \<Rightarrow> False
      | email # _ \<Rightarrow> (if prefix ''mailto:'' input then drop 7 input else input) = email)"

definition is_verbatim_elem :: "string \<Rightarrow> bool" where
  "is_verbatim_elem name \<longleftrightarrow> name \<in> {''code'', ''kbd'', ''listing'', ''noscript'', ''plaintext'', ''pre'',
     ''samp'', ''script'', ''textarea'', ''var'', ''xmp''}"

end
