(* ===== verification/HtmlLinks.thy ===== *)
theory HtmlLinks
  imports Extract
begin

text \<open>
  The default HTML extractor (\<open>lychee-lib/src/extract/html/html5gum.rs\<close>): a state machine over the
  events of html5gum that collects the links and the fragments of a document.  What they are is stated for
  documents made of elements, scripts and style sheets, with text, comments, doctypes and errors anywhere.
\<close>

section \<open>The state machine\<close>

text \<open>
  The attributes of the current element are an association list in the order of their first
  value, each with the offset of that value.
\<close>

record link_extractor =
  le_links :: "raw_uri list"
  le_fragments :: "string set"
  le_include_verbatim :: bool
  le_current_element :: string
  le_current_attributes :: "(string \<times> string \<times> nat) list"
  le_current_attribute_name :: string
  le_verbatim_stack :: "string list" \<comment> \<open>the top first\<close>
  le_in_style_tag :: bool
  le_style_content :: string
  le_style_content_offset :: nat

definition extractor_new :: "bool \<Rightarrow> link_extractor" where
  "extractor_new include_verbatim = \<lparr>le_links = [], le_fragments = {},
     le_include_verbatim = include_verbatim, le_current_element = [], le_current_attributes = [],
     le_current_attribute_name = [], le_verbatim_stack = [], le_in_style_tag = False,
     le_style_content = [], le_style_content_offset = 0\<rparr>"

definition attribute :: "string \<Rightarrow> link_extractor \<Rightarrow> (string \<times> nat) option" where
  "attribute name le = map_of (le_current_attributes le) name"

definition attribute_value :: "string \<Rightarrow> link_extractor \<Rightarrow> string option" where
  "attribute_value name le = map_option fst (attribute name le)"

definition is_link_attribute :: "string \<Rightarrow> string \<Rightarrow> bool" where
  "is_link_attribute element attr \<longleftrightarrow>
     attr \<in> {''href'', ''src'', ''cite'', ''usemap''} \<or>
     (element, attr) \<in> {(''applet'', ''codebase''), (''body'', ''background''),
       (''button'', ''formaction''), (''command'', ''icon''), (''form'', ''action''),
       (''frame'', ''longdesc''), (''head'', ''profile''), (''html'', ''manifest''),
       (''iframe'', ''longdesc''), (''img'', ''longdesc''), (''input'', ''formaction''),
       (''object'', ''classid''), (''object'', ''codebase''), (''object'', ''data''),
       (''video'', ''poster'')}"

definition extract_urls_from_elem_attr ::
  "extract_env \<Rightarrow> span_provider \<Rightarrow> link_extractor \<Rightarrow> raw_uri list" where
  "extract_urls_from_elem_attr xe sp le =
     (let element = le_current_element le;
          from_srcset = (case attribute ''srcset'' le of
              None \<Rightarrow> []
            | Some (srcset, start) \<Rightarrow>
                map (\<lambda>url. \<lparr>raw_text = url, raw_element = Some element, raw_attribute = Some ''srcset'',
                  raw_span = sp start\<rparr>) (srcset_parse srcset))
      in from_srcset @
         map (\<lambda>(name, content, start). \<lparr>raw_text = content, raw_element = Some element,
             raw_attribute = Some name, raw_span = sp start\<rparr>)
           (filter (\<lambda>(name, _). is_link_attribute element name)
             (xe_hash_order xe (le_current_attributes le))))"

definition filter_verbatim_here :: "link_extractor \<Rightarrow> bool" where
  "filter_verbatim_here le \<longleftrightarrow> \<not> le_include_verbatim le \<and>
     (is_verbatim_elem (le_current_element le) \<or> le_verbatim_stack le \<noteq> [])"

definition ignored_rel :: "string \<Rightarrow> bool" where
  "ignored_rel rel \<longleftrightarrow> (\<exists>r \<in> set (split_on (CHR '','') rel).
     trim r \<in> {''nofollow'', ''preconnect'', ''dns-prefetch''})"

definition ignored_stylesheet :: "link_extractor \<Rightarrow> bool" where
  "ignored_stylesheet le \<longleftrightarrow>
     (case attribute_value ''href'' le of
        Some href \<Rightarrow> prefix ''/@'' href \<or> prefix ''@'' href
      | None \<Rightarrow> False) \<or>
     le_current_attribute_name le = ''disabled'' \<or> attribute_value ''disabled'' le \<noteq> None"

text \<open>The early returns of \<open>flush_links\<close>, in order.\<close>

definition flush_ignored :: "link_extractor \<Rightarrow> bool" where
  "flush_ignored le \<longleftrightarrow>
     filter_verbatim_here le \<or>
     (case attribute_value ''rel'' le of Some rel \<Rightarrow> ignored_rel rel | None \<Rightarrow> False) \<or>
     attribute_value ''prefix'' le \<noteq> None \<or>
     (case attribute_value ''rel'' le of
        Some rel \<Rightarrow> sublist ''stylesheet'' rel \<and> ignored_stylesheet le
      | None \<Rightarrow> False)"

definition keep_url :: "extract_env \<Rightarrow> raw_uri \<Rightarrow> bool" where
  "keep_url xe url \<longleftrightarrow>
     (let is_href = (raw_attribute url = Some ''href'') in
      \<not> is_email_link xe (raw_text url) \<or>
      (prefix ''mailto:'' (raw_text url) \<and> is_href) \<or> (prefix ''tel:'' (raw_text url) \<and> is_href))"

definition flush_links :: "extract_env \<Rightarrow> span_provider \<Rightarrow> link_extractor \<Rightarrow> link_extractor" where
  "flush_links xe sp le =
     (if flush_ignored le then le\<lparr>le_current_attributes := []\<rparr>
      else le\<lparr>le_links := le_links le @ filter (keep_url xe) (extract_urls_from_elem_attr xe sp le),
              le_fragments := le_fragments le \<union> set_option (attribute_value ''id'' le) \<union>
                set_option (attribute_value ''name'' le),
              le_current_attributes := []\<rparr>)"

text \<open>A further value of an attribute that is already there is appended to it.\<close>

fun push_attribute ::
  "string \<Rightarrow> string \<Rightarrow> nat \<Rightarrow> (string \<times> string \<times> nat) list \<Rightarrow> (string \<times> string \<times> nat) list" where
  "push_attribute name content start [] = [(name, content, start)]"
| "push_attribute name content start ((n, c, s) # attrs) =
     (if n = name then (n, c @ content, s) # attrs
      else (n, c, s) # push_attribute name content start attrs)"

definition on_open_start_tag :: "string \<Rightarrow> link_extractor \<Rightarrow> link_extractor" where
  "on_open_start_tag name le =
     (let le = le\<lparr>le_current_element := name\<rparr>;
          le = (if name = ''style'' then le\<lparr>le_in_style_tag := True, le_style_content := []\<rparr> else le)
      in if filter_verbatim_here le \<and> is_verbatim_elem name
         then le\<lparr>le_verbatim_stack := name # le_verbatim_stack le\<rparr> else le)"

definition on_close_start_tag ::
  "extract_env \<Rightarrow> span_provider \<Rightarrow> bool \<Rightarrow> link_extractor \<Rightarrow> link_extractor" where
  "on_close_start_tag xe sp self_closing le =
     (let le = flush_links xe sp le in
      if self_closing \<and> filter_verbatim_here le \<and> le_verbatim_stack le \<noteq> [] \<and>
         hd (le_verbatim_stack le) = le_current_element le
      then le\<lparr>le_verbatim_stack := tl (le_verbatim_stack le)\<rparr> else le)"

definition on_end_tag :: "extract_env \<Rightarrow> span_provider \<Rightarrow> string \<Rightarrow> link_extractor \<Rightarrow> link_extractor" where
  "on_end_tag xe sp name le =
     (let le = (if name = ''style'' \<and> le_in_style_tag le
            then le\<lparr>le_in_style_tag := False,
                    le_links := le_links le @ extract_css xe (le_style_content le)
                      (offset_span (le_style_content_offset le) sp),
                    le_style_content := []\<rparr>
            else le)
      in if \<not> le_include_verbatim le \<and> le_verbatim_stack le \<noteq> [] \<and> hd (le_verbatim_stack le) = name
         then le\<lparr>le_verbatim_stack := tl (le_verbatim_stack le)\<rparr> else le)"

definition on_string ::
  "extract_env \<Rightarrow> span_provider \<Rightarrow> string \<Rightarrow> nat \<Rightarrow> link_extractor \<Rightarrow> link_extractor" where
  "on_string xe sp v start le =
     (if le_in_style_tag le
      then le\<lparr>le_style_content_offset :=
                (if le_style_content le = [] then start else le_style_content_offset le),
              le_style_content := le_style_content le @ v\<rparr>
      else if \<not> filter_verbatim_here le
      then le\<lparr>le_links := le_links le @ extract_plaintext xe v (offset_span start sp)\<rparr>
      else le)"

fun handle_html_event ::
  "extract_env \<Rightarrow> span_provider \<Rightarrow> html_event \<times> nat \<Rightarrow> link_extractor \<Rightarrow> link_extractor" where
  "handle_html_event xe sp (OpenStartTag name, start) le = on_open_start_tag name le"
| "handle_html_event xe sp (AttributeName name, start) le = le\<lparr>le_current_attribute_name := name\<rparr>"
| "handle_html_event xe sp (AttributeValue v, start) le =
     le\<lparr>le_current_attributes :=
       push_attribute (le_current_attribute_name le) v start (le_current_attributes le)\<rparr>"
| "handle_html_event xe sp (CloseStartTag self_closing, start) le = on_close_start_tag xe sp self_closing le"
| "handle_html_event xe sp (EndTag name, start) le = on_end_tag xe sp name le"
| "handle_html_event xe sp (StringEvent v, start) le = on_string xe sp v start le"
| "handle_html_event xe sp (OtherHtmlEvent, start) le = le"

definition run_extractor ::
  "extract_env \<Rightarrow> span_provider \<Rightarrow> bool \<Rightarrow> string \<Rightarrow> link_extractor" where
  "run_extractor xe sp include_verbatim buf =
     fold (handle_html_event xe sp) (xe_html_events xe buf) (extractor_new include_verbatim)"

definition extract_html_with_span :: "extract_env \<Rightarrow> string \<Rightarrow> bool \<Rightarrow> span_provider \<Rightarrow> raw_uri list" where
  "extract_html_with_span xe buf include_verbatim sp =
     filter (\<lambda>link. raw_attribute link \<noteq> None \<or> include_verbatim)
       (le_links (run_extractor xe sp include_verbatim buf))"

definition extract_html :: "extract_env \<Rightarrow> string \<Rightarrow> bool \<Rightarrow> raw_uri list" where
  "extract_html xe buf include_verbatim =
     extract_html_with_span xe buf include_verbatim (source_span (provider_from_input buf))"

definition extract_html_fragments :: "extract_env \<Rightarrow> string \<Rightarrow> string set" where
  "extract_html_fragments xe buf =
     le_fragments (run_extractor xe (source_span (provider_from_input buf)) True buf)"

section \<open>Documents as lists of tags and text\<close>

text \<open>
  What a tokenizer makes of a document: start tags with their attributes (a value is missing where
  the document gives none), end tags and text, each with its offset, and style sheets as a whole, with the
  pieces of their text and the offset of their end tag.
\<close>

datatype html_item =
    Element string "(string \<times> string option \<times> nat) list" bool nat
  | Close string nat
  | Words string nat
  | StyleSheet "(string \<times> string option \<times> nat) list" bool nat "(string \<times> nat) list" nat

fun attribute_events :: "string \<times> string option \<times> nat \<Rightarrow> (html_event \<times> nat) list" where
  "attribute_events (name, None, start) = [(AttributeName name, start)]"
| "attribute_events (name, Some v, start) = [(AttributeName name, start), (AttributeValue v, start)]"

definition text_events :: "(string \<times> nat) list \<Rightarrow> (html_event \<times> nat) list" where
  "text_events pieces = map (\<lambda>(v, start). (StringEvent v, start)) pieces"

fun item_events :: "html_item \<Rightarrow> (html_event \<times> nat) list" where
  "item_events (Element name attrs self_closing start) =
     (OpenStartTag name, start) # concat (map attribute_events attrs) @ [(CloseStartTag self_closing, start)]"
| "item_events (Close name start) = [(EndTag name, start)]"
| "item_events (Words v start) = [(StringEvent v, start)]"
| "item_events (StyleSheet attrs self_closing start pieces close) =
     (OpenStartTag ''style'', start) # concat (map attribute_events attrs) @ (CloseStartTag self_closing, start) #
       text_events pieces @ [(EndTag ''style'', close)]"

lemma sheet_events: "item_events (StyleSheet attrs self_closing start pieces close) =
    item_events (Element ''style'' attrs self_closing start) @ text_events pieces @ [(EndTag ''style'', close)]"
  by simp

definition document_events :: "html_item list \<Rightarrow> (html_event \<times> nat) list" where
  "document_events items = concat (map item_events items)"

text \<open>
  The events of a document with these items.  Comments, doctypes and errors of the tokenizer may stand anywhere
  between, also inside of tags, and the document may end within a start tag.
\<close>

definition events_of :: "html_item list \<Rightarrow> (html_event \<times> nat) list \<Rightarrow> bool" where
  "events_of items events \<longleftrightarrow>
     (let relevant = filter (\<lambda>e. fst e \<noteq> OtherHtmlEvent) events in
      relevant = document_events items \<or>
      (\<exists>name attrs start. relevant =
         document_events items @ (OpenStartTag name, start) # concat (map attribute_events attrs)))"

fun collect_attribute ::
  "string \<times> string option \<times> nat \<Rightarrow> (string \<times> string \<times> nat) list \<Rightarrow> (string \<times> string \<times> nat) list" where
  "collect_attribute (name, None, start) as = as"
| "collect_attribute (name, Some v, start) as = push_attribute name v start as"

definition attributes_of :: "(string \<times> string option \<times> nat) list \<Rightarrow> (string \<times> string \<times> nat) list" where
  "attributes_of attrs = fold collect_attribute attrs []"

definition value_in :: "string \<Rightarrow> (string \<times> string option \<times> nat) list \<Rightarrow> string option" where
  "value_in name attrs = map_option fst (map_of (attributes_of attrs) name)"

text \<open>The elements whose attributes are passed over, whatever surrounds them.\<close>

definition element_skipped :: "(string \<times> string option \<times> nat) list \<Rightarrow> bool" where
  "element_skipped attrs \<longleftrightarrow> value_in ''prefix'' attrs \<noteq> None \<or>
     (case value_in ''rel'' attrs of None \<Rightarrow> False
      | Some rel \<Rightarrow> ignored_rel rel \<or>
          (sublist ''stylesheet'' rel \<and>
           ((case value_in ''href'' attrs of Some h \<Rightarrow> prefix ''/@'' h \<or> prefix ''@'' h | None \<Rightarrow> False) \<or>
            fst (last attrs) = ''disabled'' \<or> value_in ''disabled'' attrs \<noteq> None)))"

lemma run_attributes:
  "fold (handle_html_event xe sp) (concat (map attribute_events attrs)) le =
     le\<lparr>le_current_attributes := fold collect_attribute attrs (le_current_attributes le),
        le_current_attribute_name := (if attrs = [] then le_current_attribute_name le else fst (last attrs))\<rparr>"
proof (induction attrs arbitrary: le)
  case (Cons a attrs)
  obtain name v start where a: "a = (name, v, start)" by (cases a)
  show ?case
  proof (cases v)
    case None
    then show ?thesis by (simp add: a Cons.IH)
  next
    case (Some x)
    then show ?thesis by (simp add: a Cons.IH)
  qed
qed simp

lemma attributes_of_Nil [simp]: "attributes_of [] = []" "value_in n [] = None"
  by (simp_all add: attributes_of_def value_in_def)

lemma flush_keeps [simp]:
  "le_include_verbatim (flush_links xe sp le) = le_include_verbatim le"
  "le_current_element (flush_links xe sp le) = le_current_element le"
  "le_current_attributes (flush_links xe sp le) = []"
  "le_verbatim_stack (flush_links xe sp le) = le_verbatim_stack le"
  "le_in_style_tag (flush_links xe sp le) = le_in_style_tag le"
  by (simp_all add: flush_links_def)

lemma open_simps [simp]:
  "le_include_verbatim (on_open_start_tag name le) = le_include_verbatim le"
  "le_current_attributes (on_open_start_tag name le) = le_current_attributes le"
  "le_current_attribute_name (on_open_start_tag name le) = le_current_attribute_name le"
  "le_fragments (on_open_start_tag name le) = le_fragments le"
  "le_links (on_open_start_tag name le) = le_links le"
  "le_current_element (on_open_start_tag name le) = name"
  "le_verbatim_stack (on_open_start_tag name le) =
     (if \<not> le_include_verbatim le \<and> is_verbatim_elem name then name # le_verbatim_stack le
      else le_verbatim_stack le)"
  "le_in_style_tag (on_open_start_tag name le) \<longleftrightarrow> name = ''style'' \<or> le_in_style_tag le"
  by (simp_all add: on_open_start_tag_def Let_def filter_verbatim_here_def)

lemma close_simps [simp]:
  "le_include_verbatim (on_close_start_tag xe sp c le) = le_include_verbatim le"
  "le_current_attributes (on_close_start_tag xe sp c le) = []"
  "le_fragments (on_close_start_tag xe sp c le) = le_fragments (flush_links xe sp le)"
  "le_links (on_close_start_tag xe sp c le) = le_links (flush_links xe sp le)"
  "le_current_element (on_close_start_tag xe sp c le) = le_current_element le"
  "le_in_style_tag (on_close_start_tag xe sp c le) = le_in_style_tag le"
  by (simp_all add: on_close_start_tag_def Let_def)

lemma end_simps [simp]:
  "le_include_verbatim (on_end_tag xe sp name le) = le_include_verbatim le"
  "le_current_attributes (on_end_tag xe sp name le) = le_current_attributes le"
  "le_fragments (on_end_tag xe sp name le) = le_fragments le"
  "le_current_element (on_end_tag xe sp name le) = le_current_element le"
  "name \<noteq> ''style'' \<or> \<not> le_in_style_tag le \<Longrightarrow> le_links (on_end_tag xe sp name le) = le_links le"
  "le_in_style_tag (on_end_tag xe sp name le) \<longleftrightarrow> name \<noteq> ''style'' \<and> le_in_style_tag le"
  by (auto simp: on_end_tag_def Let_def)

lemma string_simps [simp]:
  "le_include_verbatim (on_string xe sp v start le) = le_include_verbatim le"
  "le_current_attributes (on_string xe sp v start le) = le_current_attributes le"
  "le_fragments (on_string xe sp v start le) = le_fragments le"
  "le_current_element (on_string xe sp v start le) = le_current_element le"
  "le_verbatim_stack (on_string xe sp v start le) = le_verbatim_stack le"
  "le_in_style_tag (on_string xe sp v start le) = le_in_style_tag le"
  by (simp_all add: on_string_def)

text \<open>A start tag: its attributes are collected before it is flushed.\<close>

definition with_attributes ::
  "string \<Rightarrow> (string \<times> string option \<times> nat) list \<Rightarrow> link_extractor \<Rightarrow> link_extractor" where
  "with_attributes name attrs le =
     (on_open_start_tag name le)\<lparr>le_current_attributes := attributes_of attrs,
       le_current_attribute_name := (if attrs = [] then le_current_attribute_name le else fst (last attrs))\<rparr>"

lemma run_element:
  assumes "le_current_attributes le = []"
  shows "fold (handle_html_event xe sp) (item_events (Element name attrs self_closing start)) le =
    on_close_start_tag xe sp self_closing (with_attributes name attrs le)"
  using assms by (simp add: run_attributes attributes_of_def with_attributes_def)

lemma step_keeps_include [simp]:
  "le_include_verbatim (handle_html_event xe sp e le) = le_include_verbatim le"
  by (induction xe sp e le rule: handle_html_event.induct) simp_all

lemma run_keeps_include [simp]:
  "le_include_verbatim (fold (handle_html_event xe sp) es le) = le_include_verbatim le"
  by (induction es arbitrary: le) simp_all

lemma run_text [simp]:
  "le_current_attributes (fold (handle_html_event xe sp) (text_events pieces) le) = le_current_attributes le"
  "le_fragments (fold (handle_html_event xe sp) (text_events pieces) le) = le_fragments le"
  "le_verbatim_stack (fold (handle_html_event xe sp) (text_events pieces) le) = le_verbatim_stack le"
  "le_in_style_tag (fold (handle_html_event xe sp) (text_events pieces) le) = le_in_style_tag le"
  by (induction pieces arbitrary: le) (auto simp: text_events_def)

lemma item_keeps_attributes:
  assumes "le_current_attributes le = []"
  shows "le_current_attributes (fold (handle_html_event xe sp) (item_events i) le) = []"
proof (cases i)
  case (Element name attrs self_closing start)
  from run_element [OF assms] show ?thesis by (simp add: Element)
next
  case (StyleSheet attrs self_closing start pieces close)
  from run_element [OF assms] show ?thesis by (simp add: StyleSheet sheet_events del: item_events.simps)
qed (simp_all add: assms)

text \<open>Events that are passed over, and a start tag at the end that is not complete, change nothing.\<close>

lemma run_relevant:
  "fold (handle_html_event xe sp) events le = fold (handle_html_event xe sp) (filter (\<lambda>e. fst e \<noteq> OtherHtmlEvent) events) le"
proof (induction events arbitrary: le)
  case (Cons e events)
  obtain ev start where e: "e = (ev, start)" by (cases e)
  show ?case
  proof (cases "ev = OtherHtmlEvent")
    case True
    then show ?thesis by (simp add: e Cons [of le])
  next
    case False
    then show ?thesis by (simp add: e Cons)
  qed
qed simp

lemma run_document:
  assumes "events_of items events"
  shows "le_links (fold (handle_html_event xe sp) events le) = le_links (fold (handle_html_event xe sp) (document_events items) le)"
    and "le_fragments (fold (handle_html_event xe sp) events le) = le_fragments (fold (handle_html_event xe sp) (document_events items) le)"
proof -
  let ?run = "fold (handle_html_event xe sp)"
  from assms consider "?run events le = ?run (document_events items) le"
    | name attrs start where "?run events le =
        ?run ((OpenStartTag name, start) # concat (map attribute_events attrs)) (?run (document_events items) le)"
    unfolding events_of_def Let_def by (metis run_relevant fold_append comp_apply)
  then have "le_links (?run events le) = le_links (?run (document_events items) le) \<and>
      le_fragments (?run events le) = le_fragments (?run (document_events items) le)"
    by cases (simp_all add: run_attributes)
  then show "le_links (?run events le) = le_links (?run (document_events items) le)"
    and "le_fragments (?run events le) = le_fragments (?run (document_events items) le)" by simp_all
qed

lemma attribute_value_with [simp]: "attribute_value n (with_attributes name attrs le) = value_in n attrs"
  by (simp add: attribute_value_def attribute_def value_in_def with_attributes_def)

lemma flush_ignored_with:
  "flush_ignored (with_attributes name attrs le) \<longleftrightarrow>
     filter_verbatim_here (with_attributes name attrs le) \<or> element_skipped attrs"
proof (cases "attrs = []")
  case True
  then show ?thesis by (simp add: flush_ignored_def element_skipped_def)
next
  case False
  then have "le_current_attribute_name (with_attributes name attrs le) = fst (last attrs)"
    by (simp add: with_attributes_def)
  then show ?thesis
    by (auto simp: flush_ignored_def element_skipped_def ignored_stylesheet_def split: option.split)
qed

lemma with_simps [simp]:
  "le_include_verbatim (with_attributes name attrs le) = le_include_verbatim le"
  "le_current_attributes (with_attributes name attrs le) = attributes_of attrs"
  "le_fragments (with_attributes name attrs le) = le_fragments le"
  "le_links (with_attributes name attrs le) = le_links le"
  "le_current_element (with_attributes name attrs le) = name"
  "le_verbatim_stack (with_attributes name attrs le) = le_verbatim_stack (on_open_start_tag name le)"
  "le_in_style_tag (with_attributes name attrs le) \<longleftrightarrow> name = ''style'' \<or> le_in_style_tag le"
  by (simp_all add: with_attributes_def)

section \<open>Fragments\<close>

definition tag_fragments :: "(string \<times> string option \<times> nat) list \<Rightarrow> string set" where
  "tag_fragments attrs =
     (if element_skipped attrs then {}
      else set_option (value_in ''id'' attrs) \<union> set_option (value_in ''name'' attrs))"

text \<open>The attributes of the start tag of an item.\<close>

fun tag_attributes :: "html_item \<Rightarrow> (string \<times> string option \<times> nat) list option" where
  "tag_attributes (Element name attrs self_closing start) = Some attrs"
| "tag_attributes (StyleSheet attrs self_closing start pieces close) = Some attrs"
| "tag_attributes _ = None"

definition item_fragments :: "html_item \<Rightarrow> string set" where
  "item_fragments i = (case tag_attributes i of None \<Rightarrow> {} | Some attrs \<Rightarrow> tag_fragments attrs)"

lemma run_element_fragments:
  assumes "le_current_attributes le = []" "le_include_verbatim le"
  shows "le_fragments (fold (handle_html_event xe sp) (item_events (Element name attrs self_closing start)) le) =
    le_fragments le \<union> tag_fragments attrs"
  using assms(2) unfolding run_element [OF assms(1)]
  by (simp add: flush_links_def flush_ignored_with filter_verbatim_here_def tag_fragments_def Un_assoc)

lemma run_item_fragments:
  assumes "le_current_attributes le = []" "le_include_verbatim le"
  shows "le_fragments (fold (handle_html_event xe sp) (item_events i) le) = le_fragments le \<union> item_fragments i"
proof (cases i)
  case (Element name attrs self_closing start)
  from run_element_fragments [OF assms] show ?thesis by (simp add: Element item_fragments_def del: item_events.simps)
next
  case (StyleSheet attrs self_closing start pieces close)
  from run_element_fragments [OF assms] show ?thesis
    by (simp add: StyleSheet sheet_events item_fragments_def del: item_events.simps)
qed (simp_all add: item_fragments_def)

lemma run_items_fragments:
  "le_current_attributes le = [] \<Longrightarrow> le_include_verbatim le \<Longrightarrow>
   le_fragments (fold (handle_html_event xe sp) (document_events items) le) =
     le_fragments le \<union> (\<Union>i \<in> set items. item_fragments i)"
  by (induction items arbitrary: le)
    (simp_all add: document_events_def run_item_fragments item_keeps_attributes Un_assoc del: item_events.simps)

text \<open>C31: The fragments of an HTML document are exactly the values of the \<open>id\<close> and \<open>name\<close> attributes of
  those of its elements that are not passed over: an element with \<open>rel=nofollow\<close>, \<open>preconnect\<close> or
  \<open>dns-prefetch\<close>, with a \<open>prefix\<close> attribute, or a disabled or virtual style sheet, loses its
  fragments together with its links.  This holds for every document that the tokenizer takes for start tags, end tags and
  texts, with comments, doctypes and errors anywhere between, and also if it ends within a start tag.\<close>

theorem html_fragments_of_elements:
  assumes "events_of items (xe_html_events xe buf)"
  shows "extract_html_fragments xe buf =
    {v. \<exists>i attrs. i \<in> set items \<and> tag_attributes i = Some attrs \<and>
        \<not> element_skipped attrs \<and> (value_in ''id'' attrs = Some v \<or> value_in ''name'' attrs = Some v)}"
proof -
  have "extract_html_fragments xe buf = (\<Union>i \<in> set items. item_fragments i)"
    by (simp add: extract_html_fragments_def run_extractor_def run_document [OF assms] run_items_fragments extractor_new_def)
  moreover have "v \<in> item_fragments i \<longleftrightarrow> (\<exists>attrs. tag_attributes i = Some attrs \<and> \<not> element_skipped attrs \<and>
      (value_in ''id'' attrs = Some v \<or> value_in ''name'' attrs = Some v))" for v i
    by (auto simp: item_fragments_def tag_fragments_def split: option.splits if_splits)
  ultimately show ?thesis by blast
qed

text \<open>An environment whose tokenizer knows the given documents.\<close>

definition documents :: "(string \<times> html_item list) list \<Rightarrow> extract_env" where
  "documents ds = (xml_document [])\<lparr>xe_html_events := (\<lambda>buf.
     case map_of ds buf of Some items \<Rightarrow> document_events items | None \<Rightarrow> [])\<rparr>"

lemmas evaluate_elements = element_skipped_def value_in_def attributes_of_def ignored_rel_def
  trim_by_def is_whitespace_def

lemma documents_events [simp]: "map_of ds buf = Some items \<Longrightarrow> xe_html_events (documents ds) buf = document_events items"
  by (simp add: documents_def)

lemma attribute_events_relevant: "filter (\<lambda>e. fst e \<noteq> OtherHtmlEvent) (attribute_events a) = attribute_events a"
  by (induction a rule: attribute_events.induct) simp_all

lemma document_relevant: "filter (\<lambda>e. fst e \<noteq> OtherHtmlEvent) (document_events items) = document_events items"
proof -
  have "filter (\<lambda>e. fst e \<noteq> OtherHtmlEvent) (concat (map attribute_events attrs)) = concat (map attribute_events attrs)" for attrs
    by (induction attrs) (simp_all add: attribute_events_relevant)
  moreover have "filter (\<lambda>e. fst e \<noteq> OtherHtmlEvent) (text_events pieces) = text_events pieces" for pieces
    by (induction pieces) (auto simp: text_events_def)
  ultimately have "filter (\<lambda>e. fst e \<noteq> OtherHtmlEvent) (item_events i) = item_events i" for i by (cases i) simp_all
  then show ?thesis by (induction items) (simp_all add: document_events_def del: item_events.simps)
qed

lemma events_of_document [simp]: "events_of items (document_events items)"
  by (simp add: events_of_def document_relevant)

text \<open>A page that begins with a doctype.\<close>

theorem html_fragments_of_elements_witness:
  "let items = [Element ''a'' [(''id'', Some ''x'', 18), (''rel'', Some ''nofollow'', 25)] False 15, Element ''h1'' [(''id'', Some ''y'', 44)] False 40]
   in extract_html_fragments ((documents [])\<lparr>xe_html_events := (\<lambda>_. (OtherHtmlEvent, 0) # document_events items)\<rparr>) ''d'' = {''y''}"
proof -
  let ?items = "[Element ''a'' [(''id'', Some ''x'', 18), (''rel'', Some ''nofollow'', 25)] False 15, Element ''h1'' [(''id'', Some ''y'', 44)] False 40]"
  let ?xe = "(documents [])\<lparr>xe_html_events := (\<lambda>_. (OtherHtmlEvent, 0) # document_events ?items)\<rparr>"
  have "events_of ?items (xe_html_events ?xe ''d'')"
    by (simp add: events_of_def document_relevant del: item_events.simps)
  note fragments = html_fragments_of_elements [OF this]
  have "element_skipped [(''id'', Some ''x'', 18), (''rel'', Some ''nofollow'', 25)]"
    and "\<not> element_skipped [(''id'', Some ''y'', 44)]"
    and "value_in ''id'' [(''id'', Some ''y'', 44)] = Some ''y''"
    and "value_in ''name'' [(''id'', Some ''y'', 44)] = None"
    by (simp_all add: evaluate_elements)
  then show ?thesis
    unfolding Let_def fragments
    by (simp only: list.set insert_iff empty_iff conj_disj_distribR ex_disj_distrib simp_thms ex_simps option.sel option.inject
        tag_attributes.simps option.distinct Collect_disj_eq) simp
qed

section \<open>Links\<close>

definition element_urls ::
  "extract_env \<Rightarrow> span_provider \<Rightarrow> string \<Rightarrow> (string \<times> string option \<times> nat) list \<Rightarrow> raw_uri list" where
  "element_urls xe sp name attrs = extract_urls_from_elem_attr xe sp
     ((extractor_new True)\<lparr>le_current_element := name, le_current_attributes := attributes_of attrs\<rparr>)"

lemma urls_with [simp]:
  "extract_urls_from_elem_attr xe sp (with_attributes name attrs le) = element_urls xe sp name attrs"
  by (simp add: element_urls_def extract_urls_from_elem_attr_def attribute_def Let_def)

definition tag_links ::
  "extract_env \<Rightarrow> span_provider \<Rightarrow> string \<Rightarrow> (string \<times> string option \<times> nat) list \<Rightarrow> raw_uri list" where
  "tag_links xe sp name attrs =
     (if element_skipped attrs then [] else filter (keep_url xe) (element_urls xe sp name attrs))"

text \<open>The text of a style sheet begins where the first piece that is not empty does.\<close>

definition sheet_start :: "(string \<times> nat) list \<Rightarrow> nat" where
  "sheet_start pieces = snd (hd (dropWhile (\<lambda>(v, _). v = []) pieces))"

definition sheet_text :: "(string \<times> nat) list \<Rightarrow> string" where
  "sheet_text pieces = concat (map fst pieces)"

fun sheet_links :: "extract_env \<Rightarrow> span_provider \<Rightarrow> html_item \<Rightarrow> raw_uri list" where
  "sheet_links xe sp (StyleSheet attrs self_closing start pieces close) =
     extract_css xe (sheet_text pieces) (offset_span (sheet_start pieces) sp)"
| "sheet_links xe sp _ = []"

text \<open>
  The links of an item where the verbatim elements on the stack are open: with \<open>b\<close> verbatim elements and
  texts are included.
\<close>

definition shown_tag :: "bool \<Rightarrow> string list \<Rightarrow> string \<Rightarrow> bool" where
  "shown_tag b stack name \<longleftrightarrow> b \<or> (stack = [] \<and> \<not> is_verbatim_elem name)"

fun shown_links :: "extract_env \<Rightarrow> span_provider \<Rightarrow> bool \<Rightarrow> string list \<Rightarrow> html_item \<Rightarrow> raw_uri list" where
  "shown_links xe sp b stack (Element name attrs self_closing start) =
     (if shown_tag b stack name then tag_links xe sp name attrs else [])"
| "shown_links xe sp b stack (StyleSheet attrs self_closing start pieces close) =
     (if shown_tag b stack ''style'' then tag_links xe sp ''style'' attrs else []) @
     sheet_links xe sp (StyleSheet attrs self_closing start pieces close)"
| "shown_links xe sp b stack (Words v start) = (if b then extract_plaintext xe v (offset_span start sp) else [])"
| "shown_links xe sp b stack (Close name start) = []"

fun open_after :: "bool \<Rightarrow> html_item \<Rightarrow> string list \<Rightarrow> string list" where
  "open_after b (Element name attrs self_closing start) stack =
     (if \<not> b \<and> is_verbatim_elem name \<and> \<not> self_closing then name # stack else stack)"
| "open_after b (Close name start) stack = (if stack \<noteq> [] \<and> hd stack = name then tl stack else stack)"
| "open_after b _ stack = stack"

fun document_links :: "extract_env \<Rightarrow> span_provider \<Rightarrow> bool \<Rightarrow> string list \<Rightarrow> html_item list \<Rightarrow> raw_uri list" where
  "document_links xe sp b stack [] = []"
| "document_links xe sp b stack (i # items) =
     shown_links xe sp b stack i @ document_links xe sp b (open_after b i stack) items"

text \<open>Style elements are whole style sheets.\<close>

fun proper_item :: "html_item \<Rightarrow> bool" where
  "proper_item (Element name attrs self_closing start) \<longleftrightarrow> name \<noteq> ''style''"
| "proper_item _ \<longleftrightarrow> True"

definition reported :: "bool \<Rightarrow> raw_uri list \<Rightarrow> raw_uri list" where
  "reported include_verbatim = filter (\<lambda>link. raw_attribute link \<noteq> None \<or> include_verbatim)"

lemma reported_append [simp]:
  "reported b (xs @ ys) = reported b xs @ reported b ys" "reported b [] = []"
  by (simp_all add: reported_def)

lemma element_urls_attribute: "u \<in> set (element_urls xe sp name attrs) \<Longrightarrow> raw_attribute u \<noteq> None"
  by (auto simp: element_urls_def extract_urls_from_elem_attr_def Let_def split: option.splits)

lemma reported_tag_links [simp]: "reported b (tag_links xe sp name attrs) = tag_links xe sp name attrs"
  unfolding reported_def tag_links_def
  by (auto simp: filter_filter dest: element_urls_attribute intro!: filter_cong)

lemma reported_plaintext [simp]: "reported b (extract_plaintext xe v sp) =
    (if b then extract_plaintext xe v sp else [])"
  by (auto simp: reported_def extract_plaintext_def filter_id_conv filter_empty_conv)

lemma reported_css [simp]: "reported b (extract_css xe s sp) = extract_css xe s sp"
  by (auto simp: reported_def extract_css_def filter_id_conv List.map_filter_def css_capture_url_def Let_def
      split: option.splits if_splits)

text \<open>What the extractor keeps between items.\<close>

definition between_items :: "bool \<Rightarrow> string list \<Rightarrow> link_extractor \<Rightarrow> bool" where
  "between_items b stack le \<longleftrightarrow> le_current_attributes le = [] \<and> \<not> le_in_style_tag le \<and> le_include_verbatim le = b \<and>
     le_verbatim_stack le = stack \<and> (\<forall>n \<in> set stack. is_verbatim_elem n) \<and> (b \<longrightarrow> stack = [])"

lemma stack_close: "le_verbatim_stack (on_close_start_tag xe sp c le) =
    (if c \<and> filter_verbatim_here le \<and> le_verbatim_stack le \<noteq> [] \<and>
        hd (le_verbatim_stack le) = le_current_element le
     then tl (le_verbatim_stack le) else le_verbatim_stack le)"
  by (simp add: on_close_start_tag_def Let_def filter_verbatim_here_def)

lemma stack_end: "le_verbatim_stack (on_end_tag xe sp name le) =
    (if \<not> le_include_verbatim le \<and> le_verbatim_stack le \<noteq> [] \<and> hd (le_verbatim_stack le) = name
     then tl (le_verbatim_stack le) else le_verbatim_stack le)"
  by (simp add: on_end_tag_def Let_def)

lemma element_step:
  assumes "between_items b stack le"
    and "le' = fold (handle_html_event xe sp) (item_events (Element name attrs self_closing start)) le"
  shows "le_current_attributes le' = []" "le_include_verbatim le' = b" "le_in_style_tag le' \<longleftrightarrow> name = ''style''"
    "le_verbatim_stack le' = open_after b (Element name attrs self_closing start) stack"
    "le_links le' = le_links le @ (if shown_tag b stack name then tag_links xe sp name attrs else [])"
    "name = ''style'' \<Longrightarrow> le_style_content le' = []"
proof -
  have attrs: "le_current_attributes le = []" and inc: "le_include_verbatim le = b" and style: "\<not> le_in_style_tag le"
    and stack: "le_verbatim_stack le = stack" "\<And>n. n \<in> set stack \<Longrightarrow> is_verbatim_elem n" "b \<Longrightarrow> stack = []"
    using assms(1) by (auto simp: between_items_def)
  have le': "le' = on_close_start_tag xe sp self_closing (with_attributes name attrs le)"
    unfolding assms(2) by (rule run_element [OF attrs])
  show "le_current_attributes le' = []" "le_include_verbatim le' = b" "le_in_style_tag le' \<longleftrightarrow> name = ''style''"
    using inc style by (simp_all add: le')
  have top: "stack \<noteq> [] \<Longrightarrow> is_verbatim_elem (hd stack)" using stack(2) by simp
  show "le_verbatim_stack le' = open_after b (Element name attrs self_closing start) stack"
    using inc stack(1,3) top by (auto simp: le' stack_close filter_verbatim_here_def)
  have "filter_verbatim_here (with_attributes name attrs le) \<longleftrightarrow> \<not> shown_tag b stack name"
    using inc stack by (auto simp: filter_verbatim_here_def shown_tag_def)
  then show "le_links le' = le_links le @ (if shown_tag b stack name then tag_links xe sp name attrs else [])"
    by (simp add: le' flush_links_def flush_ignored_with tag_links_def)
  show "le_style_content le' = []" if "name = ''style''"
    using that by (simp add: le' on_close_start_tag_def Let_def flush_links_def with_attributes_def on_open_start_tag_def)
qed

lemma pieces_step:
  assumes "le_in_style_tag le"
  shows "\<exists>off. fold (handle_html_event xe sp) (text_events pieces) le =
      le\<lparr>le_style_content := le_style_content le @ sheet_text pieces, le_style_content_offset := off\<rparr> \<and>
    (le_style_content le \<noteq> [] \<longrightarrow> off = le_style_content_offset le) \<and>
    (le_style_content le = [] \<longrightarrow> sheet_text pieces \<noteq> [] \<longrightarrow> off = sheet_start pieces)"
  using assms
proof (induction pieces arbitrary: le)
  case Nil
  show ?case by (intro exI [of _ "le_style_content_offset le"]) (simp add: text_events_def sheet_text_def)
next
  case (Cons p pieces)
  obtain v start where p: "p = (v, start)" by (cases p)
  let ?le = "on_string xe sp v start le"
  from Cons.IH [of ?le] Cons.prems obtain off where off:
    "fold (handle_html_event xe sp) (text_events pieces) ?le =
      ?le\<lparr>le_style_content := le_style_content ?le @ sheet_text pieces, le_style_content_offset := off\<rparr>"
    "le_style_content ?le \<noteq> [] \<longrightarrow> off = le_style_content_offset ?le"
    "le_style_content ?le = [] \<longrightarrow> sheet_text pieces \<noteq> [] \<longrightarrow> off = sheet_start pieces" by auto
  have le: "?le = le\<lparr>le_style_content_offset := (if le_style_content le = [] then start else le_style_content_offset le),
      le_style_content := le_style_content le @ v\<rparr>" using Cons.prems by (simp add: on_string_def)
  show ?case
    using off by (intro exI [of _ off]) (auto simp: p text_events_def sheet_text_def sheet_start_def le)
qed

lemma css_from: "xe_css_captures xe [] = [] \<Longrightarrow> (s \<noteq> [] \<longrightarrow> off = off') \<Longrightarrow>
    extract_css xe s (offset_span off sp) = extract_css xe s (offset_span off' sp)"
  by (cases "s = []") (auto simp: extract_css_def map_filter_simps)

lemma item_step:
  assumes between: "between_items b stack le" and proper: "proper_item i" and no_css: "xe_css_captures xe [] = []"
  shows "between_items b (open_after b i stack) (fold (handle_html_event xe sp) (item_events i) le) \<and>
    reported b (le_links (fold (handle_html_event xe sp) (item_events i) le)) =
      reported b (le_links le) @ shown_links xe sp b stack i"
proof (cases i)
  case (Element name attrs self_closing start)
  note step = element_step [OF between refl, where xe = xe and sp = sp and name = name and attrs = attrs
    and self_closing = self_closing and start = start]
  from between step proper Element show ?thesis by (auto simp: between_items_def simp del: item_events.simps)
next
  case (StyleSheet attrs self_closing start pieces close)
  let ?le = "fold (handle_html_event xe sp) (item_events (Element ''style'' attrs self_closing start)) le"
  note step = element_step [OF between refl, where xe = xe and sp = sp and name = "''style''" and attrs = attrs
    and self_closing = self_closing and start = start]
  from pieces_step [of ?le xe sp pieces] step obtain off where
    pieces: "fold (handle_html_event xe sp) (text_events pieces) ?le =
      ?le\<lparr>le_style_content := sheet_text pieces, le_style_content_offset := off\<rparr>"
    and off: "sheet_text pieces \<noteq> [] \<longrightarrow> off = sheet_start pieces" by auto
  have css: "extract_css xe (sheet_text pieces) (offset_span off sp) =
      extract_css xe (sheet_text pieces) (offset_span (sheet_start pieces) sp)"
    by (rule css_from [OF no_css off])
  have stack: "le_verbatim_stack ?le = stack" using step(4) by (simp add: is_verbatim_elem_def)
  have top: "\<not> (stack \<noteq> [] \<and> hd stack = ''style'')"
  proof -
    have "\<not> is_verbatim_elem ''style''" by (simp add: is_verbatim_elem_def)
    moreover have "\<forall>n \<in> set stack. is_verbatim_elem n" using between by (simp add: between_items_def)
    ultimately show ?thesis using hd_in_set [of stack] by metis
  qed
  have run: "fold (handle_html_event xe sp) (item_events i) le = on_end_tag xe sp ''style''
      (?le\<lparr>le_style_content := sheet_text pieces, le_style_content_offset := off\<rparr>)"
    by (simp add: StyleSheet sheet_events pieces del: item_events.simps)
  have "le_links (fold (handle_html_event xe sp) (item_events i) le) =
      le_links ?le @ extract_css xe (sheet_text pieces) (offset_span off sp)"
    using step(3) by (simp add: run on_end_tag_def Let_def del: item_events.simps)
  moreover have "between_items b stack (fold (handle_html_event xe sp) (item_events i) le)"
    using between step(1-3) stack top by (auto simp: run between_items_def stack_end simp del: item_events.simps)
  ultimately show ?thesis using step(5) by (simp add: StyleSheet css del: item_events.simps)
next
  case (Close name start)
  with between show ?thesis by (auto simp: between_items_def stack_end dest: list.set_sel(2))
next
  case (Words v start)
  have "b \<Longrightarrow> \<not> filter_verbatim_here le" using between by (auto simp: between_items_def filter_verbatim_here_def)
  with between Words show ?thesis by (auto simp: between_items_def on_string_def)
qed

lemma document_step:
  "between_items b stack le \<Longrightarrow> \<forall>i \<in> set items. proper_item i \<Longrightarrow> xe_css_captures xe [] = [] \<Longrightarrow>
   reported b (le_links (fold (handle_html_event xe sp) (document_events items) le)) =
     reported b (le_links le) @ document_links xe sp b stack items"
proof (induction items arbitrary: stack le)
  case (Cons i items)
  from Cons.prems have i: "proper_item i" by simp
  from item_step [OF Cons.prems(1) i Cons.prems(3), of sp]
    Cons.IH [of "open_after b i stack" "fold (handle_html_event xe sp) (item_events i) le"] Cons.prems(2,3)
  show ?case by (simp add: document_events_def del: item_events.simps)
qed (simp add: document_events_def)

text \<open>Inside a verbatim element only style sheets have links.\<close>

lemma document_links_append:
  "document_links xe sp b stack (xs @ ys) =
     document_links xe sp b stack xs @ document_links xe sp b (fold (open_after b) xs stack) ys"
  by (induction xs arbitrary: stack) simp_all

lemma open_keeps: "n \<in> set stack \<Longrightarrow> \<nexists>start. i = Close n start \<Longrightarrow> n \<in> set (open_after False i stack)"
  by (cases stack; cases i) auto

lemma hidden_links:
  "n \<in> set stack \<Longrightarrow> \<forall>i \<in> set body. \<nexists>start. i = Close n start \<Longrightarrow>
   document_links xe sp False stack body = concat (map (sheet_links xe sp) body)"
proof (induction body arbitrary: stack)
  case (Cons i body)
  have "shown_links xe sp False stack i = sheet_links xe sp i"
    using Cons.prems(1) by (cases i) (auto simp: shown_tag_def)
  with Cons.IH [of "open_after False i stack"] open_keeps [OF Cons.prems(1), of i] Cons.prems(2) show ?case by simp
qed simp

text \<open>C30: The links of an HTML document are, in order, those of its start tags that are not passed over
  (the \<open>srcset\<close> first, then the link attributes, without bare e-mail addresses), those of its style sheets and,
  where verbatim text is included, those of its text.  Where it is not, the start tags of verbatim elements and all
  within them have none: between a verbatim start tag and its end tag, however tags are nested in between, only the
  texts of style sheets add links.  Comments, doctypes and errors of the tokenizer play no part.  This holds
  for every document that the tokenizer takes for start tags, end tags and texts, in which a style element is closed and
  has only text, as tokenizers see to, and which may end within a start tag.\<close>

theorem html_links_of_elements:
  assumes "events_of items (xe_html_events xe buf)" and "\<forall>i \<in> set items. proper_item i"
    and "xe_css_captures xe [] = []"
  shows "extract_html_with_span xe buf b sp = document_links xe sp b [] items \<and>
    (\<forall>before n attrs start body. items = before @ Element n attrs False start # body \<longrightarrow> is_verbatim_elem n \<longrightarrow>
      (\<forall>i \<in> set body. \<nexists>start. i = Close n start) \<longrightarrow>
      extract_html_with_span xe buf False sp =
        document_links xe sp False [] before @ concat (map (sheet_links xe sp) body))"
proof -
  have all: "extract_html_with_span xe buf b sp = document_links xe sp b [] items" for b
  proof -
    have "between_items b [] (extractor_new b)" by (simp add: between_items_def extractor_new_def)
    from document_step [OF this assms(2,3), of sp] show ?thesis
      by (simp add: extract_html_with_span_def run_extractor_def run_document [OF assms(1)] reported_def extractor_new_def)
  qed
  moreover have "document_links xe sp False [] items =
      document_links xe sp False [] before @ concat (map (sheet_links xe sp) body)"
    if "items = before @ Element n attrs False start # body" "is_verbatim_elem n" "\<forall>i \<in> set body. \<nexists>start. i = Close n start"
    for before n attrs start body
    using that hidden_links [of n "n # fold (open_after False) before []" body xe sp]
    by (simp add: document_links_append shown_tag_def)
  ultimately show ?thesis by simp
qed

theorem html_links_of_elements_witness:
  "let img = Element ''img'' [(''src'', Some ''a.png'', 5)] False 0;
       ds = documents [(''q'', [img, Element ''pre'' [] False 12,
         Element ''a'' [(''href'', Some ''b'', 20)] False 15, StyleSheet [] False 25 [(''x'', 32)] 33])]
   in extract_html_with_span ds ''q'' False (\<lambda>n. \<lparr>span_line = 1, span_column = Some n\<rparr>) =
        [\<lparr>raw_text = ''a.png'', raw_element = Some ''img'', raw_attribute = Some ''src'',
          raw_span = \<lparr>span_line = 1, span_column = Some 5\<rparr>\<rparr>]"
proof -
  let ?img = "Element ''img'' [(''src'', Some ''a.png'', 5)] False 0"
  let ?body = "[Element ''a'' [(''href'', Some ''b'', 20)] False 15, StyleSheet [] False 25 [(''x'', 32)] 33]"
  let ?items = "[?img] @ Element ''pre'' [] False 12 # ?body"
  let ?ds = "documents [(''q'', ?items)]"
  let ?sp = "\<lambda>n. \<lparr>span_line = 1, span_column = Some n\<rparr>"
  have "xe_html_events ?ds ''q'' = document_events ?items" by (simp add: documents_def del: item_events.simps)
  then have events: "events_of ?items (xe_html_events ?ds ''q'')" by (simp only: events_of_document)
  have css: "xe_css_captures ?ds s = []" for s by (simp add: documents_def xml_document_def)
  have proper: "\<forall>i \<in> set ?items. proper_item i" by simp
  have names: "is_verbatim_elem ''pre''" "\<not> is_verbatim_elem ''img''" by (simp_all add: is_verbatim_elem_def)
  have inside: "\<forall>i \<in> set ?body. \<nexists>start. i = Close ''pre'' start" by simp
  have img: "tag_links ?ds ?sp ''img'' [(''src'', Some ''a.png'', 5)] = [\<lparr>raw_text = ''a.png'', raw_element = Some ''img'',
      raw_attribute = Some ''src'', raw_span = \<lparr>span_line = 1, span_column = Some 5\<rparr>\<rparr>]"
    by (simp add: evaluate_elements tag_links_def element_urls_def extract_urls_from_elem_attr_def attribute_def
        documents_def xml_document_def is_link_attribute_def keep_url_def is_email_link_def)
  from conjunct2 [OF html_links_of_elements [OF events proper css, of False ?sp], rule_format, OF refl names(1)] inside
  have "extract_html_with_span ?ds ''q'' False ?sp = document_links ?ds ?sp False [] [?img] @ concat (map (sheet_links ?ds ?sp) ?body)"
    by blast
  also have "\<dots> = [\<lparr>raw_text = ''a.png'', raw_element = Some ''img'',
      raw_attribute = Some ''src'', raw_span = \<lparr>span_line = 1, span_column = Some 5\<rparr>\<rparr>]"
    using img names(2) css by (simp add: shown_tag_def extract_css_def map_filter_simps)
  finally show ?thesis by simp
qed

end
