(* ===== verification/Html5ever.thy ===== *)
theory Html5ever
  imports HtmlLinks
begin

text \<open>
  The alternative HTML extractor (\<open>lychee-lib/src/extract/html/html5ever.rs\<close>): a sink for the tokens
  of html5ever.  Its fields are \<open>RefCell\<close>s, and borrowing one mutably while it is borrowed panics.
\<close>

section \<open>Spans\<close>

text \<open>The column is unknown on the first line of the embedded text.\<close>

definition line_offset_span :: "nat \<Rightarrow> span_provider \<Rightarrow> span_provider" where
  "line_offset_span lines_before inner offset =
     (let span = inner offset;
          span = (if span_line span = 1 then span\<lparr>span_column := None\<rparr> else span)
      in span\<lparr>span_line := span_line span + (lines_before - 1)\<rparr>)"

definition respect_multiline_tendril :: "nat \<Rightarrow> string \<Rightarrow> nat" where
  "respect_multiline_tendril line_number raw = line_number - length (filter (\<lambda>c. c = CHR 0x0A) raw)"

section \<open>The sink\<close>

record sink =
  sk_links :: "raw_uri list"
  sk_include_verbatim :: bool
  sk_verbatim_element :: "string option"
  sk_in_style_tag :: bool
  sk_style_content :: string

definition sink_new :: "bool \<Rightarrow> sink" where
  "sink_new include_verbatim = \<lparr>sk_links = [], sk_include_verbatim = include_verbatim,
     sk_verbatim_element = None, sk_in_style_tag = False, sk_style_content = []\<rparr>"

definition characters :: "extract_env \<Rightarrow> string \<Rightarrow> nat \<Rightarrow> sink \<Rightarrow> sink" where
  "characters xe raw line_number sk =
     (if sk_in_style_tag sk then sk\<lparr>sk_style_content := sk_style_content sk @ raw\<rparr>
      else if sk_verbatim_element sk \<noteq> None then sk
      else if sk_include_verbatim sk
      then sk\<lparr>sk_links := sk_links sk @ extract_plaintext xe raw
             (line_offset_span (respect_multiline_tendril line_number raw)
               (source_span (provider_from_input raw)))\<rparr>
      else sk)"

definition elem_attr_urls :: "string \<Rightarrow> string \<Rightarrow> string \<Rightarrow> string list option" where
  "elem_attr_urls attr_name elem_name attr_value =
     (if is_link_attribute elem_name attr_name then Some [attr_value]
      else if attr_name = ''srcset'' then Some (srcset_parse attr_value)
      else None)"

definition keep_attr_url :: "extract_env \<Rightarrow> (string \<times> string) list \<Rightarrow> string \<Rightarrow> string \<Rightarrow> bool" where
  "keep_attr_url xe attrs attr_name url \<longleftrightarrow>
     \<not> ((\<exists>(n, v) \<in> set attrs. n = ''rel'' \<and> sublist ''stylesheet'' v) \<and>
        (prefix ''/@'' url \<or> prefix ''@'' url \<or> (\<exists>(n, v) \<in> set attrs. n = ''disabled''))) \<and>
     (\<not> is_email_link xe url \<or>
      (prefix ''mailto:'' url \<and> attr_name = ''href'') \<or> (prefix ''tel:'' url \<and> attr_name = ''href''))"

definition attr_links ::
  "extract_env \<Rightarrow> string \<Rightarrow> nat \<Rightarrow> (string \<times> string) list \<Rightarrow> string \<times> string \<Rightarrow> raw_uri list" where
  "attr_links xe name line_number attrs a =
     (case a of (attr_name, attr_value) \<Rightarrow>
       (case elem_attr_urls attr_name name attr_value of
          None \<Rightarrow> extract_plaintext xe attr_value
            (line_offset_span line_number (source_span (provider_from_input attr_value)))
        | Some urls \<Rightarrow>
            map (\<lambda>url. \<lparr>raw_text = url, raw_element = Some name, raw_attribute = Some attr_name,
                raw_span = \<lparr>span_line = line_number, span_column = None\<rparr>\<rparr>)
              (filter (keep_attr_url xe attrs attr_name) urls)))"

text \<open>The first value of an attribute.\<close>

definition first_attr :: "string \<Rightarrow> (string \<times> string) list \<Rightarrow> string option" where
  "first_attr name attrs = map_of attrs name"

definition tag_ignored :: "(string \<times> string) list \<Rightarrow> bool" where
  "tag_ignored attrs \<longleftrightarrow>
     (case first_attr ''rel'' attrs of
        Some rel \<Rightarrow> sublist ''nofollow'' rel \<or> sublist ''preconnect'' rel \<or> sublist ''dns-prefetch'' rel
      | None \<Rightarrow> False) \<or>
     first_attr ''prefix'' attrs \<noteq> None"

text \<open>
  At the end of a style sheet its content is borrowed for the extraction, and still is when it is
  to be cleared.
\<close>

definition style_tag :: "bool \<Rightarrow> sink \<Rightarrow> sink eval" where
  "style_tag is_end sk =
     (if \<not> is_end then Value (sk\<lparr>sk_in_style_tag := True, sk_style_content := []\<rparr>) else Panic)"

definition verbatim_tag :: "bool \<Rightarrow> string \<Rightarrow> sink \<Rightarrow> sink" where
  "verbatim_tag is_end name sk =
     (if \<not> sk_include_verbatim sk \<and> is_verbatim_elem name then
        (case sk_verbatim_element sk of
           Some current \<Rightarrow> if current = name \<and> is_end then sk\<lparr>sk_verbatim_element := None\<rparr> else sk
         | None \<Rightarrow> if \<not> is_end then sk\<lparr>sk_verbatim_element := Some name\<rparr> else sk)
      else sk)"

definition process_tag ::
  "extract_env \<Rightarrow> bool \<Rightarrow> string \<Rightarrow> (string \<times> string) list \<Rightarrow> nat \<Rightarrow> sink \<Rightarrow> sink eval" where
  "process_tag xe is_end name attrs line_number sk =
     eval_bind (if name = ''style'' then style_tag is_end sk else Value sk) (\<lambda>sk.
       let sk = verbatim_tag is_end name sk in
       Value (if sk_verbatim_element sk \<noteq> None then sk
         else if tag_ignored attrs then sk
         else sk\<lparr>sk_links := sk_links sk @ concat (map (attr_links xe name line_number attrs) attrs)\<rparr>))"

fun process_token :: "extract_env \<Rightarrow> html5ever_token \<times> nat \<Rightarrow> sink \<Rightarrow> sink eval" where
  "process_token xe (CharacterTokens raw, line_number) sk = Value (characters xe raw line_number sk)"
| "process_token xe (TagToken is_end name attrs, line_number) sk =
     process_tag xe is_end name attrs line_number sk"
| "process_token xe (OtherHtml5everToken, line_number) sk = Value sk"

fun process_tokens :: "extract_env \<Rightarrow> (html5ever_token \<times> nat) list \<Rightarrow> sink \<Rightarrow> sink eval" where
  "process_tokens xe [] sk = Value sk"
| "process_tokens xe (t # ts) sk = eval_bind (process_token xe t sk) (process_tokens xe ts)"

definition html5ever_extract :: "extract_env \<Rightarrow> string \<Rightarrow> bool \<Rightarrow> raw_uri list eval" where
  "html5ever_extract xe buf include_verbatim =
     eval_bind (process_tokens xe (xe_html5ever_tokens xe buf) (sink_new include_verbatim))
       (\<lambda>sk. Value (sk_links sk))"

section \<open>Panics\<close>

definition ends_style :: "html5ever_token \<times> nat \<Rightarrow> bool" where
  "ends_style t \<longleftrightarrow> (\<exists>attrs. fst t = TagToken True ''style'' attrs)"

lemma process_token_Panic: "process_token xe t sk = Panic \<longleftrightarrow> ends_style t"
proof -
  obtain tok line where t: "t = (tok, line)" by force
  show ?thesis
    by (cases tok) (auto simp: t ends_style_def process_tag_def style_tag_def Let_def)
qed

lemma process_tokens_Panic: "process_tokens xe ts sk = Panic \<longleftrightarrow> (\<exists>t \<in> set ts. ends_style t)"
proof (induction ts arbitrary: sk)
  case (Cons t ts)
  show ?case
  proof (cases "process_token xe t sk")
    case Panic
    then show ?thesis using process_token_Panic [of xe t sk] by simp
  next
    case (Value sk')
    then have "\<not> ends_style t" using process_token_Panic [of xe t sk] by simp
    with Value Cons show ?thesis by simp
  qed
qed simp

section \<open>Agreement with the default extractor\<close>

text \<open>
  Start tags and end tags without verbatim elements and style sheets, given by their attributes.
\<close>

definition plain_tag :: "html5ever_token \<times> nat \<Rightarrow> bool" where
  "plain_tag t \<longleftrightarrow> (case fst t of TagToken is_end name attrs \<Rightarrow>
      name \<noteq> ''style'' \<and> \<not> is_verbatim_elem name | _ \<Rightarrow> True)"

fun token_links :: "extract_env \<Rightarrow> html5ever_token \<times> nat \<Rightarrow> raw_uri list" where
  "token_links xe (TagToken is_end name attrs, line_number) =
     (if tag_ignored attrs then [] else concat (map (attr_links xe name line_number attrs) attrs))"
| "token_links xe _ = []"

lemma process_plain_tokens:
  "\<forall>t \<in> set ts. plain_tag t \<Longrightarrow> sk_verbatim_element sk = None \<Longrightarrow> \<not> sk_in_style_tag sk \<Longrightarrow>
   \<not> sk_include_verbatim sk \<Longrightarrow>
   process_tokens xe ts sk = Value (sk\<lparr>sk_links := sk_links sk @ concat (map (token_links xe) ts)\<rparr>)"
proof (induction ts arbitrary: sk)
  case (Cons t ts)
  obtain tok line where t: "t = (tok, line)" by force
  have "process_token xe t sk = Value (sk\<lparr>sk_links := sk_links sk @ token_links xe t\<rparr>)"
    using Cons.prems
    by (cases tok) (auto simp: t plain_tag_def process_tag_def verbatim_tag_def characters_def Let_def)
  with Cons show ?case by simp
qed simp

text \<open>The alternative HTML extractor panics on exactly those documents that have an end tag of a style
  element; where neither style sheets nor verbatim elements occur it gives, in order, the links of the
  attributes of every tag that is not passed over.\<close>

theorem html5ever_style_panics:
  "(html5ever_extract xe buf b = Panic \<longleftrightarrow> (\<exists>t \<in> set (xe_html5ever_tokens xe buf). ends_style t)) \<and>
   ((\<forall>t \<in> set (xe_html5ever_tokens xe buf). plain_tag t) \<longrightarrow>
      html5ever_extract xe buf False = Value (concat (map (token_links xe) (xe_html5ever_tokens xe buf))))"
proof
  let ?ts = "xe_html5ever_tokens xe buf"
  show "html5ever_extract xe buf b = Panic \<longleftrightarrow> (\<exists>t \<in> set ?ts. ends_style t)"
    using process_tokens_Panic [of xe ?ts "sink_new b"]
    by (cases "process_tokens xe ?ts (sink_new b)") (auto simp: html5ever_extract_def)
  show "(\<forall>t \<in> set ?ts. plain_tag t) \<longrightarrow>
      html5ever_extract xe buf False = Value (concat (map (token_links xe) ?ts))"
    using process_plain_tokens [of ?ts "sink_new False" xe]
    by (auto simp: html5ever_extract_def sink_new_def)
qed

theorem html5ever_style_panics_witness:
  "html5ever_extract ((documents [])\<lparr>xe_html5ever_tokens :=
       (\<lambda>_. [(TagToken False ''style'' [], 1), (TagToken True ''style'' [], 2)])\<rparr>) [] False = Panic \<and>
   html5ever_extract ((documents [])\<lparr>xe_html5ever_tokens :=
       (\<lambda>_. [(TagToken False ''a'' [(''href'', ''b'')], 1), (TagToken True ''a'' [], 1)])\<rparr>) [] False =
     Value [\<lparr>raw_text = ''b'', raw_element = Some ''a'', raw_attribute = Some ''href'',
       raw_span = \<lparr>span_line = 1, span_column = None\<rparr>\<rparr>]"
  using html5ever_style_panics [of "(documents [])\<lparr>xe_html5ever_tokens :=
       (\<lambda>_. [(TagToken False ''style'' [], 1), (TagToken True ''style'' [], 2)])\<rparr>" "[]" False]
    html5ever_style_panics [of "(documents [])\<lparr>xe_html5ever_tokens :=
       (\<lambda>_. [(TagToken False ''a'' [(''href'', ''b'')], 1), (TagToken True ''a'' [], 1)])\<rparr>" "[]" False]
  by (simp add: ends_style_def plain_tag_def is_verbatim_elem_def tag_ignored_def first_attr_def
      attr_links_def elem_attr_urls_def is_link_attribute_def keep_attr_url_def is_email_link_def
      documents_def xml_document_def)

end
