(* ===== verification/MarkdownLinks.thy ===== *)
theory MarkdownLinks
  imports Html5ever
begin

text \<open>
  The Markdown extractor (\<open>lychee-lib/src/extract/markdown.rs\<close>): links and fragments from the
  events of pulldown\_cmark, and the choice of an extractor by file type
  (\<open>lychee-lib/src/extract/mod.rs\<close>).  Wiki links are cleaned by
  \<open>lychee-lib/src/checker/wikilink/mod.rs\<close>.
\<close>

section \<open>Wiki links\<close>

text \<open>The text before the first occurrence of a character (\<open>find\<close> and a slice), or all of it.\<close>

definition before_char :: "char \<Rightarrow> string \<Rightarrow> string" where
  "before_char c s = takeWhile (\<lambda>x. x \<noteq> c) s"

definition wikilink :: "string \<Rightarrow> bool \<Rightarrow> error_kind + string" where
  "wikilink input has_pothole =
     (let stripped = (if has_pothole then before_char (CHR ''|'') input else input);
          stripped = (if CHR ''#'' \<in> set stripped then before_char (CHR ''#'') input else stripped)
      in if stripped = [] then Inl EmptyUrl else Inr stripped)"

lemma before_char_not_in: "c \<notin> set (before_char c s)"
  by (auto simp: before_char_def dest: set_takeWhileD)

lemma before_char_id: "c \<notin> set s \<Longrightarrow> before_char c s = s"
  unfolding before_char_def by (subst takeWhile_eq_all_conv [THEN iffD2]) auto

lemma before_char_prefix: "prefix (before_char c s) s"
  by (metis before_char_def prefixI takeWhile_dropWhile_id)

lemma before_char_twice: "d \<in> set (before_char c s) \<Longrightarrow> prefix (before_char d s) (before_char c s)"
  by (induction s) (auto simp: before_char_def split: if_splits)

lemma wikilink_clean:
  assumes "wikilink input has_pothole = Inr s"
  shows "s \<noteq> [] \<and> prefix s input \<and> CHR ''#'' \<notin> set s \<and> (has_pothole \<longrightarrow> CHR ''|'' \<notin> set s)"
proof -
  let ?p = "if has_pothole then before_char (CHR ''|'') input else input"
  have p: "prefix ?p input" "has_pothole \<longrightarrow> CHR ''|'' \<notin> set ?p"
    by (simp_all add: before_char_prefix before_char_not_in)
  show ?thesis
  proof (cases "CHR ''#'' \<in> set ?p")
    case True
    then have "prefix (before_char (CHR ''#'') input) ?p"
      by (cases has_pothole) (simp_all add: before_char_twice before_char_prefix)
    moreover from assms have "s = before_char (CHR ''#'') input \<and> s \<noteq> []"
      unfolding wikilink_def Let_def if_P [OF True] by (simp split: if_split_asm)
    moreover have "prefix s input" if "prefix s ?p" using that p(1) by (rule prefix_order.trans)
    moreover have "set s \<subseteq> set ?p" if "prefix s ?p" using that by (rule set_mono_prefix)
    ultimately show ?thesis using p(2) before_char_not_in [of "CHR ''#''" input] by blast
  next
    case False
    from assms have "s = ?p \<and> s \<noteq> []"
      unfolding wikilink_def Let_def if_not_P [OF False] by (simp split: if_split_asm)
    with p False show ?thesis by blast
  qed
qed

section \<open>Links\<close>

record md_state =
  md_code_block :: bool
  md_link_label :: bool
  md_extracted_link :: bool
  md_html_block :: bool
  md_html_buffer :: string
  md_html_start :: nat

definition md_init :: md_state where
  "md_init = \<lparr>md_code_block = False, md_link_label = False, md_extracted_link = False,
     md_html_block = False, md_html_buffer = [], md_html_start = 0\<rparr>"

definition extract_image :: "string \<Rightarrow> raw_uri_span \<Rightarrow> raw_uri list" where
  "extract_image dest_url span = [\<lparr>raw_text = dest_url, raw_element = Some ''img'',
     raw_attribute = Some ''src'', raw_span = span\<rparr>]"

definition raw_uri_of :: "string \<Rightarrow> raw_uri_span \<Rightarrow> raw_uri list" where
  "raw_uri_of dest_url span = [\<lparr>raw_text = dest_url, raw_element = Some ''a'',
     raw_attribute = Some ''href'', raw_span = span\<rparr>]"

text \<open>The offset is 0 also for the types that the code does not expect here.\<close>

definition email_span_offset :: "link_type \<Rightarrow> nat" where
  "email_span_offset link_type =
     (if link_type \<in> {ReferenceUnknown, Collapsed, Shortcut, Autolink, Email} then 1 else 0)"

definition start_link ::
  "extract_env \<Rightarrow> span_provider \<Rightarrow> bool \<Rightarrow> link_type \<Rightarrow> string \<Rightarrow> nat \<Rightarrow> md_state \<Rightarrow>
   raw_uri list \<times> md_state" where
  "start_link xe sp include_wikilinks link_type dest_url start st =
     (case link_type of
        Autolink \<Rightarrow> (extract_plaintext xe dest_url (offset_span (start + email_span_offset link_type) sp),
          st\<lparr>md_extracted_link := True\<rparr>)
      | Email \<Rightarrow> (extract_plaintext xe dest_url (offset_span (start + email_span_offset link_type) sp),
          st\<lparr>md_extracted_link := True\<rparr>)
      | WikiLink has_pothole \<Rightarrow>
          if \<not> include_wikilinks then ([], st)
          else if dest_url \<in> {''_TOC_'', ''TOC''} then ([], st\<lparr>md_extracted_link := True\<rparr>)
          else ((case wikilink dest_url has_pothole of
              Inr link \<Rightarrow> [\<lparr>raw_text = link, raw_element = Some ''a'', raw_attribute = Some ''wikilink'',
                raw_span = sp (start + 2)\<rparr>]
            | Inl _ \<Rightarrow> []), st\<lparr>md_extracted_link := True\<rparr>)
      | _ \<Rightarrow> (raw_uri_of dest_url (sp start), st\<lparr>md_link_label := True\<rparr>))"

fun handle_md_event ::
  "extract_env \<Rightarrow> span_provider \<Rightarrow> bool \<Rightarrow> bool \<Rightarrow> md_event \<times> nat \<Rightarrow> md_state \<Rightarrow> raw_uri list \<times> md_state"
where
  "handle_md_event xe sp include_verbatim include_wikilinks (StartLink link_type dest_url, start) st =
     start_link xe sp include_wikilinks link_type dest_url start st"
| "handle_md_event xe sp include_verbatim include_wikilinks (StartImage dest_url, start) st =
     (extract_image dest_url (sp start), st)"
| "handle_md_event xe sp include_verbatim include_wikilinks (StartCodeBlock, start) st =
     ([], st\<lparr>md_code_block := True\<rparr>)"
| "handle_md_event xe sp include_verbatim include_wikilinks (EndCodeBlock, start) st =
     ([], st\<lparr>md_code_block := False\<rparr>)"
| "handle_md_event xe sp include_verbatim include_wikilinks (TextEvent txt, start) st =
     (if md_extracted_link st \<or> (md_link_label st \<and> \<not> include_verbatim) \<or>
         (md_code_block st \<and> \<not> include_verbatim)
      then ([], st)
      else (extract_plaintext xe txt (offset_span start sp), st))"
| "handle_md_event xe sp include_verbatim include_wikilinks (StartHtmlBlock, start) st =
     ([], st\<lparr>md_html_block := True, md_html_buffer := [], md_html_start := start\<rparr>)"
| "handle_md_event xe sp include_verbatim include_wikilinks (EndHtmlBlock, start) st =
     (if md_html_buffer st = [] then []
      else extract_html_with_span xe (md_html_buffer st) include_verbatim
        (offset_span (md_html_start st) sp), st\<lparr>md_html_block := False\<rparr>)"
| "handle_md_event xe sp include_verbatim include_wikilinks (HtmlEvent html, start) st =
     (if md_html_block st then ([], st\<lparr>md_html_buffer := md_html_buffer st @ html\<rparr>)
      else (extract_html_with_span xe html include_verbatim (offset_span start sp), st))"
| "handle_md_event xe sp include_verbatim include_wikilinks (InlineHtmlEvent html, start) st =
     (extract_html_with_span xe html include_verbatim (offset_span start sp), st)"
| "handle_md_event xe sp include_verbatim include_wikilinks (CodeEvent code, start) st =
     (if include_verbatim then (extract_plaintext xe code (offset_span (start + 1) sp), st)
      else ([], st))"
| "handle_md_event xe sp include_verbatim include_wikilinks (EndLink, start) st =
     ([], st\<lparr>md_link_label := False, md_extracted_link := False\<rparr>)"
| "handle_md_event xe sp include_verbatim include_wikilinks (_, start) st = ([], st)"

fun run_md ::
  "extract_env \<Rightarrow> span_provider \<Rightarrow> bool \<Rightarrow> bool \<Rightarrow> (md_event \<times> nat) list \<Rightarrow> md_state \<Rightarrow>
   raw_uri list \<times> md_state" where
  "run_md xe sp include_verbatim include_wikilinks [] st = ([], st)"
| "run_md xe sp include_verbatim include_wikilinks (e # es) st =
     (let (links, st) = handle_md_event xe sp include_verbatim include_wikilinks e st;
          (links', st) = run_md xe sp include_verbatim include_wikilinks es st
      in (links @ links', st))"

definition extract_markdown :: "extract_env \<Rightarrow> string \<Rightarrow> bool \<Rightarrow> bool \<Rightarrow> raw_uri list" where
  "extract_markdown xe input include_verbatim include_wikilinks =
     fst (run_md xe (source_span (provider_from_input input)) include_verbatim include_wikilinks
       (xe_md_merged_events xe input) md_init)"

section \<open>Fragments\<close>

text \<open>\<open>char::is_alphanumeric\<close> on the modelled range: letters, and digits of every kind.\<close>

definition is_alphanumeric :: "char \<Rightarrow> bool" where
  "is_alphanumeric c \<longleftrightarrow> (let n = (of_char c :: nat) in
     (48 \<le> n \<and> n \<le> 57) \<or> (65 \<le> n \<and> n \<le> 90) \<or> (97 \<le> n \<and> n \<le> 122) \<or>
     n \<in> {0xAA, 0xB2, 0xB3, 0xB5, 0xB9, 0xBA, 0xBC, 0xBD, 0xBE} \<or>
     (0xC0 \<le> n \<and> n \<noteq> 0xD7 \<and> n \<noteq> 0xF7))"

definition kebab_char :: "char \<Rightarrow> char option" where
  "kebab_char c = (if is_alphanumeric c \<or> c = CHR ''_'' \<or> c = CHR ''-'' then Some c
     else if is_whitespace c then Some (CHR ''-'') else None)"

definition into_kebab_case :: "string \<Rightarrow> string" where
  "into_kebab_case s = List.map_filter kebab_char (to_lowercase s)"

type_synonym heading_counter = "string \<Rightarrow> nat"

definition generate_id :: "string \<Rightarrow> heading_counter \<Rightarrow> string \<times> heading_counter" where
  "generate_id heading counter =
     (let id = into_kebab_case heading; count = counter id in
      (if count \<noteq> 0 then id @ ''-'' @ show_nat count else id, counter(id := count + 1)))"

record md_fragments =
  mf_in_heading :: bool
  mf_heading_text :: string
  mf_heading_id :: "string option"
  mf_counter :: heading_counter
  mf_out :: "string set"

definition mf_init :: md_fragments where
  "mf_init = \<lparr>mf_in_heading = False, mf_heading_text = [], mf_heading_id = None,
     mf_counter = (\<lambda>_. 0), mf_out = {}\<rparr>"

definition end_heading :: "md_fragments \<Rightarrow> md_fragments" where
  "end_heading st =
     (let st = st\<lparr>mf_out := mf_out st \<union> set_option (mf_heading_id st), mf_heading_id := None\<rparr>;
          st = (if mf_heading_text st \<noteq> [] then
            (let (id, counter) = generate_id (mf_heading_text st) (mf_counter st) in
             st\<lparr>mf_out := insert id (mf_out st), mf_counter := counter, mf_heading_text := []\<rparr>) else st)
      in st\<lparr>mf_in_heading := False\<rparr>)"

fun handle_md_fragment :: "extract_env \<Rightarrow> md_event \<Rightarrow> md_fragments \<Rightarrow> md_fragments" where
  "handle_md_fragment xe (StartHeading own) st = st\<lparr>mf_heading_id := own, mf_in_heading := True\<rparr>"
| "handle_md_fragment xe EndHeading st = end_heading st"
| "handle_md_fragment xe (TextEvent txt) st =
     (if mf_in_heading st then st\<lparr>mf_heading_text := mf_heading_text st @ txt\<rparr> else st)"
| "handle_md_fragment xe (CodeEvent txt) st =
     (if mf_in_heading st then st\<lparr>mf_heading_text := mf_heading_text st @ txt\<rparr> else st)"
| "handle_md_fragment xe (HtmlEvent html) st = st\<lparr>mf_out := mf_out st \<union> extract_html_fragments xe html\<rparr>"
| "handle_md_fragment xe (InlineHtmlEvent html) st =
     st\<lparr>mf_out := mf_out st \<union> extract_html_fragments xe html\<rparr>"
| "handle_md_fragment xe _ st = st"

definition extract_markdown_fragments :: "extract_env \<Rightarrow> string \<Rightarrow> string set" where
  "extract_markdown_fragments xe input =
     mf_out (fold (handle_md_fragment xe) (xe_md_events xe input) mf_init)"

section \<open>The identifiers of headings\<close>

text \<open>A heading with an optional identifier of its own, and its text in pieces.\<close>

definition heading_events :: "string option \<times> string list \<Rightarrow> md_event list" where
  "heading_events h = StartHeading (fst h) # map TextEvent (snd h) @ [EndHeading]"

text \<open>The \<open>i\<close>-th of these names gets the number of equal names before it.\<close>

definition numbered :: "string list \<Rightarrow> nat \<Rightarrow> string" where
  "numbered names i =
     (let n = count_list (take i names) (names ! i) in
      if n = 0 then names ! i else names ! i @ ''-'' @ show_nat n)"

definition heading_names :: "(string option \<times> string list) list \<Rightarrow> string list" where
  "heading_names hs = map into_kebab_case (filter (\<lambda>t. t \<noteq> []) (map (\<lambda>h. concat (snd h)) hs))"

definition counts :: "string list \<Rightarrow> heading_counter" where
  "counts names = (\<lambda>k. count_list names k)"

lemma generate_id_counts:
  "generate_id h (counts names) =
     (numbered (names @ [into_kebab_case h]) (length names), counts (names @ [into_kebab_case h]))"
  by (simp add: generate_id_def Let_def numbered_def counts_def fun_eq_iff)

lemma run_texts:
  "mf_in_heading st \<Longrightarrow> fold (handle_md_fragment xe) (map TextEvent ts) st =
     st\<lparr>mf_heading_text := mf_heading_text st @ concat ts\<rparr>"
  by (induction ts arbitrary: st) simp_all

text \<open>Between headings the state is determined by the names so far and what was found.\<close>

definition between :: "string list \<Rightarrow> string set \<Rightarrow> md_fragments" where
  "between names out = mf_init\<lparr>mf_counter := counts names, mf_out := out\<rparr>"

lemma run_heading:
  "fold (handle_md_fragment xe) (heading_events h) (between names out) =
     (if concat (snd h) = [] then between names (out \<union> set_option (fst h))
      else let names' = names @ [into_kebab_case (concat (snd h))] in
        between names' (insert (numbered names' (length names)) (out \<union> set_option (fst h))))"
  by (simp add: heading_events_def run_texts end_heading_def between_def mf_init_def generate_id_counts Let_def)

lemma numbered_append: "i < length xs \<Longrightarrow> numbered (xs @ ys) i = numbered xs i"
  by (simp add: numbered_def nth_append Let_def)

lemma run_headings:
  "mf_out (fold (handle_md_fragment xe) (concat (map heading_events hs)) (between names out)) =
     out \<union> (\<Union>h \<in> set hs. set_option (fst h)) \<union>
     numbered (names @ heading_names hs) ` {length names..<length names + length (heading_names hs)}"
proof (induction hs arbitrary: names out)
  case Nil
  show ?case by (simp add: between_def heading_names_def)
next
  case (Cons h hs)
  show ?case
  proof (cases "concat (snd h) = []")
    case True
    then have "heading_names (h # hs) = heading_names hs" by (simp add: heading_names_def)
    with True show ?thesis by (simp add: run_heading Cons.IH Un_ac)
  next
    case False
    let ?k = "into_kebab_case (concat (snd h))"
    have names: "heading_names (h # hs) = ?k # heading_names hs" using False by (simp add: heading_names_def)
    have "{length names..<length names + length (heading_names (h # hs))} =
        insert (length names) {Suc (length names)..<Suc (length names) + length (heading_names hs)}"
      by (auto simp: names)
    moreover have "numbered (names @ ?k # heading_names hs) (length names) = numbered (names @ [?k]) (length names)"
      using numbered_append [of "length names" "names @ [?k]" "heading_names hs"] by simp
    moreover note step = run_heading [of xe h names out, unfolded if_not_P [OF False] Let_def]
    ultimately show ?thesis by (simp add: step Cons.IH names Un_ac)
  qed
qed

lemma show_nat_inj: "show_nat m = show_nat n \<Longrightarrow> m = n"
  by (metis max.cobounded1 max.cobounded2 parse_uint_show_nat sum.inject(2))

lemma count_list_take_less:
  assumes "i < j" "j < length xs" "xs ! i = x"
  shows "count_list (take i xs) x < count_list (take j xs) x"
proof -
  have "take j xs = take (Suc i) xs @ take (j - Suc i) (drop (Suc i) xs)"
    using take_add [of "Suc i" "j - Suc i" xs] assms(1) by simp
  moreover have "take (Suc i) xs = take i xs @ [x]"
    using take_Suc_conv_app_nth [of i xs] assms by simp
  ultimately show ?thesis by simp
qed

lemma numbered_distinct:
  assumes "i < j" "j < length names" "names ! i = names ! j"
  shows "numbered names i \<noteq> numbered names j"
proof -
  let ?n = "\<lambda>k. count_list (take k names) (names ! j)"
  have less: "?n i < ?n j" by (rule count_list_take_less [OF assms])
  then have "show_nat (?n i) \<noteq> show_nat (?n j)" using show_nat_inj by (metis less_irrefl)
  with less show ?thesis by (simp add: numbered_def Let_def assms(3))
qed

text \<open>The fragments of a document of headings are the identifiers the headings give themselves and
  their texts in kebab case, where a text that occurred before is numbered by its earlier occurrences.
  So equal headings never share an identifier, but the number is not checked against other headings:
  a heading \<open>a-1\<close> behind two headings \<open>a\<close> gets the identifier of the second of them.\<close>

theorem markdown_heading_fragments:
  assumes "xe_md_events xe input = concat (map heading_events hs)"
    and "i < j" "j < length names" "names ! i = names ! j"
  shows "extract_markdown_fragments xe input =
      (\<Union>h \<in> set hs. set_option (fst h)) \<union> numbered (heading_names hs) ` {..<length (heading_names hs)} \<and>
    numbered names i \<noteq> numbered names j \<and>
    map (numbered [''a'', ''a'', ''a-1'']) [0, 1, 2] = [''a'', ''a-1'', ''a-1'']"
proof (intro conjI)
  have "extract_markdown_fragments xe input =
      mf_out (fold (handle_md_fragment xe) (concat (map heading_events hs)) (between [] {}))"
    by (simp add: extract_markdown_fragments_def assms(1) between_def mf_init_def counts_def)
  then show "extract_markdown_fragments xe input =
      (\<Union>h \<in> set hs. set_option (fst h)) \<union> numbered (heading_names hs) ` {..<length (heading_names hs)}"
    by (simp add: run_headings lessThan_atLeast0)
  show "numbered names i \<noteq> numbered names j" by (rule numbered_distinct [OF assms(2-4)])
  show "map (numbered [''a'', ''a'', ''a-1'']) [0, 1, 2] = [''a'', ''a-1'', ''a-1'']"
    by (simp add: numbered_def show_nat.simps)
qed

text \<open>An environment whose Markdown parser gives these events, and these merged ones.\<close>

definition markdown_document :: "md_event list \<Rightarrow> (md_event \<times> nat) list \<Rightarrow> extract_env" where
  "markdown_document es merged = (documents [])\<lparr>xe_md_events := (\<lambda>_. es), xe_md_merged_events := (\<lambda>_. merged)\<rparr>"

lemma char_of_letters: "char_of (97 :: nat) = CHR ''a''" "char_of (98 :: nat) = CHR ''b''"
  by code_simp+

theorem markdown_heading_fragments_witness:
  "extract_markdown_fragments (markdown_document (concat (map heading_events
     [(Some ''own'', [''A'']), (None, [''a'', '' B'']), (None, [''A''])])) []) [] =
   {''own'', ''a'', ''a-b'', ''a-1''}"
proof -
  let ?hs = "[(Some ''own'', [''A'']), (None, [''a'', '' B'']), (None, [''A''])]"
  have "xe_md_events (markdown_document (concat (map heading_events ?hs)) []) [] = concat (map heading_events ?hs)"
    by (simp add: markdown_document_def)
  moreover have names: "heading_names ?hs = [''a'', ''a-b'', ''a'']"
    by (simp add: heading_names_def into_kebab_case_def List.map_filter_def kebab_char_def to_lowercase_def
        lower_char_def is_alphanumeric_def is_whitespace_def char_of_letters)
  moreover have "{..<length [''a'', ''a-b'', ''a'']} = {0, 1, 2}" by auto
  moreover have "numbered [''a'', ''a-b'', ''a''] 0 = ''a''" "numbered [''a'', ''a-b'', ''a''] 1 = ''a-b''"
    "numbered [''a'', ''a-b'', ''a''] 2 = ''a-1''"
    by (simp_all add: numbered_def show_nat.simps)
  ultimately show ?thesis
    using markdown_heading_fragments [of "markdown_document (concat (map heading_events ?hs)) []" "[]" ?hs
        0 2 "[''a'', ''a-b'', ''a'']"]
    by auto
qed

section \<open>The links of blocks\<close>

lemma run_md_append:
  "run_md xe sp v w (es @ fs) st =
     (let (links, st) = run_md xe sp v w es st; (links', st) = run_md xe sp v w fs st in (links @ links', st))"
  by (induction es arbitrary: st) (auto simp: Let_def split: prod.split)

lemma run_html_chunks:
  "md_html_block st \<Longrightarrow> run_md xe sp v w (map (\<lambda>(h, q). (HtmlEvent h, q)) chunks) st =
     ([], st\<lparr>md_html_buffer := md_html_buffer st @ concat (map fst chunks)\<rparr>)"
  by (induction chunks arbitrary: st) auto

lemma run_silent_texts:
  "md_extracted_link st \<or> (md_link_label st \<and> \<not> v) \<or> (md_code_block st \<and> \<not> v) \<Longrightarrow>
   run_md xe sp v w (map (\<lambda>(s, q). (TextEvent s, q)) texts) st = ([], st)"
  by (induction texts) auto

definition inline_link :: "link_type \<Rightarrow> bool" where
  "inline_link t \<longleftrightarrow> (case t of Autolink \<Rightarrow> False | Email \<Rightarrow> False | WikiLink _ \<Rightarrow> False | _ \<Rightarrow> True)"

lemma start_inline_link: "inline_link t \<Longrightarrow> start_link xe sp w t dest p st =
    (raw_uri_of dest (sp p), st\<lparr>md_link_label := True\<rparr>)"
  by (cases t) (simp_all add: inline_link_def start_link_def)

text \<open>
  What may stand in the label of a link: texts, code, images, inline HTML and markup, but no other link.  With
  \<open>txt\<close> its texts and its code are searched for links.
\<close>

fun label_event :: "md_event \<Rightarrow> bool" where
  "label_event (TextEvent _) = True"
| "label_event (CodeEvent _) = True"
| "label_event (StartImage _) = True"
| "label_event (InlineHtmlEvent _) = True"
| "label_event OtherMdEvent = True"
| "label_event _ = False"

fun label_links :: "extract_env \<Rightarrow> span_provider \<Rightarrow> bool \<Rightarrow> bool \<Rightarrow> md_event \<times> nat \<Rightarrow> raw_uri list" where
  "label_links xe sp v texts (TextEvent txt, q) = (if texts then extract_plaintext xe txt (offset_span q sp) else [])"
| "label_links xe sp v texts (CodeEvent code, q) = (if v then extract_plaintext xe code (offset_span (q + 1) sp) else [])"
| "label_links xe sp v texts (StartImage src, q) =
     [\<lparr>raw_text = src, raw_element = Some ''img'', raw_attribute = Some ''src'', raw_span = sp q\<rparr>]"
| "label_links xe sp v texts (InlineHtmlEvent html, q) = extract_html_with_span xe html v (offset_span q sp)"
| "label_links xe sp v texts _ = []"

lemma label_step:
  assumes "label_event (fst e)"
  shows "handle_md_event xe sp v w e st = (label_links xe sp v
    (\<not> (md_extracted_link st \<or> (md_link_label st \<and> \<not> v) \<or> (md_code_block st \<and> \<not> v))) e, st)"
  using assms by (cases "(xe, sp, v, w, e, st)" rule: handle_md_event.cases) (auto simp: extract_image_def)

lemma run_label:
  "\<forall>e \<in> set es. label_event (fst e) \<Longrightarrow> run_md xe sp v w es st = (concat (map (label_links xe sp v
    (\<not> (md_extracted_link st \<or> (md_link_label st \<and> \<not> v) \<or> (md_code_block st \<and> \<not> v)))) es), st)"
  by (induction es) (simp_all add: label_step Let_def)

text \<open>C32: Whatever the state of the document: an HTML block that arrives in pieces gives the links of the
  whole block, at the position where it starts.  A link gives its destination once, then what its label holds besides:
  the sources of its images and the links of its inline HTML, but nothing for its texts and its code unless verbatim
  text is included.  An autolink gives the links of its destination and those of images and HTML in its
  label, but for the texts of the label never any.  The text of a code block gives none unless verbatim text is
  included, and then the links of that text.\<close>

theorem markdown_links_once:
  "fst (run_md xe sp v w ((StartHtmlBlock, p) # map (\<lambda>(h, q). (HtmlEvent h, q)) chunks @ [(EndHtmlBlock, r)]) st) =
     (if concat (map fst chunks) = [] then []
      else extract_html_with_span xe (concat (map fst chunks)) v (offset_span p sp)) \<and>
   ((\<forall>e \<in> set label. label_event (fst e)) \<longrightarrow>
      (inline_link t \<longrightarrow>
        fst (run_md xe sp v w ((StartLink t dest, p) # label @ [(EndLink, r)]) st) =
        \<lparr>raw_text = dest, raw_element = Some ''a'', raw_attribute = Some ''href'', raw_span = sp p\<rparr> #
        concat (map (label_links xe sp v (v \<and> \<not> md_extracted_link st)) label)) \<and>
      (t \<in> {Autolink, Email} \<longrightarrow>
        fst (run_md xe sp v w ((StartLink t dest, p) # label @ [(EndLink, r)]) st) =
        extract_plaintext xe dest (offset_span (p + 1) sp) @ concat (map (label_links xe sp v False) label))) \<and>
   fst (run_md xe sp v w ((StartCodeBlock, p) # map (\<lambda>(s, q). (TextEvent s, q)) texts @ [(EndCodeBlock, r)]) st) =
     (if v \<and> \<not> md_extracted_link st then concat (map (\<lambda>(s, q). extract_plaintext xe s (offset_span q sp)) texts) else [])"
  (is "?html \<and> (_ \<longrightarrow> ?link \<and> ?auto) \<and> ?code")
proof (intro conjI impI)
  show ?html by (simp add: run_md_append run_html_chunks Let_def del: concat_eq_Nil_conv)
  assume label: "\<forall>e \<in> set label. label_event (fst e)"
  show "fst (run_md xe sp v w ((StartLink t dest, p) # label @ [(EndLink, r)]) st) =
      \<lparr>raw_text = dest, raw_element = Some ''a'', raw_attribute = Some ''href'', raw_span = sp p\<rparr> #
      concat (map (label_links xe sp v (v \<and> \<not> md_extracted_link st)) label)" if "inline_link t"
  proof (cases v)
    case True
    show ?thesis using that label True by (simp add: start_inline_link run_md_append run_label raw_uri_of_def Let_def)
  next
    case False
    show ?thesis using that label False by (simp add: start_inline_link run_md_append run_label raw_uri_of_def Let_def)
  qed
  show "fst (run_md xe sp v w ((StartLink t dest, p) # label @ [(EndLink, r)]) st) =
      extract_plaintext xe dest (offset_span (p + 1) sp) @ concat (map (label_links xe sp v False) label)" if "t \<in> {Autolink, Email}"
    using that label by (auto simp: start_link_def email_span_offset_def run_md_append run_label Let_def)
next
  have "concat (map (label_links xe sp v b) (map (\<lambda>(s, q). (TextEvent s, q)) texts)) =
      (if b then concat (map (\<lambda>(s, q). extract_plaintext xe s (offset_span q sp)) texts) else [])" for b
    by (induction texts) auto
  moreover have "\<forall>e \<in> set (map (\<lambda>(s, q). (TextEvent s, q)) texts). label_event (fst e)" by auto
  ultimately show ?code by (simp add: run_md_append run_label Let_def del: map_map)
qed

theorem markdown_links_once_witness:
  "let sp = \<lambda>n. \<lparr>span_line = 1, span_column = Some n\<rparr>; xe = documents [] in
    fst (run_md xe sp False False [(StartLink Inline ''b.md'', 4), (TextEvent ''https://b.org'', 5),
        (StartImage ''i.png'', 18), (OtherMdEvent, 25), (EndLink, 30)] md_init) =
      [\<lparr>raw_text = ''b.md'', raw_element = Some ''a'', raw_attribute = Some ''href'', raw_span = sp 4\<rparr>,
       \<lparr>raw_text = ''i.png'', raw_element = Some ''img'', raw_attribute = Some ''src'', raw_span = sp 18\<rparr>]"
proof -
  let ?label = "[(TextEvent ''https://b.org'', 5), (StartImage ''i.png'', 18), (OtherMdEvent, 25)]"
  let ?sp = "\<lambda>n. \<lparr>span_line = 1, span_column = Some n\<rparr>"
  have "\<forall>e \<in> set ?label. label_event (fst e)" "inline_link Inline" by (simp_all add: inline_link_def)
  with markdown_links_once [where xe = "documents []" and sp = ?sp and v = False and w = False and p = 4 and label = ?label
      and r = 30 and st = md_init and t = Inline and dest = "''b.md''"]
  show ?thesis by (simp add: Let_def)
qed

section \<open>The extractor\<close>

record extractor =
  ex_use_html5ever :: bool
  ex_include_verbatim :: bool
  ex_include_wikilinks :: bool

definition extractor_extract :: "extract_env \<Rightarrow> extractor \<Rightarrow> string \<Rightarrow> file_type \<Rightarrow> raw_uri list eval" where
  "extractor_extract xe self content file_type =
     (case file_type of
        Markdown \<Rightarrow> Value (extract_markdown xe content (ex_include_verbatim self) (ex_include_wikilinks self))
      | Html \<Rightarrow>
          if ex_use_html5ever self then html5ever_extract xe content (ex_include_verbatim self)
          else Value (extract_html xe content (ex_include_verbatim self))
      | Css \<Rightarrow> Value (extract_css xe content (source_span (provider_from_input content)))
      | Plaintext \<Rightarrow> Value (extract_plaintext xe content (source_span (provider_from_input content)))
      | Xml \<Rightarrow> extract_xml xe content (source_span (provider_from_input content)))"

lemma extract_default_no_panic:
  "\<not> ex_use_html5ever self \<Longrightarrow> file_type \<noteq> Xml \<Longrightarrow> extractor_extract xe self content file_type \<noteq> Panic"
  by (cases file_type) (simp_all add: extractor_extract_def)

end
