(* ===== verification/Fragment.thy ===== *)
theory Fragment
  imports MarkdownLinks Host
begin

text \<open>
  Checking the fragment of a URL against a document (\<open>lychee-lib/src/utils/fragment_checker/\<close>):
  splitting it into an element and text directives (\<open>parsed_fragment.rs\<close>), searching the visible
  text (\<open>text.rs\<close>), and the checker with its cache of the fragments of each document (\<open>mod.rs\<close>).
\<close>

section \<open>The environment\<close>

text \<open>\<open>FragmentCheckerOptions\<close> of \<open>lychee-lib/src/client.rs\<close>.\<close>

record fragment_options =
  check_anchor_fragments :: bool
  check_text_fragments :: bool

definition any_enabled :: "fragment_options \<Rightarrow> bool" where
  "any_enabled o' \<longleftrightarrow> check_anchor_fragments o' \<or> check_text_fragments o'"

text \<open>
  Percent decoding gives an error on invalid UTF-8, and says whether it had to allocate; the lossy
  variant replaces.  Regular expressions also escape text.
\<close>

record fragment_env =
  fe_extract :: extract_env
  fe_decode :: "string \<Rightarrow> string + string \<times> bool"
  fe_decode_lossy :: "string \<Rightarrow> string"
  fe_rx :: regex_crate
  fe_rx_escape :: "string \<Rightarrow> string"
  fe_urls :: url_crate
  fe_show_ip :: "url_host \<Rightarrow> string"

section \<open>Text directives\<close>

record text_directive =
  td_prefix :: "string option"
  td_start :: string
  td_end :: "string option"
  td_suffix :: "string option"

record parsed_fragment =
  pf_element_id :: "string option"
  pf_text_directives :: "text_directive list"

definition parsed_default :: parsed_fragment where
  "parsed_default = \<lparr>pf_element_id = None, pf_text_directives = []\<rparr>"

definition directive_strip_prefix :: "(string \<Rightarrow> string) \<Rightarrow> string list \<Rightarrow> string option \<times> string list" where
  "directive_strip_prefix dec parts =
     (if length parts \<ge> 2 \<and> suffix ''-'' (hd parts)
      then (Some (dec (butlast (hd parts))), tl parts) else (None, parts))"

definition directive_strip_suffix :: "(string \<Rightarrow> string) \<Rightarrow> string list \<Rightarrow> string option \<times> string list" where
  "directive_strip_suffix dec parts =
     (if length parts \<ge> 2 \<and> prefix ''-'' (last parts)
      then (Some (dec (tl (last parts))), butlast parts) else (None, parts))"

definition directive_parse :: "(string \<Rightarrow> string) \<Rightarrow> string \<Rightarrow> text_directive option" where
  "directive_parse dec input =
     (if input = [] then None
      else let parts = split_on (CHR '','') input in
        if hd parts = [] then None
        else
          let (pre, parts) = directive_strip_prefix dec parts;
              (suf, parts) = directive_strip_suffix dec parts
          in (case parts of
                [start] \<Rightarrow> Some \<lparr>td_prefix = pre, td_start = dec start, td_end = None, td_suffix = suf\<rparr>
              | [start, end'] \<Rightarrow>
                  Some \<lparr>td_prefix = pre, td_start = dec start, td_end = Some (dec end'), td_suffix = suf\<rparr>
              | _ \<Rightarrow> None))"

definition fragment_parse :: "(string \<Rightarrow> string) \<Rightarrow> url \<Rightarrow> parsed_fragment" where
  "fragment_parse dec url =
     (case url_fragment url of
        None \<Rightarrow> parsed_default
      | Some fragment \<Rightarrow>
          (case split_once '':~:'' fragment of
             None \<Rightarrow> \<lparr>pf_element_id = Some fragment, pf_text_directives = []\<rparr>
           | Some (element_id, directive) \<Rightarrow>
               \<lparr>pf_element_id = (if element_id \<noteq> [] then Some element_id else None),
                pf_text_directives =
                  List.map_filter (\<lambda>(_, v). directive_parse dec v)
                    (filter (\<lambda>(key, _). key = ''text'')
                      (List.map_filter (split_once ''='') (split_on (CHR ''&'') directive)))\<rparr>))"

text \<open>The text of a directive whose parts are given percent-encoded, and of a whole fragment.\<close>

definition directive_show :: "text_directive \<Rightarrow> string" where
  "directive_show d = join '','' (
     (case td_prefix d of Some p \<Rightarrow> [p @ ''-''] | None \<Rightarrow> []) @ [td_start d] @
     (case td_end d of Some e \<Rightarrow> [e] | None \<Rightarrow> []) @
     (case td_suffix d of Some s \<Rightarrow> [CHR ''-'' # s] | None \<Rightarrow> []))"

definition directive_decode :: "(string \<Rightarrow> string) \<Rightarrow> text_directive \<Rightarrow> text_directive" where
  "directive_decode dec d = \<lparr>td_prefix = map_option dec (td_prefix d), td_start = dec (td_start d),
     td_end = map_option dec (td_end d), td_suffix = map_option dec (td_suffix d)\<rparr>"

definition directive_ok :: "text_directive \<Rightarrow> bool" where
  "directive_ok d \<longleftrightarrow>
     td_start d \<noteq> [] \<and> hd (td_start d) \<noteq> CHR ''-'' \<and> last (td_start d) \<noteq> CHR ''-'' \<and>
     (case td_end d of Some e \<Rightarrow> \<not> prefix ''-'' e | None \<Rightarrow> True) \<and>
     (\<forall>s \<in> {td_start d} \<union> set_option (td_prefix d) \<union> set_option (td_end d) \<union> set_option (td_suffix d).
        CHR '','' \<notin> set s \<and> CHR ''&'' \<notin> set s)"

lemma suffix_dash: "suffix ''-'' s \<longleftrightarrow> s \<noteq> [] \<and> last s = CHR ''-''"
  by (cases s rule: rev_cases) (auto simp: suffix_def)

lemma prefix_dash: "prefix ''-'' s \<longleftrightarrow> s \<noteq> [] \<and> hd s = CHR ''-''"
  by (cases s) auto

lemma directive_parts:
  assumes "directive_ok d"
  shows "split_on (CHR '','') (directive_show d) =
    (case td_prefix d of Some p \<Rightarrow> [p @ ''-''] | None \<Rightarrow> []) @ [td_start d] @
     (case td_end d of Some e \<Rightarrow> [e] | None \<Rightarrow> []) @
     (case td_suffix d of Some s \<Rightarrow> [CHR ''-'' # s] | None \<Rightarrow> [])"
  unfolding directive_show_def using assms
  by (intro split_on_join) (auto simp: directive_ok_def split: option.splits)

lemma directive_parse_show:
  assumes "directive_ok d"
  shows "directive_parse dec (directive_show d) = Some (directive_decode dec d)"
proof -
  have "directive_show d \<noteq> []"
    using arg_cong [OF directive_parts [OF assms], of length] assms
    by (auto simp: directive_show_def directive_ok_def split: option.splits)
  then show ?thesis
    using assms unfolding directive_parse_def Let_def directive_parts [OF assms]
    by (cases "td_prefix d"; cases "td_end d"; cases "td_suffix d")
      (auto simp: directive_strip_prefix_def directive_strip_suffix_def directive_ok_def directive_decode_def
        suffix_dash prefix_dash)
qed

text \<open>A whole fragment: an element, then the directives.\<close>

definition fragment_show :: "string \<Rightarrow> text_directive list \<Rightarrow> string" where
  "fragment_show element ds = element @ '':~:'' @ join ''&'' (map (\<lambda>d. ''text='' @ directive_show d) ds)"

lemma split_once_first:
  "\<not> sublist pat (a @ butlast pat) \<Longrightarrow> pat \<noteq> [] \<Longrightarrow> split_once pat (a @ pat @ b) = Some (a, b)"
proof (induction a)
  case Nil
  then show ?case by (cases pat) (auto simp: prefix_def)
next
  case (Cons c a)
  have "\<not> prefix pat (c # a @ pat @ b)"
  proof
    assume "prefix pat (c # a @ pat @ b)"
    then have "prefix pat (take (length pat) (c # a @ pat @ b))"
      by (auto simp: prefix_def)
    moreover have "take (length pat) (c # a @ pat @ b) = take (length pat) ((c # a) @ butlast pat)"
    proof -
      have "c # a @ pat @ b = ((c # a) @ butlast pat) @ last pat # b"
        using Cons.prems(2) by simp
      moreover have "length pat \<le> length ((c # a) @ butlast pat)" using Cons.prems(2) by simp
      ultimately show ?thesis by (metis append_eq_conv_conj take_append take_all_iff diff_is_0_eq append.right_neutral take0)
    qed
    ultimately have "sublist pat ((c # a) @ butlast pat)"
      by (metis prefix_imp_sublist prefix_order.trans take_is_prefix)
    with Cons.prems show False by simp
  qed
  moreover have "\<not> sublist pat (a @ butlast pat)"
    using Cons.prems(1) by (simp add: sublist_Cons_right)
  ultimately show ?case using Cons by simp
qed

lemma directive_show_no_amp: "directive_ok d \<Longrightarrow> CHR ''&'' \<notin> set (directive_show d)"
proof -
  assume "directive_ok d"
  moreover have "c \<in> set (join sep ps) \<Longrightarrow> c \<in> set sep \<or> (\<exists>p \<in> set ps. c \<in> set p)" for c :: char and sep ps
    by (induction sep ps rule: join.induct) auto
  ultimately show ?thesis
    by (fastforce simp: directive_show_def directive_ok_def split: option.splits)
qed

text \<open>A fragment of an element and text directives is taken apart into exactly these, with the parts of
  the directives percent-decoded, whichever of prefix, end and suffix they have.\<close>

theorem fragment_parse_show:
  assumes "url_fragment url = Some (fragment_show element ds)" "ds \<noteq> []" "\<forall>d \<in> set ds. directive_ok d"
    and "\<not> sublist '':~:'' (element @ '':~'')"
  shows "fragment_parse dec url =
    \<lparr>pf_element_id = (if element = [] then None else Some element),
     pf_text_directives = map (directive_decode dec) ds\<rparr>"
proof -
  let ?comps = "map (\<lambda>d. ''text='' @ directive_show d) ds"
  have "split_once '':~:'' (fragment_show element ds) = Some (element, join ''&'' ?comps)"
    unfolding fragment_show_def using assms(4) by (intro split_once_first) simp_all
  moreover have "split_on (CHR ''&'') (join ''&'' ?comps) = ?comps"
    using assms(2,3) by (intro split_on_join) (auto simp: directive_show_no_amp)
  moreover have "split_once ''='' (''text='' @ x) = Some (''text'', x)" for x
    using split_once_char [of "CHR ''=''" "''text''" x] by simp
  then have "List.map_filter (split_once ''='') ?comps = map (\<lambda>d. (''text'', directive_show d)) ds"
    by (simp add: List.map_filter_def comp_def)
  moreover have "List.map_filter (\<lambda>(_, v). directive_parse dec v) (map (\<lambda>d. (''text'', directive_show d)) ds) =
      map (directive_decode dec) ds"
    using assms(3) by (induction ds) (simp_all add: List.map_filter_def directive_parse_show)
  ultimately show ?thesis
    by (simp add: fragment_parse_def assms(1) filter_True)
qed

theorem fragment_parse_show_witness:
  "fragment_parse id ((domain_url ''https'' ''a.org'' ''/'')\<lparr>url_fragment := Some ''s:~:text=p-,a,b,-q&text=c''\<rparr>) =
     \<lparr>pf_element_id = Some ''s'', pf_text_directives =
       [\<lparr>td_prefix = Some ''p'', td_start = ''a'', td_end = Some ''b'', td_suffix = Some ''q''\<rparr>,
        \<lparr>td_prefix = None, td_start = ''c'', td_end = None, td_suffix = None\<rparr>]\<rparr>"
proof -
  let ?ds = "[\<lparr>td_prefix = Some ''p'', td_start = ''a'', td_end = Some ''b'', td_suffix = Some ''q''\<rparr>,
        \<lparr>td_prefix = None, td_start = ''c'', td_end = None, td_suffix = None\<rparr>]"
  have "fragment_show ''s'' ?ds = ''s:~:text=p-,a,b,-q&text=c''"
    by (simp add: fragment_show_def directive_show_def)
  moreover have "\<forall>d \<in> set ?ds. directive_ok d" by (simp add: directive_ok_def)
  moreover have "\<not> sublist '':~:'' (''s'' @ '':~'')" by (simp add: sublist_Cons_right)
  ultimately show ?thesis
    using fragment_parse_show [of "(domain_url ''https'' ''a.org'' ''/'')\<lparr>url_fragment := Some ''s:~:text=p-,a,b,-q&text=c''\<rparr>"
      "''s''" ?ds id]
    by (simp add: directive_decode_def)
qed

section \<open>Searching the visible text\<close>

text \<open>The words of a text with single spaces between them.\<close>

definition intersperse_whitespace :: "string \<Rightarrow> string list" where
  "intersperse_whitespace s =
     concat (map (\<lambda>(i, word). (if i > 0 then ['' ''] else []) @ [word]) (enumerate 0 (split_whitespace s)))"

definition normalize_whitespace :: "string \<Rightarrow> string" where
  "normalize_whitespace s = concat (intersperse_whitespace s)"

definition is_hidden_tag :: "string \<Rightarrow> bool" where
  "is_hidden_tag name \<longleftrightarrow> name \<in> {''head'', ''script'', ''style'', ''template'', ''iframe'', ''img'', ''meter'',
     ''object'', ''progress'', ''video'', ''audio'', ''select''}"

definition push_space :: "string \<Rightarrow> string" where
  "push_space s = (if s \<noteq> [] \<and> is_whitespace (last s) then s else s @ '' '')"

text \<open>The state is the visible text so far and the stack of hidden tags, the top first.\<close>

fun visible_step :: "html_token \<Rightarrow> string \<times> string list \<Rightarrow> string \<times> string list" where
  "visible_step (StartTagToken name) (s, hidden) = (s, if is_hidden_tag name then name # hidden else hidden)"
| "visible_step (EndTagToken name) (s, hidden) =
     (s, if hidden \<noteq> [] \<and> hd hidden = name then tl hidden else hidden)"
| "visible_step (StringToken v) (s, hidden) =
     (if hidden = [] then
        (let s = (if v \<noteq> [] \<and> is_whitespace (hd v) then push_space s else s);
             s = s @ concat (intersperse_whitespace v);
             s = (if v \<noteq> [] \<and> is_whitespace (last v) then push_space s else s)
         in (s, hidden))
      else (s, hidden))"
| "visible_step OtherToken st = st"

definition extract_visible_text :: "html_token list \<Rightarrow> string" where
  "extract_visible_text tokens = fst (fold visible_step tokens ([], []))"

definition directive_to_regex :: "(string \<Rightarrow> string) \<Rightarrow> text_directive \<Rightarrow> string" where
  "directive_to_regex esc d =
     (case td_prefix d of Some p \<Rightarrow> esc (normalize_whitespace (trim p)) @ [CHR 0x5C] @ ''s*'' | None \<Rightarrow> []) @
     esc (normalize_whitespace (trim (td_start d))) @
     (case td_end d of Some e \<Rightarrow> ''.+?'' @ esc (normalize_whitespace (trim e)) | None \<Rightarrow> []) @
     (case td_suffix d of Some s \<Rightarrow> [CHR 0x5C] @ ''s*'' @ esc (normalize_whitespace (trim s)) | None \<Rightarrow> [])"

definition directive_matches :: "fragment_env \<Rightarrow> string \<Rightarrow> text_directive \<Rightarrow> bool" where
  "directive_matches fe document d =
     (let regex = directive_to_regex (fe_rx_escape fe) d in
      case rx_error (fe_rx fe) regex of
        Some _ \<Rightarrow> False
      | None \<Rightarrow> rx_is_match (fe_rx fe) regex document)"

definition matches_all_directives ::
  "fragment_env \<Rightarrow> text_directive list \<Rightarrow> string \<Rightarrow> file_type \<Rightarrow> bool" where
  "matches_all_directives fe directives content file_type \<longleftrightarrow>
     (if file_type \<noteq> Html then True
      else if directives = [] then True
      else let document = extract_visible_text (xe_html_tokens (fe_extract fe) content)
        in \<forall>d \<in> set directives. directive_matches fe document d)"

text \<open>What is visible has no other white space than single spaces.\<close>

definition single_spaced :: "string \<Rightarrow> bool" where
  "single_spaced s \<longleftrightarrow> successively (\<lambda>a b. \<not> (is_whitespace a \<and> is_whitespace b)) s \<and>
     (\<forall>c \<in> set s. is_whitespace c \<longrightarrow> c = CHR '' '')"

lemma single_spaced_append:
  "single_spaced (a @ b) \<longleftrightarrow> single_spaced a \<and> single_spaced b \<and>
     (a \<noteq> [] \<and> b \<noteq> [] \<longrightarrow> \<not> (is_whitespace (last a) \<and> is_whitespace (hd b)))"
  by (auto simp: single_spaced_def successively_append_iff)

lemma is_whitespace_space [simp]: "is_whitespace (CHR '' '')"
  by (simp add: is_whitespace_def)

lemma single_spaced_simple [simp]: "single_spaced []" "single_spaced '' ''"
  by (simp_all add: single_spaced_def)

lemma word_single_spaced: "\<forall>c \<in> set w. \<not> is_whitespace c \<Longrightarrow> single_spaced w"
  by (auto simp: single_spaced_def successively_conv_nth)

lemma single_spaced_Cons:
  "single_spaced (c # s) \<longleftrightarrow> (is_whitespace c \<longrightarrow> c = CHR '' '') \<and> single_spaced s \<and>
     (s \<noteq> [] \<longrightarrow> \<not> (is_whitespace c \<and> is_whitespace (hd s)))"
  by (auto simp: single_spaced_def successively_Cons)

lemma push_space: "single_spaced s \<Longrightarrow> single_spaced (push_space s) \<and> push_space s \<noteq> [] \<and>
    is_whitespace (last (push_space s))"
  by (auto simp: push_space_def single_spaced_append)

lemma intersperse_join_aux:
  "concat (concat (map (\<lambda>(i, w). (if i > 0 then ['' ''] else []) @ [w]) (enumerate (Suc n) ws))) =
     concat (map (\<lambda>w. CHR '' '' # w) ws)"
  by (induction ws arbitrary: n) simp_all

lemma normalize_whitespace_join: "normalize_whitespace s = join '' '' (split_whitespace s)"
proof -
  have "concat (map (\<lambda>w. CHR '' '' # w) ws) = (if ws = [] then [] else '' '' @ join '' '' ws)" for ws
    by (induction ws) (auto simp: join_Cons)
  then show ?thesis
    by (cases "split_whitespace s")
      (auto simp: normalize_whitespace_def intersperse_whitespace_def intersperse_join_aux [of 0, simplified] join_Cons)
qed

lemma join_words_single_spaced:
  "\<forall>w \<in> set ws. w \<noteq> [] \<and> (\<forall>c \<in> set w. \<not> is_whitespace c) \<Longrightarrow>
   single_spaced (join '' '' ws) \<and> (ws \<noteq> [] \<longrightarrow> join '' '' ws \<noteq> [] \<and> \<not> is_whitespace (hd (join '' '' ws)) \<and>
     \<not> is_whitespace (last (join '' '' ws)))"
  by (induction "'' ''" ws rule: join.induct) (auto simp: word_single_spaced single_spaced_append single_spaced_Cons)

lemma normalize_single_spaced:
  "single_spaced (normalize_whitespace s)"
  "normalize_whitespace s \<noteq> [] \<Longrightarrow> \<not> is_whitespace (hd (normalize_whitespace s)) \<and>
     \<not> is_whitespace (last (normalize_whitespace s))"
  using join_words_single_spaced [of "split_whitespace s"] split_whitespace_words [of _ s]
  by (auto simp: normalize_whitespace_join)

lemma normalize_idem: "normalize_whitespace (normalize_whitespace s) = normalize_whitespace s"
  by (simp add: normalize_whitespace_join split_whitespace_join split_whitespace_words)

lemma visible_step_single_spaced:
  assumes "single_spaced (fst st)"
  shows "single_spaced (fst (visible_step tok st))"
proof -
  obtain s hidden where st: "st = (s, hidden)" by force
  show ?thesis
  proof (cases tok)
    case (StringToken v)
    define pre where "pre = (if v \<noteq> [] \<and> is_whitespace (hd v) then push_space s else s)"
    have "single_spaced pre" using assms by (simp add: pre_def st push_space)
    then have all: "single_spaced (pre @ normalize_whitespace v)"
      using normalize_single_spaced [of v] by (auto simp: single_spaced_append)
    have "visible_step tok st = (if hidden = [] then
        (if v \<noteq> [] \<and> is_whitespace (last v) then push_space (pre @ normalize_whitespace v)
         else pre @ normalize_whitespace v, hidden) else (s, hidden))"
      by (simp add: st StringToken pre_def normalize_whitespace_def Let_def)
    with all assms show ?thesis by (simp add: push_space st)
  qed (use assms in \<open>auto simp: st\<close>)
qed

lemma visible_run_single_spaced:
  "single_spaced (fst st) \<Longrightarrow> single_spaced (fst (fold visible_step tokens st))"
  by (induction tokens arbitrary: st) (simp_all add: visible_step_single_spaced)

text \<open>A hidden tag hides what follows until its own end tag.\<close>

lemma hidden_run:
  "hidden \<noteq> [] \<Longrightarrow> last hidden = h \<Longrightarrow> EndTagToken h \<notin> set tokens \<Longrightarrow>
   fst (fold visible_step tokens (s, hidden)) = s"
proof (induction tokens arbitrary: hidden)
  case (Cons tok tokens)
  have "\<exists>hidden'. visible_step tok (s, hidden) = (s, hidden') \<and> hidden' \<noteq> [] \<and> last hidden' = h"
  proof (cases tok)
    case (EndTagToken name)
    with Cons.prems show ?thesis by (cases hidden; cases "tl hidden") auto
  qed (use Cons.prems in auto)
  with Cons show ?case by auto
qed simp

text \<open>The visible text of a document has no white space but single spaces, and so has what the parts of
  a directive are compared by; and it is the text up to the first hidden tag that has no end tag.  An
  image is such a tag, so no text behind an image is ever found.\<close>

theorem visible_text_until_hidden:
  "single_spaced (extract_visible_text tokens) \<and> single_spaced (normalize_whitespace s) \<and>
   normalize_whitespace (normalize_whitespace s) = normalize_whitespace s \<and>
   (snd (fold visible_step before ([], [])) = [] \<and> is_hidden_tag h \<and> EndTagToken h \<notin> set after \<longrightarrow>
      extract_visible_text (before @ StartTagToken h # after) = extract_visible_text before) \<and>
   is_hidden_tag ''img''"
proof (intro conjI impI)
  show "single_spaced (extract_visible_text tokens)"
    unfolding extract_visible_text_def by (rule visible_run_single_spaced) simp
  assume "snd (fold visible_step before ([], [])) = [] \<and> is_hidden_tag h \<and> EndTagToken h \<notin> set after"
  moreover obtain s where "fold visible_step before ([], []) = (s, snd (fold visible_step before ([], [])))"
    by (metis prod.collapse)
  ultimately show "extract_visible_text (before @ StartTagToken h # after) = extract_visible_text before"
    using hidden_run [of "[h]" h after s] by (simp add: extract_visible_text_def)
qed (simp_all add: normalize_single_spaced normalize_idem is_hidden_tag_def)

theorem visible_text_until_hidden_witness:
  "extract_visible_text [StringToken '' a  b '', StartTagToken ''i'', StringToken ''c''] = '' a b c'' \<and>
   extract_visible_text [StringToken ''a'', StartTagToken ''img'', StringToken ''b''] = ''a''"
  using visible_text_until_hidden [of "[]" "[]" "[StringToken ''a'']" "''img''" "[StringToken ''b'']"]
  by (simp add: extract_visible_text_def intersperse_whitespace_def split_whitespace_def is_whitespace_def
      push_space_def is_hidden_tag_def)

end
