(* ===== verification/FragmentChecker.thy ===== *)
theory FragmentChecker
  imports Fragment
begin

text \<open>
  The fragment checker (\<open>lychee-lib/src/utils/fragment_checker/mod.rs\<close>): the candidates a fragment is
  expanded to, and the cache of the fragments of each document by its URL.
\<close>

section \<open>Candidates\<close>

definition ascii_lower :: "char \<Rightarrow> char" where
  "ascii_lower c = (let n = (of_char c :: nat) in if 65 \<le> n \<and> n \<le> 90 then char_of (n + 32) else c)"

definition eq_ignore_ascii_case :: "string \<Rightarrow> string \<Rightarrow> bool" where
  "eq_ignore_ascii_case a b \<longleftrightarrow> map ascii_lower a = map ascii_lower b"

record fragment_builder =
  fb_variants :: "string list"
  fb_decoded :: "string list"

text \<open>The decoded form of a variant, if it differs from the variant.\<close>

definition decode_variant :: "fragment_env \<Rightarrow> file_type \<Rightarrow> string \<Rightarrow> error_kind + string option" where
  "decode_variant fe file_type frag =
     res_bind (map_err Utf8 (fe_decode fe frag)) (\<lambda>(decoded, require_alloc).
       let (decoded, require_alloc) =
             (if file_type = Markdown \<and> to_lowercase decoded \<noteq> decoded
              then (to_lowercase decoded, True) else (decoded, require_alloc))
       in Inr (if require_alloc then Some decoded else None))"

definition on_github :: "fragment_env \<Rightarrow> url \<Rightarrow> bool" where
  "on_github fe url \<longleftrightarrow> (case url_host url of
      Some h \<Rightarrow> suffix ''github.com'' (host_str (fe_show_ip fe) h) | None \<Rightarrow> False)"

definition builder_new :: "fragment_env \<Rightarrow> string \<Rightarrow> url \<Rightarrow> file_type \<Rightarrow> error_kind + fragment_builder" where
  "builder_new fe fragment url file_type =
     (let variants = [fragment] @ (if on_github fe url then [''user-content-'' @ fragment] else []) in
      res_bind (collect_results (map (decode_variant fe file_type) variants)) (\<lambda>decoded.
        Inr \<lparr>fb_variants = variants, fb_decoded = List.map_filter id decoded\<rparr>))"

definition any_matches :: "fragment_builder \<Rightarrow> string set \<Rightarrow> bool" where
  "any_matches fb fragments \<longleftrightarrow> (\<exists>frag \<in> set (fb_variants fb @ fb_decoded fb). frag \<in> fragments)"

section \<open>The checker\<close>

type_synonym fragment_cache = "string \<rightharpoonup> string set"

record fragment_input =
  fi_content :: string
  fi_file_type :: file_type

definition remove_fragment :: "fragment_env \<Rightarrow> url \<Rightarrow> string" where
  "remove_fragment fe url = url_str (uc_set_fragment (fe_urls fe) None url)"

definition with_element_fragment :: "fragment_env \<Rightarrow> url \<Rightarrow> string option \<Rightarrow> url" where
  "with_element_fragment fe url fragment = uc_set_fragment (fe_urls fe) fragment url"

definition fragment_extractor :: "fragment_env \<Rightarrow> file_type \<Rightarrow> (string \<Rightarrow> string set) option" where
  "fragment_extractor fe file_type =
     (case file_type of
        Markdown \<Rightarrow> Some (extract_markdown_fragments (fe_extract fe))
      | Html \<Rightarrow> Some (extract_html_fragments (fe_extract fe))
      | _ \<Rightarrow> None)"

definition check_anchor_fragment ::
  "fragment_env \<Rightarrow> string \<Rightarrow> file_type \<Rightarrow> url \<Rightarrow> string option \<Rightarrow> fragment_cache \<Rightarrow>
   (error_kind + bool) \<times> fragment_cache" where
  "check_anchor_fragment fe content file_type url anchor_fragment cache =
     (case anchor_fragment of
        None \<Rightarrow> (Inr True, cache)
      | Some fragment \<Rightarrow>
          if fragment = [] \<or> eq_ignore_ascii_case fragment ''top'' then (Inr True, cache)
          else (case fragment_extractor fe file_type of
              None \<Rightarrow> (Inr True, cache)
            | Some extractor \<Rightarrow>
                (case builder_new fe fragment (with_element_fragment fe url anchor_fragment) file_type of
                   Inl e \<Rightarrow> (Inl e, cache)
                 | Inr candidates \<Rightarrow>
                     (case cache (remove_fragment fe url) of
                        None \<Rightarrow>
                          let file_frags = extractor content in
                          (Inr (any_matches candidates file_frags),
                           cache(remove_fragment fe url \<mapsto> file_frags))
                      | Some file_frags \<Rightarrow> (Inr (any_matches candidates file_frags), cache)))))"

definition fragment_check ::
  "fragment_env \<Rightarrow> fragment_options \<Rightarrow> fragment_input \<Rightarrow> url \<Rightarrow> fragment_cache \<Rightarrow>
   (error_kind + bool) \<times> fragment_cache" where
  "fragment_check fe options input url cache =
     (let parsed = fragment_parse (fe_decode_lossy fe) url;
          (anchor, cache) =
            (if check_anchor_fragments options \<and> pf_element_id parsed \<noteq> None
             then check_anchor_fragment fe (fi_content input) (fi_file_type input) url
               (pf_element_id parsed) cache
             else (Inr True, cache))
      in (case anchor of
            Inl e \<Rightarrow> (Inl e, cache)
          | Inr False \<Rightarrow> (Inr False, cache)
          | Inr True \<Rightarrow>
              (Inr (\<not> (check_text_fragments options \<and> pf_text_directives parsed \<noteq> [] \<and>
                 \<not> matches_all_directives fe (pf_text_directives parsed) (fi_content input)
                   (fi_file_type input))), cache)))"

section \<open>The cache does not show\<close>

text \<open>
  The cache holds for every URL the fragments of its document, where \<open>docs\<close> gives the document of a
  URL without fragment.
\<close>

definition cache_of :: "fragment_env \<Rightarrow> (string \<Rightarrow> fragment_input) \<Rightarrow> fragment_cache \<Rightarrow> bool" where
  "cache_of fe docs cache \<longleftrightarrow> (\<forall>u frags. cache u = Some frags \<longrightarrow>
     (\<exists>extractor. fragment_extractor fe (fi_file_type (docs u)) = Some extractor \<and>
        frags = extractor (fi_content (docs u))))"

lemma check_anchor_cached:
  assumes "cache_of fe docs cache" "docs (remove_fragment fe url) = input"
  shows "fst (check_anchor_fragment fe (fi_content input) (fi_file_type input) url anchor cache) =
      fst (check_anchor_fragment fe (fi_content input) (fi_file_type input) url anchor Map.empty)"
    and "cache_of fe docs (snd (check_anchor_fragment fe (fi_content input) (fi_file_type input) url anchor cache))"
proof -
  have cached: "frags = ext (fi_content input)"
    if "cache (remove_fragment fe url) = Some frags"
      and "fragment_extractor fe (fi_file_type input) = Some ext" for frags ext
    using that assms by (fastforce simp: cache_of_def)
  show "fst (check_anchor_fragment fe (fi_content input) (fi_file_type input) url anchor cache) =
      fst (check_anchor_fragment fe (fi_content input) (fi_file_type input) url anchor Map.empty)"
    using cached by (auto simp: check_anchor_fragment_def Let_def split: option.split sum.split)
  show "cache_of fe docs (snd (check_anchor_fragment fe (fi_content input) (fi_file_type input) url anchor cache))"
    using assms by (auto simp: check_anchor_fragment_def cache_of_def Let_def split: option.split sum.split)
qed

lemma fragment_check_cached:
  assumes "cache_of fe docs cache" "docs (remove_fragment fe url) = input"
  shows "fst (fragment_check fe options input url cache) = fst (fragment_check fe options input url Map.empty)"
    and "cache_of fe docs (snd (fragment_check fe options input url cache))"
proof -
  let ?c = "\<lambda>cache. check_anchor_fragment fe (fi_content input) (fi_file_type input) url
      (pf_element_id (fragment_parse (fe_decode_lossy fe) url)) cache"
  obtain r c1 where r: "?c cache = (r, c1)" by force
  obtain c2 where r2: "?c Map.empty = (r, c2)"
    using check_anchor_cached(1) [OF assms, of "pf_element_id (fragment_parse (fe_decode_lossy fe) url)"] r
    by (metis fst_conv prod.collapse)
  have "cache_of fe docs c1" using check_anchor_cached(2) [OF assms] r by (metis snd_conv)
  with assms(1) show "cache_of fe docs (snd (fragment_check fe options input url cache))"
    by (auto simp: fragment_check_def r Let_def split: sum.split bool.split)
  show "fst (fragment_check fe options input url cache) = fst (fragment_check fe options input url Map.empty)"
    by (auto simp: fragment_check_def r r2 Let_def split: sum.split bool.split)
qed

text \<open>Many checks, one after the other, on the documents of their URLs.\<close>

definition check_step ::
  "fragment_env \<Rightarrow> fragment_options \<Rightarrow> (string \<Rightarrow> fragment_input) \<Rightarrow> url \<Rightarrow> fragment_cache \<Rightarrow> fragment_cache"
where
  "check_step fe options docs url cache =
     snd (fragment_check fe options (docs (remove_fragment fe url)) url cache)"

interpretation fragment_cache: kept_by_steps "check_step fe options docs" "cache_of fe docs"
  by unfold_locales (simp add: check_step_def fragment_check_cached(2))

text \<open>C29: Whatever was checked before, a fragment check answers as if the document were parsed anew, as
  long as a URL always stands for the same document; and once a document was parsed its entry stays.
  Empty fragments, \<open>top\<close> in any case and documents that are neither HTML nor Markdown always pass the
  check of anchors.\<close>

theorem fragment_cache_transparent:
  assumes "cache = fold (check_step fe options docs) history Map.empty"
  shows "fst (fragment_check fe options (docs (remove_fragment fe url)) url cache) =
      fst (fragment_check fe options (docs (remove_fragment fe url)) url Map.empty) \<and>
    (cache u = Some frags \<longrightarrow> check_step fe options docs url cache u = Some frags) \<and>
    ((fragment = [] \<or> eq_ignore_ascii_case fragment ''top'' \<or> file_type \<notin> {Html, Markdown}) \<longrightarrow>
      check_anchor_fragment fe content file_type url (Some fragment) cache = (Inr True, cache))"
proof (intro conjI impI)
  have "cache_of fe docs cache"
    unfolding assms by (rule fragment_cache.run_keeps) (simp add: cache_of_def)
  then show "fst (fragment_check fe options (docs (remove_fragment fe url)) url cache) =
      fst (fragment_check fe options (docs (remove_fragment fe url)) url Map.empty)"
    by (rule fragment_check_cached(1)) (rule refl)
  have "snd (check_anchor_fragment fe c t url anchor cache) u = Some frags" if "cache u = Some frags" for c t anchor
    using that by (auto simp: check_anchor_fragment_def Let_def split: option.splits sum.splits)
  then show "check_step fe options docs url cache u = Some frags" if "cache u = Some frags"
    using that by (auto simp: check_step_def fragment_check_def Let_def split: prod.splits sum.splits bool.splits)
      (metis snd_conv)+
  show "check_anchor_fragment fe content file_type url (Some fragment) cache = (Inr True, cache)"
    if "fragment = [] \<or> eq_ignore_ascii_case fragment ''top'' \<or> file_type \<notin> {Html, Markdown}"
    using that by (cases file_type) (auto simp: check_anchor_fragment_def fragment_extractor_def)
qed

text \<open>An environment without escapes whose only document is empty.\<close>

definition plain_fragment_env :: fragment_env where
  "plain_fragment_env = \<lparr>fe_extract = documents [], fe_decode = (\<lambda>s. Inr (s, False)), fe_decode_lossy = id,
     fe_rx = \<lparr>rx_error = Map.empty, rx_is_match = sublist, rx_replace_all = (\<lambda>p r s. s)\<rparr>, fe_rx_escape = id,
     fe_urls = \<lparr>uc_parse = (\<lambda>s. Inl (OtherParseError s)), uc_join = (\<lambda>u s. Inr u),
       uc_set_scheme = (\<lambda>s u. Some (u\<lparr>url_scheme := s\<rparr>)), uc_set_fragment = (\<lambda>f u. u\<lparr>url_fragment := f\<rparr>)\<rparr>,
     fe_show_ip = (\<lambda>_. [])\<rparr>"

definition fragment_url :: "string \<Rightarrow> url" where
  "fragment_url f = (domain_url ''https'' ''a.org'' ''/'')\<lparr>url_fragment := Some f\<rparr>"

lemma no_fragments: "extract_html_fragments (documents []) s = {}"
  by (simp add: extract_html_fragments_def run_extractor_def documents_def extractor_new_def)

theorem fragment_cache_transparent_witness:
  "let options = \<lparr>check_anchor_fragments = True, check_text_fragments = False\<rparr>;
       docs = (\<lambda>_. \<lparr>fi_content = ''d'', fi_file_type = Html\<rparr>);
       cache = fold (check_step plain_fragment_env options docs) [fragment_url ''x''] Map.empty
   in fst (fragment_check plain_fragment_env options \<lparr>fi_content = ''d'', fi_file_type = Html\<rparr>
        (fragment_url ''y'') cache) = Inr False"
proof -
  let ?options = "\<lparr>check_anchor_fragments = True, check_text_fragments = False\<rparr>"
  let ?docs = "\<lambda>_. \<lparr>fi_content = ''d'', fi_file_type = Html\<rparr>"
  let ?cache = "fold (check_step plain_fragment_env ?options ?docs) [fragment_url ''x''] Map.empty"
  have "fst (fragment_check plain_fragment_env ?options (?docs (remove_fragment plain_fragment_env (fragment_url ''y'')))
      (fragment_url ''y'') ?cache) =
    fst (fragment_check plain_fragment_env ?options (?docs (remove_fragment plain_fragment_env (fragment_url ''y'')))
      (fragment_url ''y'') Map.empty)"
    using fragment_cache_transparent [OF refl, of plain_fragment_env ?options ?docs
        "fragment_url ''y''" "[fragment_url ''x'']"] by blast
  also have "\<dots> = Inr False"
    by (simp add: fragment_check_def plain_fragment_env_def fragment_url_def domain_url_def fragment_parse_def
        check_anchor_fragment_def fragment_extractor_def builder_new_def on_github_def
        with_element_fragment_def decode_variant_def any_matches_def no_fragments eq_ignore_ascii_case_def
        ascii_lower_def suffix_def List.map_filter_def Let_def)
  finally show ?thesis by (simp add: Let_def)
qed

end
