(* ===== verification/Options.thy ===== *)
theory Options
  imports FragmentChecker HostStats
begin

text \<open>
  The values of options of the command line and of configuration files: \<open>lychee-bin/src/verbosity.rs\<close>,
  \<open>config/header.rs\<close>, \<open>config/output.rs\<close>, \<open>config/tls.rs\<close>, the fragment modes of \<open>config/mod.rs\<close>, the
  filters of lines of \<open>files_from.rs\<close> and of the ignore files of \<open>main.rs\<close>.
\<close>

section \<open>Verbosity\<close>

datatype log_level = LevelError | LevelWarn | LevelInfo | LevelDebug | LevelTrace

fun level_value :: "log_level \<Rightarrow> 8 word" where
  "level_value LevelError = 0"
| "level_value LevelWarn = 1"
| "level_value LevelInfo = 2"
| "level_value LevelDebug = 3"
| "level_value LevelTrace = 4"

definition level_enum :: "8 word \<Rightarrow> log_level" where
  "level_enum verbosity =
     (if verbosity = 0 then LevelError else if verbosity = 1 then LevelWarn else if verbosity = 2 then LevelInfo
      else if verbosity = 3 then LevelDebug else LevelTrace)"

record verbosity =
  vb_verbose :: "8 word"
  vb_quiet :: "8 word"

definition verbosity_default :: verbosity where
  "verbosity_default = \<lparr>vb_verbose = 0, vb_quiet = 0\<rparr>"

definition u8_saturating_sub :: "8 word \<Rightarrow> 8 word \<Rightarrow> 8 word" where
  "u8_saturating_sub a b = (if a < b then 0 else a - b)"

definition u8_saturating_add :: "8 word \<Rightarrow> 8 word \<Rightarrow> 8 word" where
  "u8_saturating_add a b = (if unat a + unat b > 255 then 255 else a + b)"

definition verbosity_of :: "verbosity \<Rightarrow> 8 word" where
  "verbosity_of self = u8_saturating_add (u8_saturating_sub (level_value LevelWarn) (vb_quiet self)) (vb_verbose self)"

definition log_level_of :: "verbosity \<Rightarrow> log_level" where
  "log_level_of self = level_enum (verbosity_of self)"

text \<open>\<open>from_str\<close> is that of the log crate.\<close>

definition verbosity_deserialize :: "(string \<Rightarrow> log_level option) \<Rightarrow> string \<Rightarrow> string + verbosity" where
  "verbosity_deserialize from_str level =
     (let level = (if eq_ignore_ascii_case level ''warning'' then ''warn'' else level)
      in case from_str level of
           Some l \<Rightarrow> Inr \<lparr>vb_verbose = level_value l, vb_quiet = 0\<rparr>
         | None \<Rightarrow> Inl ''invalid verbosity value, expected one of \"error\", \"warn\", \"info\", \"debug\", or \"trace\"'')"

definition verbosity_show :: "verbosity \<Rightarrow> string" where
  "verbosity_show self = show_nat (unat (vb_verbose self))"

section \<open>Headers\<close>

text \<open>
  The http crate: parsing the name and the value of a header, each with its error; a name is given in its
  lower case, and a value can be read as text unless it has a character that is not visible ASCII.
\<close>

record header_crate =
  hd_name :: "string \<Rightarrow> string + string"
  hd_value :: "string \<Rightarrow> string + string"
  hd_to_str :: "string \<Rightarrow> string option"

definition parse_single_header :: "header_crate \<Rightarrow> string \<Rightarrow> string + string \<times> string" where
  "parse_single_header hc header =
     (case split_once '':'' header of
        Some (name, value) \<Rightarrow>
          (let name = trim name in
           case hd_name hc name of
             Inl e \<Rightarrow> Inl (''Unable to convert header name '' @ [CHR 0x27] @ name @ [CHR 0x27] @ '': '' @ e)
           | Inr name \<Rightarrow>
               (case hd_value hc (trim value) of
                  Inl e \<Rightarrow> Inl (''Unable to read value of header with name '' @ [CHR 0x27] @ name @ [CHR 0x27] @ '': '' @ e)
                | Inr value \<Rightarrow> Inr (name, value)))
      | None \<Rightarrow> Inl (''Invalid header format. Expected colon-separated string in the format '' @ [CHR 0x27] @
          ''HeaderName: HeaderValue'' @ [CHR 0x27]))"

text \<open>The parser of the command line; \<open>None\<close> is an argument that is not UTF-8.\<close>

definition header_parser :: "header_crate \<Rightarrow> string option \<Rightarrow> string + string \<times> string" where
  "header_parser hc value =
     (case value of
        None \<Rightarrow> Inl ''Header value contains invalid UTF-8''
      | Some header_str \<Rightarrow>
          res_bind (parse_single_header hc header_str) (\<lambda>(name, value).
            case hd_to_str hc value of
              None \<Rightarrow> Inl ''Header value contains invalid UTF-8''
            | Some value \<Rightarrow> Inr (name, value)))"

text \<open>The pairs of a map, in the order in which it is iterated; inserting replaces the values of a name.\<close>

definition insert_header :: "string \<Rightarrow> string \<Rightarrow> (string \<times> string) list \<Rightarrow> (string \<times> string) list" where
  "insert_header name value headers = filter (\<lambda>(n, _). n \<noteq> name) headers @ [(name, value)]"

fun from_header_pairs ::
  "header_crate \<Rightarrow> (string \<times> string) list \<Rightarrow> (string \<times> string) list \<Rightarrow> string + (string \<times> string) list" where
  "from_header_pairs hc [] header_map = Inr header_map"
| "from_header_pairs hc ((name, value) # headers) header_map =
     (case hd_name hc name of
        Inl e \<Rightarrow> Inl (''Invalid header name '' @ [CHR 0x27] @ name @ [CHR 0x27] @ '': '' @ e)
      | Inr header_name \<Rightarrow>
          (case hd_value hc value of
             Inl e \<Rightarrow> Inl (''Invalid header value '' @ [CHR 0x27] @ value @ [CHR 0x27] @ '': '' @ e)
           | Inr header_value \<Rightarrow> from_header_pairs hc headers (insert_header header_name header_value header_map)))"

text \<open>
  The headers of a host in the configuration (\<open>ratelimit/config.rs\<close>): the table is read like the pairs above, and
  written with one value for each name, the last one, which is empty if it cannot be read as text.
\<close>

definition deserialize_headers :: "header_crate \<Rightarrow> (string \<times> string) list \<Rightarrow> string + (string \<times> string) list" where
  "deserialize_headers hc entries = from_header_pairs hc entries []"

definition serialize_headers :: "header_crate \<Rightarrow> (string \<times> string) list \<Rightarrow> (string \<times> string) list" where
  "serialize_headers hc headers =
     fold (\<lambda>(name, value). insert_header name (case hd_to_str hc value of Some t \<Rightarrow> t | None \<Rightarrow> [])) headers []"

lemma insert_header_new: "name \<notin> fst ` set headers \<Longrightarrow> insert_header name value headers = headers @ [(name, value)]"
  by (induction headers) (auto simp: insert_header_def)

lemma fold_insert_header_new:
  assumes "distinct (map fst headers)" and "fst ` set headers \<inter> fst ` set acc = {}"
  shows "fold (\<lambda>(name, value). insert_header name (f value)) headers acc = acc @ map (\<lambda>(n, v). (n, f v)) headers"
  using assms by (induction headers arbitrary: acc) (auto simp: insert_header_new)

lemma from_header_pairs_new:
  assumes "\<forall>(n, v) \<in> set headers. hd_name hc n = Inr n \<and> hd_value hc (f v) = Inr v"
    and "distinct (map fst headers)" and "fst ` set headers \<inter> fst ` set acc = {}"
  shows "from_header_pairs hc (map (\<lambda>(n, v). (n, f v)) headers) acc = Inr (acc @ headers)"
  using assms by (induction headers arbitrary: acc) (auto simp: insert_header_new)

section \<open>Output\<close>

datatype stats_format = Compact | Detailed | Json | Junit | MarkdownFormat

definition stats_format_from_str :: "string \<Rightarrow> string + stats_format" where
  "stats_format_from_str format =
     (let f = to_lowercase format in
      if f = ''compact'' \<or> f = ''string'' then Inr Compact
      else if f = ''detailed'' then Inr Detailed
      else if f = ''json'' then Inr Json
      else if f = ''junit'' then Inr Junit
      else if f = ''markdown'' \<or> f = ''md'' then Inr MarkdownFormat
      else Inl (''Unknown format '' @ format))"

text \<open>\<open>Display\<close> is derived, with names in snake case.\<close>

fun stats_format_show :: "stats_format \<Rightarrow> string" where
  "stats_format_show Compact = ''compact''"
| "stats_format_show Detailed = ''detailed''"
| "stats_format_show Json = ''json''"
| "stats_format_show Junit = ''junit''"
| "stats_format_show MarkdownFormat = ''markdown''"

datatype output_mode = PlainMode | ColorMode | EmojiMode | TaskMode

definition is_plain :: "output_mode \<Rightarrow> bool" where "is_plain self \<longleftrightarrow> self = PlainMode"
definition is_emoji :: "output_mode \<Rightarrow> bool" where "is_emoji self \<longleftrightarrow> self = EmojiMode"

datatype tls_version = V1_0 | V1_1 | V1_2 | V1_3

datatype archive_kind = WaybackMachine

datatype generate_mode =
    Man | CompleteBash | CompleteElvish | CompleteFish | CompletePowershell | CompleteZsh

section \<open>Fragments\<close>

datatype fragment_mode = FragmentNone | AnchorOnly | TextOnly | FragmentFull

fun fragment_options_of :: "fragment_mode \<Rightarrow> fragment_options" where
  "fragment_options_of FragmentNone = \<lparr>check_anchor_fragments = False, check_text_fragments = False\<rparr>"
| "fragment_options_of AnchorOnly = \<lparr>check_anchor_fragments = True, check_text_fragments = False\<rparr>"
| "fragment_options_of TextOnly = \<lparr>check_anchor_fragments = False, check_text_fragments = True\<rparr>"
| "fragment_options_of FragmentFull = \<lparr>check_anchor_fragments = True, check_text_fragments = True\<rparr>"

section \<open>Files of lines\<close>

text \<open>A line ends at a line feed, with a carriage return before it; the last one may lack it.\<close>

fun read_buf_lines :: "string \<Rightarrow> string \<Rightarrow> string list" where
  "read_buf_lines line [] = (if line = [] then [] else [rev line])"
| "read_buf_lines line (c # cs) =
     (if c = CHR 0x0A
      then rev (if line \<noteq> [] \<and> hd line = CHR 0x0D then tl line else line) # read_buf_lines [] cs
      else read_buf_lines (c # line) cs)"

definition COMMENT_MARKER :: string where "COMMENT_MARKER = ''#''"

definition filter_lines :: "string list \<Rightarrow> string list" where
  "filter_lines lines = filter (\<lambda>line. let line = trim line in line \<noteq> [] \<and> \<not> prefix COMMENT_MARKER line) lines"

definition files_from_reader :: "string + string \<Rightarrow> string + string list" where
  "files_from_reader content =
     (case content of
        Inl e \<Rightarrow> Inl ''Cannot read lines from reader''
      | Inr s \<Rightarrow> Inr (filter_lines (read_buf_lines [] s)))"

definition LYCHEEIGNORE_COMMENT_MARKER :: string where "LYCHEEIGNORE_COMMENT_MARKER = ''#''"

definition read_lines :: "'e + string \<Rightarrow> 'e + string list" where
  "read_lines content =
     res_bind content (\<lambda>s. Inr (filter (\<lambda>line. line \<noteq> [] \<and>
       \<not> prefix LYCHEEIGNORE_COMMENT_MARKER (trim_start_by is_whitespace line)) (read_buf_lines [] s)))"

section \<open>Properties\<close>

lemma verbosity_of_flags: "verbosity_of \<lparr>vb_verbose = v, vb_quiet = q\<rparr> =
    (if q = 0 then (if unat v < 255 then v + 1 else 255) else v)"
proof -
  have "u8_saturating_sub 1 q = of_bool (q = 0)"
  proof -
    have "1 < q" if "q \<noteq> 0" "q \<noteq> 1" using that by (simp add: word_less_nat_alt word_unat_eq_iff)
    then show ?thesis by (cases "q = 0"; cases "q = 1") (auto simp: u8_saturating_sub_def)
  qed
  moreover have "unat v < 256" using unsigned_less [of v] by simp
  ultimately show ?thesis by (auto simp: verbosity_of_def u8_saturating_add_def add.commute)
qed

lemma level_enum_value: "level_enum (level_value l) = l"
  by (cases l) (simp_all add: level_enum_def)

text \<open>A level in a configuration file takes effect as the next more verbose one: the number of the level is
  stored as a count of \<open>-v\<close> flags, which is added to the default level \<open>warn\<close>.  So \<open>warn\<close> prints info messages,
  and \<open>error\<close> does what the default does.  On the command line the levels saturate, and no number of \<open>-q\<close>
  flags silences errors.
\<close>

theorem file_verbosity_one_too_high:
  assumes "from_str (if eq_ignore_ascii_case level ''warning'' then ''warn'' else level) = Some l"
  shows "(\<exists>v. verbosity_deserialize from_str level = Inr v \<and>
      log_level_of v = (case l of LevelError \<Rightarrow> LevelWarn | LevelWarn \<Rightarrow> LevelInfo | LevelInfo \<Rightarrow> LevelDebug | _ \<Rightarrow> LevelTrace)) \<and>
    log_level_of \<lparr>vb_verbose = 0, vb_quiet = q\<rparr> = (if q = 0 then LevelWarn else LevelError) \<and>
    (unat n \<ge> 3 \<longrightarrow> log_level_of \<lparr>vb_verbose = n, vb_quiet = 0\<rparr> = LevelTrace)"
proof (intro conjI impI)
  show "\<exists>v. verbosity_deserialize from_str level = Inr v \<and>
      log_level_of v = (case l of LevelError \<Rightarrow> LevelWarn | LevelWarn \<Rightarrow> LevelInfo | LevelInfo \<Rightarrow> LevelDebug | _ \<Rightarrow> LevelTrace)"
    using assms by (cases l) (simp_all add: verbosity_deserialize_def log_level_of_def verbosity_of_flags level_enum_def)
  show "log_level_of \<lparr>vb_verbose = 0, vb_quiet = q\<rparr> = (if q = 0 then LevelWarn else LevelError)"
    by (simp add: log_level_of_def verbosity_of_flags level_enum_def)
  assume n: "3 \<le> unat n"
  have "unat (verbosity_of \<lparr>vb_verbose = n, vb_quiet = 0\<rparr>) \<ge> 4"
    using n by (simp add: verbosity_of_flags unat_word_ariths)
  then show "log_level_of \<lparr>vb_verbose = n, vb_quiet = 0\<rparr> = LevelTrace"
    by (auto simp: log_level_of_def level_enum_def)
qed

theorem file_verbosity_one_too_high_witness:
  "\<exists>v. verbosity_deserialize (\<lambda>s. if s = ''warn'' then Some LevelWarn else None) ''warn'' = Inr v \<and>
     log_level_of v = LevelInfo"
  using file_verbosity_one_too_high [of "\<lambda>s. if s = ''warn'' then Some LevelWarn else None" "''warn''" LevelWarn 0 0]
  by (simp add: eq_ignore_ascii_case_def ascii_lower_def)

lemma stats_format_round_trip: "stats_format_from_str (stats_format_show f) = Inr f"
  by (cases f) (simp_all add: stats_format_from_str_def to_lowercase_def lower_char_def)


lemma headers_round_trip:
  assumes "distinct (map fst headers)"
    and "\<forall>(n, v) \<in> set headers. hd_name hc n = Inr n \<and> (\<exists>t. hd_to_str hc v = Some t \<and> hd_value hc t = Inr v)"
  shows "deserialize_headers hc (serialize_headers hc headers) = Inr headers"
proof -
  let ?text = "\<lambda>v. case hd_to_str hc v of Some t \<Rightarrow> t | None \<Rightarrow> []"
  have "serialize_headers hc headers = map (\<lambda>(n, v). (n, ?text v)) headers"
    using fold_insert_header_new [OF assms(1), of "[]" ?text] by (simp add: serialize_headers_def)
  moreover have "\<forall>(n, v) \<in> set headers. hd_name hc n = Inr n \<and> hd_value hc (?text v) = Inr v"
    using assms(2) by fastforce
  ultimately show ?thesis
    using from_header_pairs_new [of headers hc ?text "[]"] assms(1) by (simp add: deserialize_headers_def)
qed

text \<open>Of a header with two values only the last is written, so that they do not come back.\<close>

lemma serialize_headers_last:
  "serialize_headers hc [(name, v1), (name, v2)] = [(name, case hd_to_str hc v2 of Some t \<Rightarrow> t | None \<Rightarrow> [])]"
  by (simp add: serialize_headers_def insert_header_def)

end
