(* ===== verification/Chain.thy ===== *)
theory Chain
  imports Status
begin

text \<open>
  The chains of responsibility a request runs through (\<open>lychee-lib/src/chain/mod.rs\<close>).

  A handler maps its input and the state \<open>'s\<close> of everything it reads and writes (the handlers
  themselves, which \<open>handle\<close> borrows mutably, and the world they talk to) to a result and the
  next state.  The mutex of a chain is held for a whole traversal, so a traversal is one step.
\<close>

section \<open>Chains\<close>

datatype ('t, 'r) chain_result = Next 't | Done 'r

type_synonym ('t, 'r, 's) handler = "'t \<Rightarrow> 's \<Rightarrow> ('t, 'r) chain_result \<times> 's"

fun traverse :: "('t, 'r, 's) handler list \<Rightarrow> 't \<Rightarrow> 's \<Rightarrow> ('t, 'r) chain_result \<times> 's" where
  "traverse [] input s = (Next input, s)"
| "traverse (e # es) input s =
     (case e input s of
        (Next r, s') \<Rightarrow> traverse es r s'
      | (Done r, s') \<Rightarrow> (Done r, s'))"

text \<open>The chains of the client: a request that no handler finishes counts as excluded.\<close>

fun chains_traverse :: "('t, status, 's) handler list list \<Rightarrow> 't \<Rightarrow> 's \<Rightarrow> status \<times> 's" where
  "chains_traverse [] input s = (StExcluded, s)"
| "chains_traverse (c # cs) input s =
     (case traverse c input s of
        (Next r, s') \<Rightarrow> chains_traverse cs r s'
      | (Done r, s') \<Rightarrow> (r, s'))"

definition or_excluded :: "('t, status) chain_result \<times> 's \<Rightarrow> status \<times> 's" where
  "or_excluded p = (case p of (Next _, s) \<Rightarrow> (StExcluded, s) | (Done r, s) \<Rightarrow> (r, s))"

lemma or_excluded_simps [simp]:
  "or_excluded (Next t, s) = (StExcluded, s)" "or_excluded (Done r, s) = (r, s)"
  by (simp_all add: or_excluded_def)

lemma traverse_append:
  "traverse (xs @ ys) input s =
     (case traverse xs input s of
        (Next r, s') \<Rightarrow> traverse ys r s'
      | (Done r, s') \<Rightarrow> (Done r, s'))"
  by (induction xs arbitrary: input s) (auto split: prod.split chain_result.split)

lemma chains_traverse_concat: "chains_traverse cs input s = or_excluded (traverse (concat cs) input s)"
  by (induction cs arbitrary: input s)
    (auto simp: traverse_append split: prod.split chain_result.split)

section \<open>Handlers that only rewrite\<close>

text \<open>
  What the built-in rewriting handlers promise: they pass every input on, rewritten, and keep
  the state.
\<close>

locale rewriting =
  fixes h :: "('t, 'r, 's) handler" and rewrite :: "'t \<Rightarrow> 't"
  assumes passes: "h input s = (Next (rewrite input), s)"
begin

lemma traverse_first: "traverse (h # hs) input s = traverse hs (rewrite input) s"
  by (simp add: passes)

lemma traverse_alone: "traverse [h] input s = (Next (rewrite input), s)"
  by (simp add: passes)

lemma never_finishes: "fst (h input s) \<noteq> Done r"
  by (simp add: passes)

end

text \<open>The plugin chain and the default chain act as one chain of all their handlers in order: each
  gets what the one before passed on, the first that finishes decides the status and no handler
  after it runs, and a request that none finishes is excluded.\<close>

theorem chains_act_as_one:
  "chains_traverse cs input s = or_excluded (traverse (concat cs) input s) \<and>
   (concat cs = xs @ e # ys \<and> traverse xs input s = (Next t, s1) \<and> e t s1 = (Done r, s2) \<longrightarrow>
      chains_traverse cs input s = (r, s2)) \<and>
   (traverse (concat cs) input s = (Next t', s') \<longrightarrow> chains_traverse cs input s = (StExcluded, s'))"
  by (simp add: chains_traverse_concat traverse_append)

text \<open>The handler of the chain's own tests, which also counts its calls.\<close>

definition add_handler :: "nat \<Rightarrow> (nat, status, nat) handler" where
  "add_handler n t s = (if t + n > 100 then (Done (StUnsupported (InvalidInput ''100'')), Suc s)
     else (Next (t + n), Suc s))"

theorem chains_act_as_one_witness:
  "chains_traverse [[add_handler 80], [add_handler 30, add_handler 1]] 0 0 =
     (StUnsupported (InvalidInput ''100''), 2) \<and>
   chains_traverse [[add_handler 7, add_handler 3], []] 0 0 = (StExcluded, 2)"
  using chains_act_as_one [of "[[add_handler 80], [add_handler 30, add_handler 1]]" 0 0
      "[add_handler 80]" "add_handler 30" "[add_handler 1]" 80 1 "StUnsupported (InvalidInput ''100'')" 2]
    chains_act_as_one [of "[[add_handler 7, add_handler 3], []]" 0 0 _ _ _ _ _ _ _ 10 2]
  by (simp add: add_handler_def)

end
