(* ===== verification/Response.thy ===== *)
theory Response
  imports Status
begin

text \<open>
  What a check returns: \<open>lychee-lib/src/types/response.rs\<close>, with the redirects it followed
  (\<open>lychee-lib/src/types/redirect_history.rs\<close>) and the remap it applied
  (\<open>lychee-lib/src/remap.rs\<close>).
\<close>

section \<open>Redirects\<close>

record redirect =
  rd_url :: url
  rd_code :: status_code

record redirects =
  rds_origin :: url
  rds_redirects :: "redirect list"

definition redirects_new :: "url \<Rightarrow> redirects" where
  "redirects_new origin = \<lparr>rds_origin = origin, rds_redirects = []\<rparr>"

definition redirects_count :: "redirects \<Rightarrow> nat" where
  "redirects_count r = length (rds_redirects r)"

definition redirects_push :: "redirect \<Rightarrow> redirects \<Rightarrow> redirects" where
  "redirects_push x r = r\<lparr>rds_redirects := rds_redirects r @ [x]\<rparr>"

definition redirects_show :: "redirects \<Rightarrow> string" where
  "redirects_show r =
     foldl (\<lambda>acc x. acc @ '' --['' @ show_nat (unat (rd_code x)) @ '']--> '' @ url_str (rd_url x))
       (url_str (rds_origin r)) (rds_redirects r)"

text \<open>A redirect attempt of reqwest: the URLs visited before, the next one and the status.\<close>

record redirect_attempt =
  at_previous :: "url list"
  at_url :: url
  at_status :: status_code

type_synonym redirect_history = "url \<rightharpoonup> redirects"

definition record_redirects :: "redirect_attempt \<Rightarrow> redirect_history \<Rightarrow> redirect_history" where
  "record_redirects attempt m =
     (case at_previous attempt of
        [] \<Rightarrow> m
      | first # _ \<Rightarrow>
          (let redirects = (case m first of Some r \<Rightarrow> r | None \<Rightarrow> redirects_new first)
           in m(first \<mapsto> redirects_push \<lparr>rd_url = at_url attempt, rd_code = at_status attempt\<rparr> redirects)))"

definition history_resolve :: "redirect_history \<Rightarrow> url \<Rightarrow> redirects option" where
  "history_resolve m url = m url"

text \<open>
  \<open>redirect_policy\<close> of \<open>client.rs\<close>: stop once more than \<open>max_redirects\<close> URLs were visited
  before, otherwise record the redirect and follow it (\<open>True\<close>).
\<close>

definition redirect_policy ::
  "nat \<Rightarrow> redirect_attempt \<Rightarrow> redirect_history \<Rightarrow> bool \<times> redirect_history" where
  "redirect_policy max_redirects attempt m =
     (if length (at_previous attempt) > max_redirects then (False, m)
      else (True, record_redirects attempt m))"

section \<open>Requests and responses\<close>

record credentials =
  cr_username :: string
  cr_password :: string

record request =
  rq_uri :: uri
  rq_source :: resolved_source
  rq_element :: "string option"
  rq_attribute :: "string option"
  rq_span :: "raw_uri_span option"
  rq_credentials :: "credentials option"

definition request_new :: "uri \<Rightarrow> resolved_source \<Rightarrow> request" where
  "request_new uri source = \<lparr>rq_uri = uri, rq_source = source, rq_element = None,
     rq_attribute = None, rq_span = None, rq_credentials = None\<rparr>"

record remap =
  remap_original :: uri
  remap_new :: uri

record response_body =
  rb_uri :: uri
  rb_status :: status
  rb_redirects :: "redirects option"
  rb_remap :: "remap option"
  rb_span :: "raw_uri_span option"
  rb_duration :: "nat option"

record response =
  r_source :: input_source
  r_body :: response_body

definition response_new ::
  "uri \<Rightarrow> status \<Rightarrow> redirects option \<Rightarrow> remap option \<Rightarrow> input_source \<Rightarrow> raw_uri_span option \<Rightarrow>
   nat option \<Rightarrow> response" where
  "response_new uri status redirects remap source span duration =
     \<lparr>r_source = source,
      r_body = \<lparr>rb_uri = uri, rb_status = status, rb_redirects = redirects, rb_remap = remap,
        rb_span = span, rb_duration = duration\<rparr>\<rparr>"

abbreviation r_status :: "response \<Rightarrow> status" where
  "r_status r \<equiv> rb_status (r_body r)"

text \<open>
  The derived equality of bodies, with the hand-written one of errors inside.
\<close>

definition body_eq :: "response_body \<Rightarrow> response_body \<Rightarrow> bool" where
  "body_eq a b \<longleftrightarrow>
     rb_uri a = rb_uri b \<and> status_eq (rb_status a) (rb_status b) \<and>
     rb_redirects a = rb_redirects b \<and> rb_remap a = rb_remap b \<and>
     rb_span a = rb_span b \<and> rb_duration a = rb_duration b"

text \<open>
  \<open>RequestError::into_response\<close>: an error in user input ends the run, any other becomes a
  failed response on the URI \<open>error:\<close>, which is the parameter \<open>error_uri\<close>.
\<close>

fun into_response :: "uri \<Rightarrow> request_error \<Rightarrow> error_kind + response" where
  "into_response error_uri (UserInputContent _ e) = Inl e"
| "into_response error_uri (CreateRequestItem raw src e) =
     Inr (response_new error_uri (StRequestError (CreateRequestItem raw src e)) None None (input_source_of src)
       (Some (raw_span raw)) None)"
| "into_response error_uri e =
     Inr (response_new error_uri (StRequestError e) None None (request_error_source e) None None)"

lemma into_response_error: "into_response u e = Inr r \<Longrightarrow> is_error (r_status r)"
  by (cases "(u, e)" rule: into_response.cases) (auto simp: response_new_def)

section \<open>The redirect history\<close>

text \<open>
  One redirect chain makes one attempt per hop, each with the URLs of all hops before; the
  history then holds the hops in order under the first URL.
\<close>

fun attempts_of :: "url list \<Rightarrow> redirect list \<Rightarrow> redirect_attempt list" where
  "attempts_of prev [] = []"
| "attempts_of prev (h # hs) =
     \<lparr>at_previous = prev, at_url = rd_url h, at_status = rd_code h\<rparr> #
     attempts_of (prev @ [rd_url h]) hs"

lemma redirect_eta: "\<lparr>rd_url = rd_url h, rd_code = rd_code h\<rparr> = h" by simp

definition run_policy :: "nat \<Rightarrow> redirect_attempt list \<Rightarrow> redirect_history \<Rightarrow> redirect_history" where
  "run_policy max_redirects attempts m =
     foldl (\<lambda>m a. snd (redirect_policy max_redirects a m)) m attempts"

lemma run_policy_records:
  assumes "prev \<noteq> []" "m (hd prev) = Some r"
  shows "run_policy mx (attempts_of prev hops) m =
    m(hd prev \<mapsto> r\<lparr>rds_redirects := rds_redirects r @ take (Suc mx - length prev) hops\<rparr>)"
  using assms
proof (induction hops arbitrary: prev m r)
  case Nil
  then show ?case by (auto simp: run_policy_def)
next
  case (Cons h hs)
  let ?m = "snd (redirect_policy mx \<lparr>at_previous = prev, at_url = rd_url h, at_status = rd_code h\<rparr> m)"
  have rest: "run_policy mx (attempts_of prev (h # hs)) m = run_policy mx (attempts_of (prev @ [rd_url h]) hs) ?m"
    by (simp add: run_policy_def)
  obtain p ps where prev: "prev = p # ps" using Cons.prems(1) by (cases prev) auto
  show ?case
  proof (cases "length prev > mx")
    case True
    then show ?thesis
      using Cons.IH [of "prev @ [rd_url h]" m r] Cons.prems rest by (simp add: redirect_policy_def)
  next
    case False
    let ?r = "redirects_push h r"
    have "?m = m(p \<mapsto> redirects_push \<lparr>rd_url = rd_url h, rd_code = rd_code h\<rparr> r)"
      using False Cons.prems prev by (simp add: redirect_policy_def record_redirects_def)
    then have m': "?m = m(p \<mapsto> ?r)" by (simp only: redirect_eta)
    have "Suc mx - length prev = Suc (mx - length prev)" using False by simp
    with Cons.IH [of "prev @ [rd_url h]" "m(p \<mapsto> ?r)" ?r] prev
    have "run_policy mx (attempts_of (prev @ [rd_url h]) hs) (m(p \<mapsto> ?r)) =
        m(p \<mapsto> r\<lparr>rds_redirects := rds_redirects r @ take (Suc mx - length prev) (h # hs)\<rparr>)"
      by (simp add: redirects_push_def fun_upd_same del: fun_upd_apply)
    with rest m' prev show ?thesis by (simp only: list.sel)
  qed
qed

lemma run_policy_first:
  assumes "m origin = None" "0 < mx" "hops \<noteq> []"
  shows "run_policy mx (attempts_of [origin] hops) m =
    m(origin \<mapsto> \<lparr>rds_origin = origin, rds_redirects = take mx hops\<rparr>)"
proof -
  obtain h hs where hops: "hops = h # hs" using assms(3) by (cases hops) auto
  let ?m = "m(origin \<mapsto> redirects_push h (redirects_new origin))"
  have "run_policy mx (attempts_of [origin] hops) m = run_policy mx (attempts_of [origin, rd_url h] hs)
      (m(origin \<mapsto> redirects_push \<lparr>rd_url = rd_url h, rd_code = rd_code h\<rparr> (redirects_new origin)))"
    using assms(1,2) by (simp add: hops run_policy_def redirect_policy_def record_redirects_def)
  also have "\<dots> = run_policy mx (attempts_of [origin, rd_url h] hs) ?m" by (simp only: redirect_eta)
  also have "\<dots> = m(origin \<mapsto> \<lparr>rds_origin = origin, rds_redirects = take mx hops\<rparr>)"
    using run_policy_records [of "[origin, rd_url h]" ?m "redirects_push h (redirects_new origin)" mx hs] assms(2)
    by (cases mx) (simp_all add: hops redirects_push_def redirects_new_def)
  finally show ?thesis .
qed

section \<open>Properties\<close>

text \<open>When a request is redirected, the history keeps the hops it followed in order, at most
  \<open>max_redirects\<close> of them, under its first URL; when the same URL is requested again, as a retry
  does, the hops of the new chain are appended to those of the old one, so that the reported
  number of followed redirects adds up over the attempts.\<close>

theorem redirect_history_accumulates:
  assumes "m origin = None" "0 < max_redirects" "hops \<noteq> []"
    and "m1 = run_policy max_redirects (attempts_of [origin] hops) m"
    and "m2 = run_policy max_redirects (attempts_of [origin] hops') m1"
  shows "map_option rds_redirects (history_resolve m1 origin) = Some (take max_redirects hops) \<and>
    map_option rds_redirects (history_resolve m2 origin) =
      Some (take max_redirects hops @ take max_redirects hops') \<and>
    (\<forall>u. u \<noteq> origin \<longrightarrow> m2 u = m u)"
proof -
  have m1: "m1 = m(origin \<mapsto> \<lparr>rds_origin = origin, rds_redirects = take max_redirects hops\<rparr>)"
    unfolding assms(4) by (rule run_policy_first) (use assms(1-3) in auto)
  then have "m2 = m1(origin \<mapsto> \<lparr>rds_origin = origin,
      rds_redirects = take max_redirects hops @ take max_redirects hops'\<rparr>)"
    using run_policy_records [of "[origin]" m1
        "\<lparr>rds_origin = origin, rds_redirects = take max_redirects hops\<rparr>" max_redirects hops'] assms(5)
    by simp
  with m1 show ?thesis by (simp add: history_resolve_def)
qed

theorem redirect_history_accumulates_witness:
  "\<exists>origin target :: url. origin \<noteq> target \<and>
    (let hop = \<lparr>rd_url = target, rd_code = 301\<rparr>;
         m1 = run_policy 5 (attempts_of [origin] [hop]) Map.empty;
         m2 = run_policy 5 (attempts_of [origin] [hop]) m1
     in map_option rds_redirects (history_resolve m2 origin) = Some [hop, hop])"
proof -
  define u :: "string \<Rightarrow> url" where "u s = \<lparr>url_str = s, url_scheme = ''http'', url_host = None,
    url_path = s, url_segments = None, url_fragment = None\<rparr>" for s
  have "u ''/a'' \<noteq> u ''/b''" by (simp add: u_def)
  moreover note redirect_history_accumulates [of Map.empty "u ''/a''" 5
      "[\<lparr>rd_url = u ''/b'', rd_code = 301\<rparr>]" _ _ "[\<lparr>rd_url = u ''/b'', rd_code = 301\<rparr>]", OF _ _ _ refl refl]
  ultimately show ?thesis by (fastforce simp: Let_def)
qed

end
