(* ===== verification/Remap.thy ===== *)
theory Remap
  imports Response UriFilter
begin

text \<open>
  Rewriting URLs before they are checked (\<open>lychee-lib/src/remap.rs\<close>) and recognising GitHub
  repositories (\<open>lychee-lib/src/types/uri/github.rs\<close>).
\<close>

section \<open>Remap rules\<close>

text \<open>A rule is a compiled pattern and its replacement.\<close>

type_synonym remaps = "(string \<times> string) list"

fun remaps_remap :: "regex_crate \<Rightarrow> url_crate \<Rightarrow> remaps \<Rightarrow> uri \<Rightarrow> error_kind + remap option" where
  "remaps_remap rx uc [] original = Inr None"
| "remaps_remap rx uc ((pattern, replacement) # rules) original =
     (if rx_is_match rx pattern (url_str original)
      then
        let new = rx_replace_all rx pattern replacement (url_str original)
        in (case uc_parse uc new of
              Inl _ \<Rightarrow> Inl (InvalidUrlRemap (''the result `'' @ new @ ''` is not a valid URL''))
            | Inr new \<Rightarrow> Inr (Some \<lparr>remap_original = original, remap_new = new\<rparr>))
      else remaps_remap rx uc rules original)"

fun remaps_try_from :: "regex_crate \<Rightarrow> string list \<Rightarrow> error_kind + remaps" where
  "remaps_try_from rx [] = Inr []"
| "remaps_try_from rx (remap # remaps) =
     (case split_whitespace remap of
        [p, replacement] \<Rightarrow>
          (case rx_error rx p of
             Some e \<Rightarrow> Inl (Regex e)
           | None \<Rightarrow> res_bind (remaps_try_from rx remaps) (\<lambda>parsed. Inr ((p, replacement) # parsed)))
      | _ \<Rightarrow> Inl (InvalidUrlRemap (''Cannot parse into URI remap rule, must be a Regex pattern and a '' @
               ''URL separated by whitespaces: '' @ remap)))"

text \<open>\<open>Client::remap\<close>: rewrites the URI it is given and reports the rewrite.\<close>

definition client_remap ::
  "regex_crate \<Rightarrow> url_crate \<Rightarrow> remaps option \<Rightarrow> uri \<Rightarrow> error_kind + (uri \<times> remap option)" where
  "client_remap rx uc remaps uri =
     (case remaps of
        None \<Rightarrow> Inr (uri, None)
      | Some rules \<Rightarrow>
          res_bind (remaps_remap rx uc rules uri) (\<lambda>r. Inr
            (case r of None \<Rightarrow> (uri, None) | Some remap \<Rightarrow> (remap_new remap, Some remap))))"

text \<open>The rule that decides: the first one whose pattern matches.\<close>

definition deciding_rule :: "regex_crate \<Rightarrow> remaps \<Rightarrow> uri \<Rightarrow> (string \<times> string) option" where
  "deciding_rule rx rules uri = find (\<lambda>(p, _). rx_is_match rx p (url_str uri)) rules"

lemma remaps_remap_find:
  "remaps_remap rx uc rules uri =
     (case deciding_rule rx rules uri of
        None \<Rightarrow> Inr None
      | Some (p, r) \<Rightarrow> let new = rx_replace_all rx p r (url_str uri) in
          case uc_parse uc new of
            Inl _ \<Rightarrow> Inl (InvalidUrlRemap (''the result `'' @ new @ ''` is not a valid URL''))
          | Inr new \<Rightarrow> Inr (Some \<lparr>remap_original = uri, remap_new = new\<rparr>))"
  by (induction rx uc rules uri rule: remaps_remap.induct) (auto simp: deciding_rule_def Let_def)

lemma remaps_try_from_show:
  assumes "\<forall>(p, r) \<in> set rules. p \<noteq> [] \<and> r \<noteq> [] \<and> rx_error rx p = None \<and>
    (\<forall>c \<in> set p \<union> set r. \<not> is_whitespace c)"
  shows "remaps_try_from rx (map (\<lambda>(p, r). p @ CHR '' '' # r) rules) = Inr rules"
  using assms
proof (induction rules)
  case (Cons rule rules)
  obtain p r where rule: "rule = (p, r)" by force
  with Cons.prems have "split_whitespace (join [CHR '' ''] [p, r]) = [p, r]"
    by (intro split_whitespace_join) auto
  then have "split_whitespace (p @ CHR '' '' # r) = [p, r]" by simp
  with Cons rule show ?case by simp
qed simp

section \<open>GitHub URIs\<close>

definition GITHUB_API_EXCLUDED_ENDPOINTS :: "string list" where
  "GITHUB_API_EXCLUDED_ENDPOINTS =
     [''about'', ''collections'', ''events'', ''explore'', ''features'', ''issues'', ''marketplace'',
      ''new'', ''notifications'', ''pricing'', ''pulls'', ''sponsors'', ''topics'', ''watching'']"

record github_uri =
  gh_owner :: string
  gh_repo :: string
  gh_endpoint :: "string option"

definition remove_suffix :: "string \<Rightarrow> string \<Rightarrow> string" where
  "remove_suffix input sfx =
     (if suffix sfx input then take (length input - length sfx) input else input)"

definition gh_org_and_repo :: "uri \<Rightarrow> error_kind + github_uri" where
  "gh_org_and_repo u =
     (case uri_domain u of
        None \<Rightarrow> Inl (InvalidGithubUrl (url_str u))
      | Some domain \<Rightarrow>
          if domain \<notin> {''github.com'', ''www.github.com'', ''raw.githubusercontent.com''}
          then Inl (InvalidGithubUrl (url_str u))
          else (case url_segments u of
                  None \<Rightarrow> Inl (InvalidGithubUrl (url_str u))
                | Some parts \<Rightarrow>
                    if length parts < 2 then Inl (InvalidGithubUrl (url_str u))
                    else
                      let owner = parts ! 0 in
                      if owner \<in> set GITHUB_API_EXCLUDED_ENDPOINTS
                      then Inl (InvalidGithubUrl (url_str u))
                      else
                        let repo = remove_suffix (parts ! 1) ''.git'';
                            endpoint = (if length parts > 2 \<and> parts ! 2 \<noteq> []
                                        then Some (join ''/'' (drop 2 parts)) else None)
                        in Inr \<lparr>gh_owner = owner, gh_repo = repo, gh_endpoint = endpoint\<rparr>))"

lemma remove_suffix_append [simp]: "remove_suffix (a @ s) s = a"
  by (auto simp: remove_suffix_def suffix_def)

lemma remove_git:
  "remove_suffix repo ''.git'' = (if suffix ''.git'' repo then take (length repo - 4) repo else repo)"
  by (simp add: remove_suffix_def eval_nat_numeral)

section \<open>Properties\<close>

text \<open>Rules are read from lines of a pattern and a replacement, and then exactly the first rule
  whose pattern matches a URL rewrites it; a rewrite that is no URL is an error that names it, and
  a URL that no rule matches stays as it is.\<close>

theorem remap_first_matching_rule:
  assumes "\<forall>(p, r) \<in> set rules. p \<noteq> [] \<and> r \<noteq> [] \<and> rx_error rx p = None \<and>
      (\<forall>c \<in> set p \<union> set r. \<not> is_whitespace c)"
  shows "\<exists>remaps. remaps_try_from rx (map (\<lambda>(p, r). p @ CHR '' '' # r) rules) = Inr remaps \<and>
    client_remap rx uc (Some remaps) u =
      (case deciding_rule rx rules u of
         None \<Rightarrow> Inr (u, None)
       | Some (p, r) \<Rightarrow>
           (case uc_parse uc (rx_replace_all rx p r (url_str u)) of
              Inl _ \<Rightarrow> Inl (InvalidUrlRemap (''the result `'' @ rx_replace_all rx p r (url_str u) @
                ''` is not a valid URL''))
            | Inr new \<Rightarrow> Inr (new, Some \<lparr>remap_original = u, remap_new = new\<rparr>)))"
  using remaps_try_from_show [OF assms]
  by (auto simp: client_remap_def remaps_remap_find Let_def res_bind_def split: option.split sum.split)

theorem remap_first_matching_rule_witness:
  "let rx = \<lparr>rx_error = Map.empty, rx_is_match = prefix, rx_replace_all = (\<lambda>p r s. r @ drop (length p) s)\<rparr>;
       uc = \<lparr>uc_parse = (\<lambda>s. Inr (domain_url ''https'' ''b.org'' s)), uc_join = (\<lambda>u s. Inr u),
             uc_set_scheme = (\<lambda>s u. Some u), uc_set_fragment = (\<lambda>f u. u)\<rparr>
   in \<exists>remaps. remaps_try_from rx (map (\<lambda>(p, r). p @ CHR '' '' # r) [(''https://a'', ''/x'')]) = Inr remaps \<and>
        client_remap rx uc (Some remaps) (domain_url ''https'' ''a.org'' ''/'') =
          Inr (domain_url ''https'' ''b.org'' ''/x.org/'',
            Some \<lparr>remap_original = domain_url ''https'' ''a.org'' ''/'',
              remap_new = domain_url ''https'' ''b.org'' ''/x.org/''\<rparr>)"
  unfolding Let_def
  using remap_first_matching_rule
    [of "[(''https://a'', ''/x'')]"
      "\<lparr>rx_error = Map.empty, rx_is_match = prefix, rx_replace_all = (\<lambda>p r s. r @ drop (length p) s)\<rparr>"
      "\<lparr>uc_parse = (\<lambda>s. Inr (domain_url ''https'' ''b.org'' s)), uc_join = (\<lambda>u s. Inr u),
             uc_set_scheme = (\<lambda>s u. Some u), uc_set_fragment = (\<lambda>f u. u)\<rparr>"
      "domain_url ''https'' ''a.org'' ''/''"]
  by (simp add: deciding_rule_def domain_url_def is_whitespace_def)

text \<open>A URL is taken for a GitHub repository exactly if its domain is one of GitHub's three, its
  path has an owner and a repository and the owner is no reserved endpoint; the repository loses
  one \<open>.git\<close> suffix, and what follows in the path is the endpoint.\<close>

theorem github_uri_parts:
  "gh_org_and_repo u = Inr g \<longleftrightarrow>
     (\<exists>d owner repo rest. uri_domain u = Some d \<and>
        d \<in> {''github.com'', ''www.github.com'', ''raw.githubusercontent.com''} \<and>
        url_segments u = Some (owner # repo # rest) \<and>
        owner \<notin> set GITHUB_API_EXCLUDED_ENDPOINTS \<and>
        gh_owner g = owner \<and>
        gh_repo g = (if suffix ''.git'' repo then take (length repo - 4) repo else repo) \<and>
        gh_endpoint g = (if rest = [] \<or> hd rest = [] then None else Some (join ''/'' rest)))"
  (is "?l \<longleftrightarrow> ?r")
proof (cases "\<exists>d owner repo rest. uri_domain u = Some d \<and>
    d \<in> {''github.com'', ''www.github.com'', ''raw.githubusercontent.com''} \<and>
    url_segments u = Some (owner # repo # rest)")
  case False
  then have "\<not> ?r" by blast
  moreover have "gh_org_and_repo u \<noteq> Inr g"
  proof
    assume ok: "gh_org_and_repo u = Inr g"
    then obtain d where d: "uri_domain u = Some d"
      "d \<in> {''github.com'', ''www.github.com'', ''raw.githubusercontent.com''}"
      by (cases "uri_domain u") (simp_all add: gh_org_and_repo_def del: uri_domain.simps split: if_splits)
    with ok obtain parts where parts: "url_segments u = Some parts" "\<not> length parts < 2"
      by (cases "url_segments u") (simp_all add: gh_org_and_repo_def del: uri_domain.simps split: if_splits)
    then have "\<exists>owner repo rest. parts = owner # repo # rest"
      by (cases parts; cases "tl parts") auto
    with d parts(1) False show False by blast
  qed
  ultimately show ?thesis by blast
next
  case True
  then obtain d owner repo rest where d: "uri_domain u = Some d"
    "d \<in> {''github.com'', ''www.github.com'', ''raw.githubusercontent.com''}"
    and segs: "url_segments u = Some (owner # repo # rest)" by blast
  have rest: "(if length (owner # repo # rest) > 2 \<and> (owner # repo # rest) ! 2 \<noteq> []
      then Some (join ''/'' (drop 2 (owner # repo # rest))) else None) =
      (if rest = [] \<or> hd rest = [] then None else Some (join ''/'' rest))"
    by (cases rest) simp_all
  have "gh_org_and_repo u = (if owner \<in> set GITHUB_API_EXCLUDED_ENDPOINTS
      then Inl (InvalidGithubUrl (url_str u))
      else Inr \<lparr>gh_owner = owner, gh_repo = remove_suffix repo ''.git'',
        gh_endpoint = (if rest = [] \<or> hd rest = [] then None else Some (join ''/'' rest))\<rparr>)"
    using d segs by (simp add: gh_org_and_repo_def Let_def rest [simplified] del: uri_domain.simps)
  with d segs show ?thesis
    by (cases g) (auto simp: remove_git simp del: uri_domain.simps)
qed

theorem github_uri_parts_witness:
  "\<exists>g. gh_org_and_repo (domain_url ''https'' ''github.com'' ''/lycheeverse/lychee.git'') = Inr g \<and>
     gh_repo g = ''lychee''"
proof -
  let ?u = "domain_url ''https'' ''github.com'' ''/lycheeverse/lychee.git''"
  have "gh_org_and_repo ?u = Inr \<lparr>gh_owner = ''lycheeverse'', gh_repo = ''lychee'', gh_endpoint = None\<rparr>"
    by (subst github_uri_parts) (simp add: domain_url_def GITHUB_API_EXCLUDED_ENDPOINTS_def suffix_to_prefix)
  then show ?thesis by simp
qed

end
