(* ===== verification/BasicAuth.thy ===== *)
theory BasicAuth
  imports Chain Host Response
begin

text \<open>
  Basic authentication: the credentials and their selectors
  (\<open>lychee-lib/src/types/basic_auth/credentials.rs\<close>, \<open>selector.rs\<close>), the extractor that finds the
  credentials of a URL (\<open>lychee-lib/src/basic_auth/mod.rs\<close>), and the handler that adds them to a
  request.
\<close>

section \<open>Credentials\<close>

datatype credentials_error = InvalidSyntax | MissingPassword | MissingUsername | TooManyParts nat

definition credentials_parse :: "string \<Rightarrow> credentials_error + credentials" where
  "credentials_parse s =
     (let parts = split_on (CHR '':'') (trim s) in
      if length parts \<le> 1 then Inl InvalidSyntax
      else if length parts > 2 then Inl (TooManyParts (length parts))
      else if parts ! 0 = [] then Inl MissingUsername
      else if parts ! 1 = [] then Inl MissingPassword
      else Inr \<lparr>cr_username = parts ! 0, cr_password = parts ! 1\<rparr>)"

definition credentials_show :: "credentials \<Rightarrow> string" where
  "credentials_show c = cr_username c @ CHR '':'' # cr_password c"

lemma whitespace_chars: "\<not> is_whitespace (CHR '':'')" "is_whitespace (CHR '' '')"
  by (simp_all add: is_whitespace_def)

definition credentials_ok :: "credentials \<Rightarrow> bool" where
  "credentials_ok c \<longleftrightarrow> (\<forall>s \<in> {cr_username c, cr_password c}. s \<noteq> [] \<and> CHR '':'' \<notin> set s \<and>
     (\<forall>x \<in> set s. \<not> is_whitespace x))"

lemma credentials_parse_show: "credentials_ok c \<Longrightarrow> credentials_parse (credentials_show c) = Inr c"
proof -
  assume ok: "credentials_ok c"
  then have "trim (credentials_show c) = credentials_show c"
    by (intro trim_by_no_space) (auto simp: credentials_ok_def credentials_show_def whitespace_chars)
  moreover have "split_on (CHR '':'') (credentials_show c) = [cr_username c, cr_password c]"
    using ok by (simp add: credentials_show_def credentials_ok_def split_on_append split_on_no_delim)
  ultimately show ?thesis
    using ok by (simp add: credentials_parse_def credentials_ok_def)
qed

section \<open>Selectors\<close>

datatype selector_parse_error =
    SelectorEmptyInput
  | SelectorInvalidSyntax
  | SelectorTooManyParts nat
  | SelectorCredentialsError credentials_error

record basic_auth_selector =
  ba_credentials :: credentials
  ba_raw_uri_regex :: string

definition auth_selector_parse :: "string \<Rightarrow> selector_parse_error + basic_auth_selector" where
  "auth_selector_parse s =
     (let s = trim s in
      if s = [] then Inl SelectorEmptyInput
      else let parts = split_on (CHR '' '') s in
        if length parts \<le> 1 then Inl SelectorInvalidSyntax
        else if length parts > 2 then Inl (SelectorTooManyParts (length parts))
        else res_bind (map_err SelectorCredentialsError (credentials_parse (parts ! 1)))
          (\<lambda>c. Inr \<lparr>ba_credentials = c, ba_raw_uri_regex = parts ! 0\<rparr>))"

definition auth_selector_show :: "basic_auth_selector \<Rightarrow> string" where
  "auth_selector_show sel = ba_raw_uri_regex sel @ CHR '' '' # credentials_show (ba_credentials sel)"

definition auth_selector_ok :: "basic_auth_selector \<Rightarrow> bool" where
  "auth_selector_ok sel \<longleftrightarrow> credentials_ok (ba_credentials sel) \<and> ba_raw_uri_regex sel \<noteq> [] \<and>
     (\<forall>x \<in> set (ba_raw_uri_regex sel). \<not> is_whitespace x)"

lemma auth_selector_parse_show:
  assumes "auth_selector_ok sel"
  shows "auth_selector_parse (auth_selector_show sel) = Inr sel"
proof -
  let ?r = "ba_raw_uri_regex sel" and ?c = "credentials_show (ba_credentials sel)"
  have c: "?c \<noteq> []" "\<forall>x \<in> set ?c. \<not> is_whitespace x"
    using assms by (auto simp: auth_selector_ok_def credentials_ok_def credentials_show_def whitespace_chars)
  have r: "?r \<noteq> []" "\<forall>x \<in> set ?r. \<not> is_whitespace x" using assms by (auto simp: auth_selector_ok_def)
  have space: "CHR '' '' \<notin> set s" if "\<forall>x \<in> set s. \<not> is_whitespace x" for s
    using that whitespace_chars(2) by blast
  have "trim (auth_selector_show sel) = auth_selector_show sel"
    using c r by (intro trim_by_id) (auto simp: auth_selector_show_def)
  moreover have "split_on (CHR '' '') (auth_selector_show sel) = [?r, ?c]"
    using space [OF c(2)] space [OF r(2)]
    by (simp add: auth_selector_show_def split_on_append split_on_no_delim)
  ultimately show ?thesis
    using assms r(1) by (simp add: auth_selector_parse_def auth_selector_show_def auth_selector_ok_def
        credentials_parse_show)
qed

section \<open>The extractor\<close>

record auth_extractor =
  ae_credentials :: "credentials list"
  ae_regex_set :: "string list"

definition auth_extractor_new :: "regex_crate \<Rightarrow> basic_auth_selector list \<Rightarrow> string + auth_extractor" where
  "auth_extractor_new rx selectors =
     (let raw_uri_regexes = map ba_raw_uri_regex selectors;
          credentials = map ba_credentials selectors
      in case List.find (\<lambda>p. rx_error rx p \<noteq> None) raw_uri_regexes of
           Some p \<Rightarrow> Inl (the (rx_error rx p))
         | None \<Rightarrow> Inr \<lparr>ae_credentials = credentials, ae_regex_set = raw_uri_regexes\<rparr>)"

text \<open>The indices of the matching patterns in increasing order, as \<open>SetMatches\<close> iterates them.\<close>

definition auth_matches :: "regex_crate \<Rightarrow> auth_extractor \<Rightarrow> uri \<Rightarrow> credentials option" where
  "auth_matches rx ae u =
     (let matches = filter (\<lambda>i. rx_is_match rx (ae_regex_set ae ! i) (url_str u)) [0..<length (ae_regex_set ae)]
      in if matches = [] then None else Some (ae_credentials ae ! hd matches))"

lemma hd_filter_upt:
  "filter P [0..<n] = [] \<longleftrightarrow> (\<forall>i < n. \<not> P i)"
  "filter P [0..<n] \<noteq> [] \<Longrightarrow> hd (filter P [0..<n]) < n \<and> P (hd (filter P [0..<n])) \<and>
     (\<forall>i < hd (filter P [0..<n]). \<not> P i)"
proof -
  show "filter P [0..<n] = [] \<longleftrightarrow> (\<forall>i < n. \<not> P i)" by (auto simp: filter_empty_conv)
  show "filter P [0..<n] \<noteq> [] \<Longrightarrow> hd (filter P [0..<n]) < n \<and> P (hd (filter P [0..<n])) \<and>
     (\<forall>i < hd (filter P [0..<n]). \<not> P i)"
  proof (induction n)
    case (Suc n)
    show ?case
    proof (cases "filter P [0..<n] = []")
      case True
      then show ?thesis using Suc.prems by (auto simp: filter_empty_conv split: if_splits)
    next
      case False
      then have "hd (filter P [0..<Suc n]) = hd (filter P [0..<n])" by (simp add: hd_append)
      with Suc.IH [OF False] show ?thesis by (metis less_SucI)
    qed
  qed simp
qed

text \<open>Written selectors are read back, and an extractor of valid selectors gives a URL the credentials
  of the first selector whose pattern matches it, and none to a URL that no pattern matches.\<close>

theorem first_selector_gives_credentials:
  assumes "\<forall>sel \<in> set sels. auth_selector_ok sel \<and> rx_error rx (ba_raw_uri_regex sel) = None"
  shows "\<exists>ae. res_bind (map_err (\<lambda>_. []) (collect_results (map (auth_selector_parse \<circ> auth_selector_show) sels)))
      (auth_extractor_new rx) = Inr ae \<and>
    auth_matches rx ae u =
      map_option ba_credentials (List.find (\<lambda>sel. rx_is_match rx (ba_raw_uri_regex sel) (url_str u)) sels)"
proof -
  have "map (auth_selector_parse \<circ> auth_selector_show) sels = map Inr sels"
    using assms by (auto simp: auth_selector_parse_show)
  then have "collect_results (map (auth_selector_parse \<circ> auth_selector_show) sels) = Inr sels"
    by (simp add: collect_results_Inr_conv)
  moreover have "List.find (\<lambda>p. rx_error rx p \<noteq> None) (map ba_raw_uri_regex sels) = None"
    using assms by (auto simp: find_None_iff)
  moreover have "auth_matches rx \<lparr>ae_credentials = map ba_credentials sels, ae_regex_set = map ba_raw_uri_regex sels\<rparr> u =
      map_option ba_credentials (List.find (\<lambda>sel. rx_is_match rx (ba_raw_uri_regex sel) (url_str u)) sels)"
  proof -
    let ?P = "\<lambda>sel. rx_is_match rx (ba_raw_uri_regex sel) (url_str u)"
    let ?ms = "filter (\<lambda>i. ?P (sels ! i)) [0..<length sels]"
    have ms: "filter (\<lambda>i. rx_is_match rx (map ba_raw_uri_regex sels ! i) (url_str u)) [0..<length sels] = ?ms"
      by (rule filter_cong) auto
    show ?thesis
    proof (cases "?ms = []")
      case True
      then have "List.find ?P sels = None"
        unfolding find_None_iff hd_filter_upt(1) in_set_conv_nth by blast
      with True show ?thesis by (simp add: auth_matches_def ms)
    next
      case False
      from hd_filter_upt(2) [OF this] have found: "List.find ?P sels = Some (sels ! hd ?ms)"
        unfolding find_Some_iff by blast
      from hd_filter_upt(2) [OF False] have less: "hd ?ms < length sels" by blast
      show ?thesis
        unfolding auth_matches_def auth_extractor.simps length_map ms Let_def if_not_P [OF False] nth_map [OF less]
          found by simp
    qed
  qed
  ultimately show ?thesis by (simp add: auth_extractor_new_def Let_def)
qed

theorem first_selector_gives_credentials_witness:
  "let rx = \<lparr>rx_error = Map.empty, rx_is_match = prefix, rx_replace_all = (\<lambda>p r s. s)\<rparr>;
       c1 = \<lparr>cr_username = ''u'', cr_password = ''p''\<rparr>; c2 = \<lparr>cr_username = ''v'', cr_password = ''q''\<rparr>;
       sels = [\<lparr>ba_credentials = c1, ba_raw_uri_regex = ''https://b''\<rparr>, \<lparr>ba_credentials = c2, ba_raw_uri_regex = ''https://a''\<rparr>]
   in \<exists>ae. res_bind (map_err (\<lambda>_. []) (collect_results (map (auth_selector_parse \<circ> auth_selector_show) sels)))
      (auth_extractor_new rx) = Inr ae \<and> auth_matches rx ae (domain_url ''https'' ''a.org'' ''/'') = Some c2"
proof -
  let ?rx = "\<lparr>rx_error = Map.empty, rx_is_match = prefix, rx_replace_all = (\<lambda>p r s. s)\<rparr>"
  let ?sels = "[\<lparr>ba_credentials = \<lparr>cr_username = ''u'', cr_password = ''p''\<rparr>, ba_raw_uri_regex = ''https://b''\<rparr>,
     \<lparr>ba_credentials = \<lparr>cr_username = ''v'', cr_password = ''q''\<rparr>, ba_raw_uri_regex = ''https://a''\<rparr>]"
  have "auth_selector_ok sel" if "sel \<in> set ?sels" for sel
    using that by (auto simp: auth_selector_ok_def credentials_ok_def is_whitespace_def)
  then have "\<forall>sel \<in> set ?sels. auth_selector_ok sel \<and> rx_error ?rx (ba_raw_uri_regex sel) = None"
    by simp
  note claim = first_selector_gives_credentials [OF this, of "domain_url ''https'' ''a.org'' ''/''"]
  have find: "List.find (\<lambda>sel. rx_is_match ?rx (ba_raw_uri_regex sel) (url_str (domain_url ''https'' ''a.org'' ''/''))) ?sels =
      Some \<lparr>ba_credentials = \<lparr>cr_username = ''v'', cr_password = ''q''\<rparr>, ba_raw_uri_regex = ''https://a''\<rparr>"
    by (simp add: domain_url_def)
  from claim show ?thesis unfolding Let_def find by simp
qed

section \<open>The handler\<close>

text \<open>\<open>Authorization::basic\<close> and the encoding of the header are a parameter.\<close>

definition append_to_request ::
  "(string \<Rightarrow> string \<Rightarrow> string) \<Rightarrow> credentials \<Rightarrow> http_request \<Rightarrow> http_request" where
  "append_to_request basic c request =
     request\<lparr>hr_headers := hr_headers request @ [(''authorization'', basic (cr_username c) (cr_password c))]\<rparr>"

definition with_credentials ::
  "(string \<Rightarrow> string \<Rightarrow> string) \<Rightarrow> credentials option \<Rightarrow> http_request \<Rightarrow> http_request" where
  "with_credentials basic self request =
     (case self of Some c \<Rightarrow> append_to_request basic c request | None \<Rightarrow> request)"

definition credentials_handle ::
  "(string \<Rightarrow> string \<Rightarrow> string) \<Rightarrow> credentials option \<Rightarrow> (http_request, status, 's) handler" where
  "credentials_handle basic self request s = (Next (with_credentials basic self request), s)"

interpretation credentials: rewriting "credentials_handle basic self" "with_credentials basic self"
  for basic self
  by unfold_locales (simp add: credentials_handle_def)

end
