(* ===== verification/Quirks.thy ===== *)
theory Quirks
  imports Chain Host
begin

text \<open>
  Rewriting requests to websites that need it (\<open>lychee-lib/src/quirks/mod.rs\<close>).
\<close>

section \<open>The environment\<close>

text \<open>
  The regex crate, the expansion of a template by the captures of a match (pattern, text,
  template), the query pairs of a URL in order, the URL crate, and \<open>Url::parse\<close> with
  \<open>unwrap\<close> of texts whose scheme and host are constants, which parse whatever path follows.
\<close>

record quirk_env =
  qe_rx :: regex_crate
  qe_expand :: "string \<Rightarrow> string \<Rightarrow> string \<Rightarrow> string"
  qe_query_pairs :: "url \<Rightarrow> (string \<times> string) list"
  qe_urls :: url_crate
  qe_parse_fixed :: "string \<Rightarrow> url"

section \<open>The quirks\<close>

definition CRATES_PATTERN :: string where
  "CRATES_PATTERN = ''^(https?://)?(www'' @ [CHR 0x5C] @ ''.)?crates.io''"

definition YOUTUBE_PATTERN :: string where
  "YOUTUBE_PATTERN = ''^(https?://)?(www'' @ [CHR 0x5C] @ ''.)?youtube(-nocookie)?'' @ [CHR 0x5C] @ ''.com''"

definition YOUTUBE_SHORT_PATTERN :: string where
  "YOUTUBE_SHORT_PATTERN = ''^(https?://)?(www'' @ [CHR 0x5C] @ ''.)?(youtu'' @ [CHR 0x5C] @ ''.be)''"

definition GITHUB_BLOB_MARKDOWN_FRAGMENT_PATTERN :: string where
  "GITHUB_BLOB_MARKDOWN_FRAGMENT_PATTERN = ''^https://github'' @ [CHR 0x5C] @
     ''.com/(?<user>.*?)/(?<repo>.*?)/blob/(?<path>.*?)/(?<file>.*'' @ [CHR 0x5C] @ ''.(md|markdown)#.*)$''"

definition GITHUB_BLOB_LINE_FRAGMENT_PATTERN :: string where
  "GITHUB_BLOB_LINE_FRAGMENT_PATTERN = ''^https://github'' @ [CHR 0x5C] @
     ''.com/(?<user>.*?)/(?<repo>.*?)/blob/(?<path>.*?)#L'' @ [CHR 0x5C] @ ''d+(?:-L?'' @ [CHR 0x5C] @ ''d+)?$''"

text \<open>\<open>HeaderMap::insert\<close> replaces all values of a name.\<close>

definition headers_insert :: "string \<Rightarrow> string \<Rightarrow> (string \<times> string) list \<Rightarrow> (string \<times> string) list" where
  "headers_insert name v hs = filter (\<lambda>(n, _). n \<noteq> name) hs @ [(name, v)]"

text \<open>Collecting the pairs in a \<open>HashMap\<close> keeps the last value of a name.\<close>

definition query :: "quirk_env \<Rightarrow> http_request \<Rightarrow> string \<Rightarrow> string option" where
  "query qe request = map_of (rev (qe_query_pairs qe (hr_url request)))"

definition thumbnail_url :: "quirk_env \<Rightarrow> string \<Rightarrow> url" where
  "thumbnail_url qe vid = qe_parse_fixed qe (''https://img.youtube.com/vi/'' @ vid @ ''/0.jpg'')"

record quirk =
  qk_name :: string
  qk_pattern :: string
  qk_rewrite :: "http_request \<Rightarrow> http_request"

definition crates_rewrite :: "http_request \<Rightarrow> http_request" where
  "crates_rewrite request = request\<lparr>hr_headers := headers_insert ''accept'' ''text/html'' (hr_headers request)\<rparr>"

definition youtube_rewrite :: "quirk_env \<Rightarrow> http_request \<Rightarrow> http_request" where
  "youtube_rewrite qe request =
     (let path = url_path (hr_url request) in
      if path = ''/watch'' \<or> prefix ''/embed/'' path then
        (case (if path = ''/watch'' then query qe request ''v'' else Some (drop 7 path)) of
           Some vid \<Rightarrow> request\<lparr>hr_url := thumbnail_url qe vid\<rparr>
         | None \<Rightarrow> request)
      else request)"

definition youtube_short_rewrite :: "quirk_env \<Rightarrow> http_request \<Rightarrow> http_request" where
  "youtube_short_rewrite qe request =
     (let vid = dropWhile (\<lambda>c. c = CHR ''/'') (url_path (hr_url request)) in
      if vid = [] then request else request\<lparr>hr_url := thumbnail_url qe vid\<rparr>)"

definition line_fragment_rewrite :: "quirk_env \<Rightarrow> http_request \<Rightarrow> http_request" where
  "line_fragment_rewrite qe request =
     request\<lparr>hr_url := uc_set_fragment (qe_urls qe) None (hr_url request)\<rparr>"

definition raw_markdown_rewrite :: "quirk_env \<Rightarrow> http_request \<Rightarrow> http_request" where
  "raw_markdown_rewrite qe request =
     request\<lparr>hr_url := qe_parse_fixed qe (qe_expand qe GITHUB_BLOB_MARKDOWN_FRAGMENT_PATTERN
       (url_str (hr_url request)) ''https://raw.githubusercontent.com/$user/$repo/$path/$file'')\<rparr>"

definition quirks_default :: "quirk_env \<Rightarrow> quirk list" where
  "quirks_default qe =
     [\<lparr>qk_name = ''add accept header for crates.io'', qk_pattern = CRATES_PATTERN,
        qk_rewrite = crates_rewrite\<rparr>,
      \<lparr>qk_name = ''check YouTube IDs via thumbnail'', qk_pattern = YOUTUBE_PATTERN,
        qk_rewrite = youtube_rewrite qe\<rparr>,
      \<lparr>qk_name = ''check YouTube IDs via thumbnail (short link)'', qk_pattern = YOUTUBE_SHORT_PATTERN,
        qk_rewrite = youtube_short_rewrite qe\<rparr>,
      \<lparr>qk_name = ''delete line number fragments in GitHub links'',
        qk_pattern = GITHUB_BLOB_LINE_FRAGMENT_PATTERN, qk_rewrite = line_fragment_rewrite qe\<rparr>,
      \<lparr>qk_name = ''fetch raw GitHub Markdown files'',
        qk_pattern = GITHUB_BLOB_MARKDOWN_FRAGMENT_PATTERN, qk_rewrite = raw_markdown_rewrite qe\<rparr>]"

fun apply_quirks :: "regex_crate \<Rightarrow> quirk list \<Rightarrow> http_request \<Rightarrow> http_request" where
  "apply_quirks rx [] request = request"
| "apply_quirks rx (q # qs) request =
     apply_quirks rx qs (if rx_is_match rx (qk_pattern q) (url_str (hr_url request))
       then qk_rewrite q request else request)"

definition quirks_apply :: "quirk_env \<Rightarrow> http_request \<Rightarrow> http_request" where
  "quirks_apply qe = apply_quirks (qe_rx qe) (quirks_default qe)"

definition quirks_handle :: "quirk_env \<Rightarrow> (http_request, status, 's) handler" where
  "quirks_handle qe request s = (Next (quirks_apply qe request), s)"

interpretation quirks: rewriting "quirks_handle qe" "quirks_apply qe" for qe
  by unfold_locales (simp add: quirks_handle_def)

section \<open>What the quirks change\<close>

lemma rewrite_keeps_method:
  "q \<in> set (quirks_default qe) \<Longrightarrow> hr_method (qk_rewrite q request) = hr_method request"
  by (auto simp: quirks_default_def crates_rewrite_def youtube_rewrite_def youtube_short_rewrite_def
      line_fragment_rewrite_def raw_markdown_rewrite_def Let_def split: option.split)

lemma apply_quirks_method:
  "set qs \<subseteq> set (quirks_default qe) \<Longrightarrow> hr_method (apply_quirks rx qs request) = hr_method request"
  by (induction qs arbitrary: request) (auto simp: rewrite_keeps_method)

lemma quirks_keep_method: "hr_method (quirks_apply qe request) = hr_method request"
  unfolding quirks_apply_def by (rule apply_quirks_method) (rule order_refl)

lemma apply_no_quirk:
  "\<forall>q \<in> set qs. \<not> rx_is_match rx (qk_pattern q) (url_str (hr_url request)) \<Longrightarrow>
   apply_quirks rx qs request = request"
  by (induction qs) auto

end
