(* ===== verification/Website.thy ===== *)
theory Website
  imports Chain Retry Remap UriFilter BasicAuth Quirks FragmentChecker
begin

text \<open>
  Checking a website (\<open>lychee-lib/src/checker/website.rs\<close>): one attempt, the chain of handlers it
  runs in, the upgrade to HTTPS and the GitHub fallback.

  A check runs on a state of the host pool, the fragment cache and the outside world; the redirect
  history is a part of the world, because the redirect policy runs while a request executes.
  Waiting between attempts has no effect on the state here.
\<close>

section \<open>State and environment\<close>

record ('c, 'w) website_state =
  ws_pool :: "'c host_pool"
  ws_fragments :: fragment_cache
  ws_world :: 'w

text \<open>
  Beside the environments of the parts: the encoding of basic authentication, the redirect history
  in the world, and what the downcast in \<open>ErrorKind::github_error\<close> yields.
\<close>

record ('c, 'w) website_env =
  we_host :: "('c, 'w) host_env"
  we_fragments :: fragment_env
  we_quirks :: quirk_env
  we_basic :: "string \<Rightarrow> string \<Rightarrow> string"
  we_history :: "'w \<Rightarrow> redirect_history"
  we_github_error :: "error_kind \<Rightarrow> octo_error option"

text \<open>A GitHub client answers a repository query with an error or whether the repository is private.\<close>

type_synonym 'w github_client = "string \<Rightarrow> string \<Rightarrow> 'w \<Rightarrow> (octo_error + bool option) \<times> 'w"

record ('c, 'w) website_checker =
  wc_method :: string
  wc_github_client :: "'w github_client option"
  wc_plugin_request_chain :: "(http_request, status, ('c, 'w) website_state) handler list"
  wc_max_retries :: nat
  wc_retry_wait_time :: duration
  wc_accepted :: "status_code set"
  wc_require_https :: bool
  wc_fragment_options :: fragment_options

abbreviation show_ip_of :: "('c, 'w) website_env \<Rightarrow> url_host \<Rightarrow> string" where
  "show_ip_of we \<equiv> fe_show_ip (we_fragments we)"

section \<open>One attempt\<close>

definition check_html_fragment ::
  "('c, 'w) website_env \<Rightarrow> ('c, 'w) website_checker \<Rightarrow> url \<Rightarrow> status \<Rightarrow> string \<Rightarrow> file_type \<Rightarrow>
   ('c, 'w) website_state \<Rightarrow> status \<times> ('c, 'w) website_state" where
  "check_html_fragment we wc url status content file_type s =
     (let (found, cache) = fragment_check (we_fragments we) (wc_fragment_options wc)
            \<lparr>fi_content = content, fi_file_type = file_type\<rparr> url (ws_fragments s);
          s = s\<lparr>ws_fragments := cache\<rparr>
      in (case found of
            Inr True \<Rightarrow> (status, s)
          | Inr False \<Rightarrow> (StError (InvalidFragment url), s)
          | Inl e \<Rightarrow> (StError e, s)))"

text \<open>The file type of a response by its content type, if its fragments can be checked.\<close>

definition content_file_type :: "string \<Rightarrow> url \<Rightarrow> file_type option" where
  "content_file_type content_type url =
     (if prefix ''text/html'' content_type then Some Html
      else if prefix ''text/markdown'' content_type then Some Markdown
      else if prefix ''text/plain'' content_type then
        (case extension (path_components (url_path url)) of
           Some ext \<Rightarrow> if eq_ignore_ascii_case ext ''md'' then Some Markdown else None
         | None \<Rightarrow> None)
      else None)"

definition check_request_fragments :: "('c, 'w) website_checker \<Rightarrow> http_request \<Rightarrow> bool" where
  "check_request_fragments wc request \<longleftrightarrow>
     any_enabled (wc_fragment_options wc) \<and> hr_method request = ''GET'' \<and>
     (case url_fragment (hr_url request) of Some x \<Rightarrow> x \<noteq> [] | None \<Rightarrow> False)"

definition check_default ::
  "('c, 'w) website_env \<Rightarrow> ('c, 'w) website_checker \<Rightarrow> http_request \<Rightarrow> ('c, 'w) website_state \<Rightarrow>
   status \<times> ('c, 'w) website_state" where
  "check_default we wc request s =
     (let check_fragments = check_request_fragments wc request;
          (result, pool, w, _) = pool_execute_request (we_host we) (show_ip_of we) request
            check_fragments (ws_pool s) (ws_world s);
          s = s\<lparr>ws_pool := pool, ws_world := w\<rparr>
      in (case result of
            Inl e \<Rightarrow> (status_of_error e, s)
          | Inr response \<Rightarrow>
              (let status = status_new (cb_status response) (wc_accepted wc) in
               case cb_text response of
                 None \<Rightarrow> (status, s)
               | Some content \<Rightarrow>
                   if check_fragments \<and> code_is_success (he_http (we_host we)) (cb_status response) then
                     (case cb_headers response ''content-type'' of
                        Some (Some content_type) \<Rightarrow>
                          (case content_file_type content_type (cb_url response) of
                             Some file_type \<Rightarrow>
                               check_html_fragment we wc (hr_url request) status content file_type s
                           | None \<Rightarrow> (status, s))
                      | _ \<Rightarrow> (status, s))
                   else (status, s))))"

definition website_retry ::
  "('c, 'w) website_env \<Rightarrow> ('c, 'w) website_checker \<Rightarrow> http_request \<Rightarrow> ('c, 'w) website_state \<Rightarrow>
   status \<times> ('c, 'w) website_state" where
  "website_retry we wc request s =
     (case retry_request (check_default we wc request)
         (status_should_retry (he_http (we_host we)) (we_github_error we))
         (wc_max_retries wc) (wc_retry_wait_time wc) s of
        (status, s, _) \<Rightarrow> (status, s))"

definition website_handle ::
  "('c, 'w) website_env \<Rightarrow> ('c, 'w) website_checker \<Rightarrow>
   (http_request, status, ('c, 'w) website_state) handler" where
  "website_handle we wc request s = (case website_retry we wc request s of (status, s) \<Rightarrow> (Done status, s))"

section \<open>GitHub\<close>

definition check_github ::
  "('c, 'w) website_checker \<Rightarrow> github_uri \<Rightarrow> ('c, 'w) website_state \<Rightarrow> status \<times> ('c, 'w) website_state"
where
  "check_github wc g s =
     (case wc_github_client wc of
        None \<Rightarrow> (status_of_error MissingGitHubToken, s)
      | Some client \<Rightarrow>
          (let (result, w) = client (gh_owner g) (gh_repo g) (ws_world s);
               s = s\<lparr>ws_world := w\<rparr>
           in (case result of
                 Inl e \<Rightarrow> (status_of_error (GithubRequest e), s)
               | Inr private \<Rightarrow>
                   if private = Some True then (StOk 200, s)
                   else (case gh_endpoint g of
                       Some endpoint \<Rightarrow>
                         (status_of_error (InvalidGithubUrl (gh_owner g @ ''/'' @ gh_repo g @ ''/'' @ endpoint)), s)
                     | None \<Rightarrow> (StOk 200, s)))))"

definition handle_github ::
  "('c, 'w) website_checker \<Rightarrow> status \<Rightarrow> uri \<Rightarrow> ('c, 'w) website_state \<Rightarrow> status \<times> ('c, 'w) website_state"
where
  "handle_github wc status u s =
     (if is_success status then (status, s)
      else (case gh_org_and_repo u of
          Inl _ \<Rightarrow> (status, s)
        | Inr g \<Rightarrow>
            (let (status', s) = check_github wc g s in
             if is_success status' then (status', s) else (status, s))))"

section \<open>The whole check\<close>

definition default_chain ::
  "('c, 'w) website_env \<Rightarrow> ('c, 'w) website_checker \<Rightarrow> credentials option \<Rightarrow>
   (http_request, status, ('c, 'w) website_state) handler list" where
  "default_chain we wc credentials =
     [quirks_handle (we_quirks we), credentials_handle (we_basic we) credentials, website_handle we wc]"

definition check_website_inner ::
  "('c, 'w) website_env \<Rightarrow> ('c, 'w) website_checker \<Rightarrow> uri \<Rightarrow>
   (http_request, status, ('c, 'w) website_state) handler list \<Rightarrow> ('c, 'w) website_state \<Rightarrow>
   status \<times> ('c, 'w) website_state" where
  "check_website_inner we wc u chain s =
     (let (request, pool) = build_request (we_host we) (show_ip_of we) (wc_method wc) u (ws_pool s);
          s = s\<lparr>ws_pool := pool\<rparr>
      in (case request of
            Inl e \<Rightarrow> (status_of_error e, s)
          | Inr request \<Rightarrow>
              (let (status, s) = chains_traverse [wc_plugin_request_chain wc, chain] request s
               in handle_github wc status u s)))"

definition handle_insecure_url ::
  "('c, 'w) website_env \<Rightarrow> ('c, 'w) website_checker \<Rightarrow> uri \<Rightarrow>
   (http_request, status, ('c, 'w) website_state) handler list \<Rightarrow> status \<Rightarrow> ('c, 'w) website_state \<Rightarrow>
   status \<times> ('c, 'w) website_state" where
  "handle_insecure_url we wc u chain status s =
     (if wc_require_https wc \<and> url_scheme u = ''http'' then
        (case status of
           StOk _ \<Rightarrow>
             (case to_https (fe_urls (we_fragments we)) u of
                Inr https_uri \<Rightarrow>
                  (let (https_status, s) = check_website_inner we wc https_uri chain s in
                   if is_success https_status then (StError (InsecureURL https_uri), s) else (status, s))
              | Inl _ \<Rightarrow> (status, s))
         | _ \<Rightarrow> (status, s))
      else (status, s))"

definition check_website ::
  "('c, 'w) website_env \<Rightarrow> ('c, 'w) website_checker \<Rightarrow> uri \<Rightarrow> credentials option \<Rightarrow>
   ('c, 'w) website_state \<Rightarrow> (status \<times> redirects option) \<times> ('c, 'w) website_state" where
  "check_website we wc u credentials s =
     (let chain = default_chain we wc credentials;
          (status, s) = check_website_inner we wc u chain s;
          (status, s) = handle_insecure_url we wc u chain status s
      in ((status, history_resolve (we_history we (ws_world s)) u), s))"

section \<open>Instances\<close>

text \<open>
  For concrete instances: a server that answers every request with the same code and an HTML body
  without fragments, no quirks, and a checker whose only plugin answers every request with \<open>204\<close>.
\<close>

definition sample_env :: "status_code \<Rightarrow> (unit, nat) website_env" where
  "sample_env code = \<lparr>
     we_host = constant_server code [''content-type'' \<mapsto> Some ''text/html''],
     we_fragments = plain_fragment_env,
     we_quirks = \<lparr>qe_rx = \<lparr>rx_error = Map.empty, rx_is_match = (\<lambda>p s. False), rx_replace_all = (\<lambda>p r s. s)\<rparr>,
       qe_expand = (\<lambda>p s t. t), qe_query_pairs = (\<lambda>u. []), qe_urls = fe_urls plain_fragment_env,
       qe_parse_fixed = (\<lambda>s. domain_url ''https'' ''a.org'' s)\<rparr>,
     we_basic = (\<lambda>u p. u @ p), we_history = (\<lambda>_. Map.empty), we_github_error = Map.empty\<rparr>"

definition answering :: "status \<Rightarrow> (http_request, status, 's) handler" where
  "answering status request s = (Done status, s)"

definition sample_checker :: "status option \<Rightarrow> (unit, nat) website_checker" where
  "sample_checker plugin = \<lparr>wc_method = ''GET'', wc_github_client = Some (\<lambda>owner repo w. (Inr None, w)),
     wc_plugin_request_chain = (case plugin of Some status \<Rightarrow> [answering status] | None \<Rightarrow> []),
     wc_max_retries = 0, wc_retry_wait_time = 0, wc_accepted = {200}, wc_require_https = True,
     wc_fragment_options = \<lparr>check_anchor_fragments = True, check_text_fragments = False\<rparr>\<rparr>"

definition sample_state :: "(unit, nat) website_state" where
  "sample_state = \<lparr>ws_pool = new_pool, ws_fragments = Map.empty, ws_world = 0\<rparr>"

lemma domain_url_host: "url_host (domain_url scheme host path) = Some (HostDomain host)"
  by (simp add: domain_url_def)

lemma sample_build:
  "url_host u = Some (HostDomain d) \<Longrightarrow>
   fst (build_request (we_host (sample_env code)) show_ip m u pool) = Inr \<lparr>hr_method = m, hr_url = u, hr_headers = []\<rparr>"
  by (simp add: build_request_def key_of_url_def sample_env_def constant_server_def split: prod.split)

lemma sample_build_ex:
  "url_host u = Some (HostDomain d) \<Longrightarrow> \<exists>pool'. build_request (we_host (sample_env code)) show_ip m u pool =
     (Inr \<lparr>hr_method = m, hr_url = u, hr_headers = []\<rparr>, pool')"
  using sample_build by (metis prod.collapse)

section \<open>Properties\<close>

lemma traverse_default_chain:
  "traverse (default_chain we wc c) request s =
     (case website_retry we wc (with_credentials (we_basic we) c (quirks_apply (we_quirks we) request)) s of
        (status, s) \<Rightarrow> (Done status, s))"
  unfolding default_chain_def quirks.traverse_first credentials.traverse_first
  by (simp add: website_handle_def split: prod.split)

text \<open>A website is requested once through the chain: where a plugin finishes the request no request is
  made for it, and otherwise what is requested, with its retries, is what the plugins passed on,
  rewritten by the quirks and then given the credentials.  A request that cannot be built is not made
  either, and never asks GitHub.\<close>

theorem website_request_of_chain:
  assumes "build_request (we_host we) (show_ip_of we) (wc_method wc) u (ws_pool s) = (request, pool)"
  shows "(request = Inl e \<longrightarrow>
      check_website_inner we wc u (default_chain we wc c) s = (status_of_error e, s\<lparr>ws_pool := pool\<rparr>)) \<and>
    (request = Inr r \<and> traverse (wc_plugin_request_chain wc) r (s\<lparr>ws_pool := pool\<rparr>) = (Done status, s1) \<longrightarrow>
      check_website_inner we wc u (default_chain we wc c) s = handle_github wc status u s1) \<and>
    (request = Inr r \<and> traverse (wc_plugin_request_chain wc) r (s\<lparr>ws_pool := pool\<rparr>) = (Next r1, s1) \<longrightarrow>
      check_website_inner we wc u (default_chain we wc c) s =
        (case website_retry we wc (with_credentials (we_basic we) c (quirks_apply (we_quirks we) r1)) s1 of
           (status, s2) \<Rightarrow> handle_github wc status u s2))"
  using assms by (auto simp: check_website_inner_def traverse_default_chain split: prod.split)

theorem website_request_of_chain_witness:
  "fst (check_website_inner (sample_env 503) (sample_checker (Some (StOk 204))) (domain_url ''https'' ''a.org'' ''/'')
     (default_chain (sample_env 503) (sample_checker (Some (StOk 204))) None) sample_state) = StOk 204 \<and>
   ws_world (snd (check_website_inner (sample_env 503) (sample_checker (Some (StOk 204)))
     (domain_url ''https'' ''a.org'' ''/'')
     (default_chain (sample_env 503) (sample_checker (Some (StOk 204))) None) sample_state)) = 0"
proof -
  let ?we = "sample_env 503" and ?wc = "sample_checker (Some (StOk 204))"
  let ?u = "domain_url ''https'' ''a.org'' ''/''"
  obtain pool where build: "build_request (we_host ?we) (show_ip_of ?we) (wc_method ?wc) ?u (ws_pool sample_state) =
      (Inr \<lparr>hr_method = wc_method ?wc, hr_url = ?u, hr_headers = []\<rparr>, pool)"
    by (rule exE [OF sample_build_ex [OF domain_url_host]])
  have "traverse (wc_plugin_request_chain ?wc) \<lparr>hr_method = wc_method ?wc, hr_url = ?u, hr_headers = []\<rparr>
      (sample_state\<lparr>ws_pool := pool\<rparr>) = (Done (StOk 204), sample_state\<lparr>ws_pool := pool\<rparr>)"
    by (simp add: sample_checker_def answering_def)
  with website_request_of_chain [OF build, where c = None]
  have "check_website_inner ?we ?wc ?u (default_chain ?we ?wc None) sample_state =
      handle_github ?wc (StOk 204) ?u (sample_state\<lparr>ws_pool := pool\<rparr>)"
    by blast
  also have "\<dots> = (StOk 204, sample_state\<lparr>ws_pool := pool\<rparr>)"
    by (simp add: handle_github_def)
  finally show ?thesis by (simp add: sample_state_def)
qed

lemma handle_github_success:
  assumes "handle_github wc status u s = (st, s')"
  shows "is_success st \<longleftrightarrow> is_success status \<or>
      (\<exists>g client private w. gh_org_and_repo u = Inr g \<and> wc_github_client wc = Some client \<and>
         client (gh_owner g) (gh_repo g) (ws_world s) = (Inr private, w) \<and>
         (private = Some True \<or> gh_endpoint g = None))"
    and "\<not> is_success st \<longrightarrow> st = status"
    and "is_success status \<longrightarrow> st = status \<and> s' = s"
proof -
  have fails: "\<not> is_success (status_of_error (GithubRequest e))" "\<not> is_success (status_of_error MissingGitHubToken)"
    "\<not> is_success (status_of_error (InvalidGithubUrl x))" for e x
    by (simp_all add: status_of_error_def)
  show "is_success st \<longleftrightarrow> is_success status \<or>
      (\<exists>g client private w. gh_org_and_repo u = Inr g \<and> wc_github_client wc = Some client \<and>
         client (gh_owner g) (gh_repo g) (ws_world s) = (Inr private, w) \<and>
         (private = Some True \<or> gh_endpoint g = None))"
    using assms
    by (auto simp: handle_github_def check_github_def fails Let_def
        split: if_splits sum.splits option.splits prod.splits)
  show "\<not> is_success st \<longrightarrow> st = status" "is_success status \<longrightarrow> st = status \<and> s' = s"
    using assms by (auto simp: handle_github_def Let_def split: if_splits sum.splits prod.splits)
qed

text \<open>C28: GitHub is asked only about a link that failed, and its answer can only help: the check succeeds if
  the request did or GitHub knows the repository and it is private or the link goes no deeper than the
  repository; otherwise the status of the request is reported.\<close>

theorem github_only_helps:
  assumes "handle_github wc status u s = (st, s')"
  shows "(is_success st \<longleftrightarrow> is_success status \<or>
      (\<exists>g client private w. gh_org_and_repo u = Inr g \<and> wc_github_client wc = Some client \<and>
         client (gh_owner g) (gh_repo g) (ws_world s) = (Inr private, w) \<and>
         (private = Some True \<or> gh_endpoint g = None))) \<and>
    (\<not> is_success st \<longrightarrow> st = status) \<and> (is_success status \<longrightarrow> st = status \<and> s' = s)"
  using handle_github_success [OF assms] by blast

theorem github_only_helps_witness:
  "is_success (fst (handle_github (sample_checker None) (StTimeout None)
     (domain_url ''https'' ''github.com'' ''/lycheeverse/lychee'') sample_state))"
proof -
  let ?u = "domain_url ''https'' ''github.com'' ''/lycheeverse/lychee''"
  have "gh_org_and_repo ?u = Inr \<lparr>gh_owner = ''lycheeverse'', gh_repo = ''lychee'', gh_endpoint = None\<rparr>"
    by (simp add: gh_org_and_repo_def domain_url_def GITHUB_API_EXCLUDED_ENDPOINTS_def remove_suffix_def
        suffix_to_prefix Let_def)
  then have "\<exists>g client private w. gh_org_and_repo ?u = Inr g \<and> wc_github_client (sample_checker None) = Some client \<and>
      client (gh_owner g) (gh_repo g) (ws_world sample_state) = (Inr private, w) \<and>
      (private = Some True \<or> gh_endpoint g = None)"
    by (simp only:) (simp add: sample_checker_def)
  with github_only_helps [OF prod.collapse [symmetric], of "sample_checker None" "StTimeout None" ?u sample_state]
  show ?thesis by (simp only: simp_thms)
qed

text \<open>C27: With HTTPS required, a link of scheme http that is accepted is reported as insecure exactly if its
  HTTPS variant is checked with success afterwards; every other link, and every link that failed,
  keeps its status and is checked once.\<close>

theorem insecure_url_reported:
  assumes "check_website_inner we wc u (default_chain we wc c) s = (status, s1)"
  shows "fst (fst (check_website we wc u c s)) =
    (if wc_require_https wc \<and> url_scheme u = ''http'' \<and> (\<exists>code. status = StOk code) \<and>
        (\<exists>h. to_https (fe_urls (we_fragments we)) u = Inr h \<and>
           is_success (fst (check_website_inner we wc h (default_chain we wc c) s1)))
     then StError (InsecureURL (projr (to_https (fe_urls (we_fragments we)) u))) else status) \<and>
   (\<not> (wc_require_https wc \<and> url_scheme u = ''http'') \<or> (\<forall>code. status \<noteq> StOk code) \<longrightarrow>
      check_website we wc u c s = ((status, history_resolve (we_history we (ws_world s1)) u), s1))"
proof -
  let ?insecure = "handle_insecure_url we wc u (default_chain we wc c)"
  have fst_check: "fst (fst (check_website we wc u c s)) = fst (?insecure status s1)"
    by (simp add: check_website_def assms split: prod.split)
  show ?thesis
  proof (cases "\<not> (wc_require_https wc \<and> url_scheme u = ''http'') \<or> (\<forall>code. status \<noteq> StOk code)")
    case True
    then have same: "?insecure status s1 = (status, s1)"
      by (cases status) (auto simp: handle_insecure_url_def)
    then have "check_website we wc u c s = ((status, history_resolve (we_history we (ws_world s1)) u), s1)"
      by (simp add: check_website_def assms)
    with True show ?thesis by auto
  next
    case False
    then obtain code where code: "status = StOk code" "wc_require_https wc" "url_scheme u = ''http''" by blast
    then have "fst (?insecure status s1) =
       (if \<exists>h. to_https (fe_urls (we_fragments we)) u = Inr h \<and>
             is_success (fst (check_website_inner we wc h (default_chain we wc c) s1))
        then StError (InsecureURL (projr (to_https (fe_urls (we_fragments we)) u))) else StOk code)"
      by (auto simp: handle_insecure_url_def split: sum.split prod.split)
    with code fst_check show ?thesis by auto
  qed
qed

theorem insecure_url_reported_witness:
  "fst (fst (check_website (sample_env 200) (sample_checker (Some (StOk 204))) (domain_url ''http'' ''a.org'' ''/'') None
     sample_state)) = StError (InsecureURL ((domain_url ''http'' ''a.org'' ''/'')\<lparr>url_scheme := ''https''\<rparr>))"
proof -
  let ?we = "sample_env 200" and ?wc = "sample_checker (Some (StOk 204))"
  let ?u = "domain_url ''http'' ''a.org'' ''/''"
  have inner: "fst (check_website_inner ?we ?wc v (default_chain ?we ?wc None) s) = StOk 204"
    if host: "url_host v = Some (HostDomain d)" for v d s
  proof -
    obtain request pool where build: "build_request (we_host ?we) (show_ip_of ?we) (wc_method ?wc) v (ws_pool s) =
        (Inr request, pool)"
      using sample_build_ex [OF host] by blast
    have "wc_plugin_request_chain ?wc = [answering (StOk 204)]" by (simp add: sample_checker_def)
    then show ?thesis by (simp add: check_website_inner_def build answering_def handle_github_def)
  qed
  have host: "url_host ?u = Some (HostDomain ''a.org'')" "url_host (?u\<lparr>url_scheme := ''https''\<rparr>) = Some (HostDomain ''a.org'')"
    by (simp_all add: domain_url_def)
  obtain s1 where "check_website_inner ?we ?wc ?u (default_chain ?we ?wc None) sample_state = (StOk 204, s1)"
    using inner [OF host(1)] by (metis prod.collapse)
  moreover have "to_https (fe_urls (we_fragments ?we)) ?u = Inr (?u\<lparr>url_scheme := ''https''\<rparr>)"
    by (simp add: to_https_def sample_env_def plain_fragment_env_def)
  moreover have "wc_require_https ?wc" "url_scheme ?u = ''http''" by (simp_all add: sample_checker_def domain_url_def)
  ultimately show ?thesis
    using insecure_url_reported [of ?we ?wc ?u None sample_state "StOk 204" s1] inner [OF host(2), of s1] by simp
qed

text \<open>The errors of the parts: none of them is an invalid fragment.\<close>

lemma fragment_check_error: "fst (fragment_check fe options input url cache) = Inl e \<Longrightarrow> \<exists>x. e = Utf8 x"
proof -
  have "\<exists>x. e = Utf8 x" if "decode_variant fe t x = Inl e" for x t
    using that by (auto simp: decode_variant_def res_bind_def map_err_def split: sum.splits prod.splits)
  moreover have "\<exists>r \<in> set rs. r = Inl e" if "collect_results rs = Inl e" for rs :: "(error_kind + string option) list"
    using that by (induction rs) (auto simp: res_bind_def split: sum.splits)
  ultimately have "\<exists>x. e = Utf8 x" if "builder_new fe f u t = Inl e" for f u t
    using that by (fastforce simp: builder_new_def res_bind_def Let_def split: sum.splits)
  then have "\<exists>x. e = Utf8 x" if "fst (check_anchor_fragment fe c t url a cache) = Inl e" for c t a
    using that by (auto simp: check_anchor_fragment_def Let_def split: option.splits sum.splits if_splits)
  then show "fst (fragment_check fe options input url cache) = Inl e \<Longrightarrow> \<exists>x. e = Utf8 x"
    by (auto simp: fragment_check_def Let_def split: sum.splits bool.splits prod.splits if_splits) (metis fst_conv)+
qed

lemma pool_execute_error:
  assumes "pool_execute_request env show_ip request b pool w = (Inl e, pool', w', slept)"
  shows "e = InvalidUrlHost \<or> (\<exists>r. e = NetworkRequest r \<or> e = ReadResponseBody r)"
  using assms
  by (auto simp: pool_execute_request_def key_of_url_def host_execute_request_def perform_request_def
      host_finish_def response_from_def Let_def res_bind_def map_err_def
      split: sum.splits option.splits prod.splits if_splits)

text \<open>C26: An invalid fragment is reported only for the URL of the request, only if it was a GET request with a
  fragment that is not empty and fragments are to be checked, and only if the response succeeded, with
  an HTML or Markdown body in which the fragment checker did not find the fragment.  A fragment \<open>top\<close>
  is always found, but the body is fetched for it all the same.\<close>

theorem invalid_fragment_justified:
  assumes "check_default we wc request s = (StError (InvalidFragment v), s')"
  shows "v = hr_url request \<and> hr_method request = ''GET'' \<and> any_enabled (wc_fragment_options wc) \<and>
    (\<exists>x response content content_type file_type cache.
       url_fragment v = Some x \<and> x \<noteq> [] \<and>
       fst (pool_execute_request (we_host we) (show_ip_of we) request True (ws_pool s) (ws_world s)) = Inr response \<and>
       code_is_success (he_http (we_host we)) (cb_status response) \<and> cb_text response = Some content \<and>
       cb_headers response ''content-type'' = Some (Some content_type) \<and>
       content_file_type content_type (cb_url response) = Some file_type \<and>
       fragment_check (we_fragments we) (wc_fragment_options wc)
         \<lparr>fi_content = content, fi_file_type = file_type\<rparr> v (ws_fragments s) = (Inr False, cache)) \<and>
    check_request_fragments (wc\<lparr>wc_fragment_options := \<lparr>check_anchor_fragments = True, check_text_fragments = False\<rparr>\<rparr>)
      (request\<lparr>hr_url := v\<lparr>url_fragment := Some ''top''\<rparr>\<rparr>)"
proof -
  let ?b = "check_request_fragments wc request"
  obtain result pool w sl where exe: "pool_execute_request (we_host we) (show_ip_of we) request ?b (ws_pool s) (ws_world s) =
      (result, pool, w, sl)" by (metis prod_cases4)
  obtain response where result: "result = Inr response"
  proof (cases result)
    case (Inl e)
    from pool_execute_error [OF exe [unfolded Inl]] assms show thesis
      by (auto simp: check_default_def exe Inl status_of_error_def status_of_reqwest_def Let_def split: if_splits)
  qed
  have new: "status_new (cb_status response) (wc_accepted wc) \<noteq> StError (InvalidFragment v)"
    by (simp add: status_new_def)
  let ?s = "s\<lparr>ws_pool := pool, ws_world := w\<rparr>"
  obtain content content_type file_type where found: "cb_text response = Some content" "?b"
    "code_is_success (he_http (we_host we)) (cb_status response)"
    "cb_headers response ''content-type'' = Some (Some content_type)"
    "content_file_type content_type (cb_url response) = Some file_type"
    and check: "check_html_fragment we wc (hr_url request) (status_new (cb_status response) (wc_accepted wc))
      content file_type ?s = (StError (InvalidFragment v), s')"
    using assms new by (auto simp: check_default_def exe result Let_def split: option.splits if_splits)
  obtain r cache where fc: "fragment_check (we_fragments we) (wc_fragment_options wc)
      \<lparr>fi_content = content, fi_file_type = file_type\<rparr> (hr_url request) (ws_fragments s) = (r, cache)" by force
  have "r \<noteq> Inl (InvalidFragment v)"
  proof
    assume "r = Inl (InvalidFragment v)"
    with fc have "fst (fragment_check (we_fragments we) (wc_fragment_options wc)
        \<lparr>fi_content = content, fi_file_type = file_type\<rparr> (hr_url request) (ws_fragments s)) = Inl (InvalidFragment v)"
      by simp
    from fragment_check_error [OF this] show False by simp
  qed
  then have "v = hr_url request" "r = Inr False"
    using check new fc by (auto simp: check_html_fragment_def Let_def split: sum.splits bool.splits)
  then show ?thesis
    using found fc exe result
    by (auto simp: check_request_fragments_def any_enabled_def split: option.splits)
qed

theorem invalid_fragment_justified_witness:
  "check_request_fragments (sample_checker None)
     \<lparr>hr_method = ''GET'', hr_url = (fragment_url ''x'')\<lparr>url_fragment := Some ''top''\<rparr>, hr_headers = []\<rparr> \<and>
   (\<exists>s'. check_default (sample_env 200) (sample_checker None)
     \<lparr>hr_method = ''GET'', hr_url = fragment_url ''x'', hr_headers = []\<rparr> sample_state =
       (StError (InvalidFragment (fragment_url ''x'')), s'))"
proof -
  let ?request = "\<lparr>hr_method = ''GET'', hr_url = fragment_url ''x'', hr_headers = []\<rparr>"
  let ?we = "sample_env 200" and ?wc = "sample_checker None"
  have body: "check_request_fragments ?wc ?request"
    by (simp add: check_request_fragments_def sample_checker_def any_enabled_def fragment_url_def)
  obtain result pool w sl where exe:
    "pool_execute_request (we_host ?we) (show_ip_of ?we) ?request True (ws_pool sample_state) (ws_world sample_state) =
      (result, pool, w, sl)" by (metis prod_cases4)
  then have result: "result = Inr \<lparr>cb_status = 200, cb_text = Some ''body'',
      cb_headers = [''content-type'' \<mapsto> Some ''text/html''], cb_url = fragment_url ''x''\<rparr>"
    by (auto simp: pool_execute_request_def key_of_url_def fragment_url_def domain_url_def lower_a_org
        get_or_create_host_def new_pool_def host_pool_new_def host_execute_request_def host_new_def
        get_cached_status_def perform_request_def host_finish_def response_from_def sample_env_def
        constant_server_def sample_state_def Let_def split: prod.splits)
  have missing: "fst (fragment_check (we_fragments ?we) (wc_fragment_options ?wc)
      \<lparr>fi_content = c, fi_file_type = Html\<rparr> (fragment_url ''x'') Map.empty) = Inr False" for c
    by (simp add: fragment_check_def sample_env_def sample_checker_def plain_fragment_env_def fragment_url_def
        domain_url_def fragment_parse_def check_anchor_fragment_def fragment_extractor_def builder_new_def
        on_github_def with_element_fragment_def decode_variant_def any_matches_def no_fragments
        eq_ignore_ascii_case_def ascii_lower_def suffix_def List.map_filter_def Let_def)
  have "ws_fragments sample_state = Map.empty" "code_is_success (he_http (we_host ?we)) 200"
    by (simp_all add: sample_state_def sample_env_def constant_server_def http_std_def)
  then have "\<exists>s'. check_default ?we ?wc ?request sample_state = (StError (InvalidFragment (fragment_url ''x'')), s')"
    using missing [of "''body''"]
    by (auto simp: check_default_def body exe result content_file_type_def check_html_fragment_def Let_def
        split: prod.split)
  then show ?thesis
    using invalid_fragment_justified [of "sample_env 200" "sample_checker None" ?request sample_state "fragment_url ''x''"]
    by (auto simp: sample_checker_def)
qed

end
