(* ===== verification/BaseInfo.thy ===== *)
theory BaseInfo
  imports UriFilter
begin

text \<open>
  Resolving the text of a link to a URL: \<open>lychee-lib/src/types/uri/parsed.rs\<close> (absolute or relative),
  \<open>lychee-lib/src/types/uri/relative.rs\<close> (the kinds of relative links) and
  \<open>lychee-lib/src/types/base_info.rs\<close> (what is known of the place a link was found at).
\<close>

section \<open>Environment\<close>

text \<open>
  Beside parsing and joining URLs: the syntax check of mail addresses, \<open>Url::make_relative\<close>, the url
  crate's conversions between paths and file URLs, which exist for absolute paths, the standard
  library's \<open>std::path::absolute\<close>, and removing an empty last segment of a path, which leaves a URL
  that cannot be a base as it is.
\<close>

record base_env =
  be_urls :: url_crate
  be_valid_mail :: "string \<Rightarrow> bool"
  be_make_relative :: "url \<Rightarrow> url \<Rightarrow> string option"
  be_from_directory_path :: "path \<Rightarrow> url option"
  be_from_file_path :: "path \<Rightarrow> url option"
  be_to_file_path :: "url \<Rightarrow> path option"
  be_absolute :: "path \<Rightarrow> path option"
  be_pop_if_empty :: "url \<Rightarrow> url"

text \<open>
  What the documentation of the url crate says: \<open>make_relative\<close> is the inverse of \<open>join\<close>, and joining
  with an absolute path keeps the scheme.
\<close>

definition base_documented :: "base_env \<Rightarrow> bool" where
  "base_documented be \<longleftrightarrow>
     (\<forall>origin u p. be_make_relative be origin u = Some p \<longrightarrow> uc_join (be_urls be) origin p = Inr u) \<and>
     (\<forall>u origin. uc_join (be_urls be) u ''/'' = Inr origin \<longrightarrow> url_scheme origin = url_scheme u)"

definition cannot_be_a_base :: "url \<Rightarrow> bool" where
  "cannot_be_a_base u \<longleftrightarrow> url_segments u = None"

definition trim_ascii_start :: "string \<Rightarrow> string" where
  "trim_ascii_start s = trim_start_by is_ascii_whitespace s"

section \<open>Absolute and relative links\<close>

datatype relative_uri = RelRoot string | RelScheme string | RelLocal string

definition relative_parse :: "string \<Rightarrow> relative_uri" where
  "relative_parse s =
     (let s = trim_ascii_start s in
      if prefix ''//'' s then RelScheme s else if prefix ''/'' s then RelRoot s else RelLocal s)"

fun link_text :: "relative_uri \<Rightarrow> string" where
  "link_text (RelRoot x) = x" | "link_text (RelScheme x) = x" | "link_text (RelLocal x) = x"

datatype parsed_uri = AbsoluteUri uri | RelativeUri relative_uri

definition parsed_parse :: "base_env \<Rightarrow> string \<Rightarrow> error_kind + parsed_uri" where
  "parsed_parse be s =
     (let s = trim_ascii_start s in
      case uri_try_from (be_urls be) (be_valid_mail be) s of
        Inr u \<Rightarrow> Inr (AbsoluteUri u)
      | Inl (ParseUrl RelativeUrlWithoutBase _) \<Rightarrow> Inr (RelativeUri (relative_parse s))
      | Inl e \<Rightarrow> Inl e)"

section \<open>Bases\<close>

datatype base_info = BaseNone | NoRoot url | Full url string

definition split_url_origin_and_path :: "base_env \<Rightarrow> url \<Rightarrow> (url \<times> string) option" where
  "split_url_origin_and_path be u =
     (case uc_join (be_urls be) u ''/'' of
        Inl _ \<Rightarrow> None
      | Inr origin \<Rightarrow>
          (case be_make_relative be origin u of None \<Rightarrow> None | Some subpath \<Rightarrow> Some (origin, subpath)))"

definition from_source_url :: "base_env \<Rightarrow> url \<Rightarrow> base_info" where
  "from_source_url be u =
     (if url_scheme u = ''file'' then NoRoot u
      else (case split_url_origin_and_path be u of
          Some (origin, path) \<Rightarrow> Full origin path
        | None \<Rightarrow> BaseNone))"

definition from_base_url :: "base_env \<Rightarrow> url \<Rightarrow> error_kind + base_info" where
  "from_base_url be u =
     (if cannot_be_a_base u
      then Inl (InvalidBase (url_str u) ''The given URL cannot be used as a base URL'')
      else Inr (from_source_url be u))"

fun use_fs_path_as_origin :: "base_info \<Rightarrow> base_info" where
  "use_fs_path_as_origin (NoRoot u) = Full u []"
| "use_fs_path_as_origin base = base"

text \<open>The \<open>expect\<close> of \<open>use_fs_root_as_origin\<close> panics.\<close>

fun use_fs_root_as_origin :: "base_env \<Rightarrow> base_info \<Rightarrow> base_info eval" where
  "use_fs_root_as_origin be (NoRoot u) =
     (case split_url_origin_and_path be u of
        Some (fs_root, subpath) \<Rightarrow> Value (Full fs_root subpath)
      | None \<Rightarrow> Panic)"
| "use_fs_root_as_origin be base = Value base"

text \<open>A path is given as its text.\<close>

definition from_path :: "base_env \<Rightarrow> string \<Rightarrow> error_kind + base_info" where
  "from_path be path =
     (case be_from_directory_path be (path_components path) of
        None \<Rightarrow> Inl (InvalidBase path
          ''Base must either be a full URL (with scheme) or an absolute local path'')
      | Some u \<Rightarrow> res_bind (from_base_url be u) (\<lambda>x. Inr (use_fs_path_as_origin x)))"

fun base_url :: "base_env \<Rightarrow> base_info \<Rightarrow> url option" where
  "base_url be BaseNone = None"
| "base_url be (NoRoot u) = Some u"
| "base_url be (Full origin path) =
     (case uc_join (be_urls be) origin path of Inr u \<Rightarrow> Some u | Inl _ \<Rightarrow> None)"

definition base_to_file_path :: "base_env \<Rightarrow> base_info \<Rightarrow> path option" where
  "base_to_file_path be base =
     (case base_url be base of
        Some u \<Rightarrow> if url_scheme u = ''file'' then be_to_file_path be u else None
      | None \<Rightarrow> None)"

fun base_scheme :: "base_info \<Rightarrow> string option" where
  "base_scheme BaseNone = None"
| "base_scheme (NoRoot u) = Some (url_scheme u)"
| "base_scheme (Full origin _) = Some (url_scheme origin)"

definition base_is_none :: "base_info \<Rightarrow> bool" where
  "base_is_none base \<longleftrightarrow> (case base of BaseNone \<Rightarrow> True | _ \<Rightarrow> False)"

definition supports_root_relative :: "base_info \<Rightarrow> bool" where
  "supports_root_relative base \<longleftrightarrow> (case base of Full _ _ \<Rightarrow> True | _ \<Rightarrow> False)"

definition supports_locally_relative :: "base_info \<Rightarrow> bool" where
  "supports_locally_relative base \<longleftrightarrow> \<not> base_is_none base"

fun or_fallback :: "base_info \<Rightarrow> base_info \<Rightarrow> base_info" where
  "or_fallback (Full origin path) _ = Full origin path"
| "or_fallback _ (Full origin path) = Full origin path"
| "or_fallback (NoRoot u) _ = NoRoot u"
| "or_fallback _ (NoRoot u) = NoRoot u"
| "or_fallback BaseNone BaseNone = BaseNone"

section \<open>Resolving links\<close>

definition resolve_relative_link :: "base_env \<Rightarrow> base_info \<Rightarrow> relative_uri \<Rightarrow> error_kind + url" where
  "resolve_relative_link be base rel =
     (let uc = be_urls be; parse_error = map_err (\<lambda>e. ParseUrl e (link_text rel)) in
      case (base, rel) of
        (BaseNone, RelRoot _) \<Rightarrow> Inl (RootRelativeLinkWithoutRoot (link_text rel))
      | (NoRoot _, RelRoot _) \<Rightarrow> Inl (RootRelativeLinkWithoutRoot (link_text rel))
      | (BaseNone, _) \<Rightarrow> parse_error (Inl RelativeUrlWithoutBase)
      | (NoRoot u, RelLocal txt) \<Rightarrow> parse_error (uc_join uc u txt)
      | (NoRoot u, RelScheme txt) \<Rightarrow> parse_error (uc_join uc u txt)
      | (Full origin path, _) \<Rightarrow>
          (case rel of
             RelRoot root_rel \<Rightarrow>
               if url_scheme origin = ''file'' then parse_error (uc_join uc origin (''.'' @ root_rel))
               else parse_error (res_bind (uc_join uc origin path) (\<lambda>x. uc_join uc x (link_text rel)))
           | _ \<Rightarrow> parse_error (res_bind (uc_join uc origin path) (\<lambda>x. uc_join uc x (link_text rel)))))"

definition parse_url_text :: "base_env \<Rightarrow> base_info \<Rightarrow> string \<Rightarrow> error_kind + url" where
  "parse_url_text be base s =
     (case parsed_parse be s of
        Inr (AbsoluteUri u) \<Rightarrow> Inr u
      | Inr (RelativeUri rel) \<Rightarrow> resolve_relative_link be base rel
      | Inl e \<Rightarrow> Inl e)"

definition parse_url_text_with_root_dir ::
  "base_env \<Rightarrow> base_info \<Rightarrow> string \<Rightarrow> url option \<Rightarrow> error_kind + url" where
  "parse_url_text_with_root_dir be base s root_dir =
     (case parsed_parse be s of
        Inr (AbsoluteUri u) \<Rightarrow> Inr u
      | Inl e \<Rightarrow> Inl e
      | Inr (RelativeUri rel) \<Rightarrow>
          (case (root_dir, rel) of
             (Some root_dir, RelRoot _) \<Rightarrow>
               if base_scheme base = None \<or> base_scheme base = Some ''file''
               then resolve_relative_link be (Full root_dir []) rel
               else resolve_relative_link be base rel
           | _ \<Rightarrow> resolve_relative_link be base rel))"

text \<open>\<open>utils::url::parse_url_or_path\<close>: a drive letter is not a scheme.\<close>

definition parse_url_or_path :: "url_crate \<Rightarrow> string \<Rightarrow> string + url" where
  "parse_url_or_path uc input =
     (case uc_parse uc input of
        Inr u \<Rightarrow> if length (url_scheme u) = 1 then Inl input else Inr u
      | Inl _ \<Rightarrow> Inl input)"

definition base_try_from :: "base_env \<Rightarrow> string \<Rightarrow> error_kind + base_info" where
  "base_try_from be s =
     (if s = [] then Inr BaseNone
      else (case parse_url_or_path (be_urls be) s of
          Inr u \<Rightarrow> from_base_url be u
        | Inl path \<Rightarrow> from_path be path))"

section \<open>Instances\<close>

text \<open>URLs of domains and absolute paths, and relative links without query or dots.\<close>

definition plain_parse :: "string \<Rightarrow> url_parse_error + url" where
  "plain_parse s =
     (case split_once ''://'' s of
        None \<Rightarrow> Inl RelativeUrlWithoutBase
      | Some (scheme, rest) \<Rightarrow>
          (let host = takeWhile (\<lambda>c. c \<noteq> CHR ''/'') rest; path = dropWhile (\<lambda>c. c \<noteq> CHR ''/'') rest
           in Inr (domain_url scheme host (if path = [] then ''/'' else path))))"

definition plain_join :: "url \<Rightarrow> string \<Rightarrow> url_parse_error + url" where
  "plain_join u s =
     (case url_host u of
        Some (HostDomain host) \<Rightarrow>
          Inr (domain_url (url_scheme u) host
            (if prefix ''/'' s then s
             else rev (dropWhile (\<lambda>c. c \<noteq> CHR ''/'') (rev (url_path u))) @ s))
      | _ \<Rightarrow> Inl (OtherParseError s))"

definition plain_make_relative :: "url \<Rightarrow> url \<Rightarrow> string option" where
  "plain_make_relative origin u =
     (case (url_host origin, url_path u) of
        (Some (HostDomain host), CHR ''/'' # p) \<Rightarrow>
          if url_path origin = ''/'' \<and> u = domain_url (url_scheme origin) host (url_path u) \<and> \<not> prefix ''/'' p
          then Some p else None
      | _ \<Rightarrow> None)"

definition plain_urls :: url_crate where
  "plain_urls = \<lparr>uc_parse = plain_parse, uc_join = plain_join,
     uc_set_scheme = (\<lambda>s u. Some (u\<lparr>url_scheme := s\<rparr>)), uc_set_fragment = (\<lambda>f u. u\<lparr>url_fragment := f\<rparr>)\<rparr>"

definition trim_end_slash :: "string \<Rightarrow> string" where
  "trim_end_slash s = (if length s > 1 \<and> last s = CHR ''/'' then butlast s else s)"

definition plain_base_env :: base_env where
  "plain_base_env = \<lparr>be_urls = plain_urls, be_valid_mail = (\<lambda>_. False),
     be_make_relative = plain_make_relative,
     be_from_directory_path = (\<lambda>p. Some (domain_url ''file'' [] (path_show p @ ''/''))),
     be_from_file_path = (\<lambda>p. Some (domain_url ''file'' [] (path_show p))),
     be_to_file_path = (\<lambda>u. Some (path_components (url_path u))),
     be_absolute = (\<lambda>p. Some (if path_rooted p then p else ''/'' # p)),
     be_pop_if_empty = (\<lambda>u. domain_url (url_scheme u) [] (trim_end_slash (url_path u)))\<rparr>"

lemma domain_url_fields [simp]:
  "url_path (domain_url s h p) = p" "url_scheme (domain_url s h p) = s"
  "url_host (domain_url s h p) = Some (HostDomain h)"
  by (simp_all add: domain_url_def)

lemma plain_base_documented: "base_documented plain_base_env"
proof -
  have "plain_join origin p = Inr u" if rel: "plain_make_relative origin u = Some p" for origin u p
  proof -
    obtain host where host: "url_host origin = Some (HostDomain host)"
      using rel by (cases "url_host origin") (auto simp: plain_make_relative_def split: url_host.splits)
    obtain q where q: "url_path u = CHR ''/'' # q"
      using rel host by (auto simp: plain_make_relative_def split: list.splits char.splits bool.splits)
    have "q = p" and path: "url_path origin = ''/''" and slash: "\<not> prefix ''/'' p"
      and u: "u = domain_url (url_scheme origin) host (url_path u)"
      using rel by (simp_all add: plain_make_relative_def host q split: if_splits)
    with q have u: "u = domain_url (url_scheme origin) host (CHR ''/'' # p)" by metis
    show ?thesis using slash by (subst u) (simp add: plain_join_def host path)
  qed
  moreover have "url_scheme origin = url_scheme u" if "plain_join u ''/'' = Inr origin" for u origin
    using that by (auto simp: plain_join_def domain_url_def split: option.splits url_host.splits)
  ultimately show ?thesis by (simp add: base_documented_def plain_base_env_def plain_urls_def)
qed

section \<open>The base of a source\<close>

lemma relative_parse_root: "relative_parse s = RelRoot t \<longleftrightarrow>
  t = trim_ascii_start s \<and> prefix ''/'' t \<and> \<not> prefix ''//'' t"
  by (auto simp: relative_parse_def Let_def)

lemma trim_ascii_start_idem [simp]: "trim_ascii_start (trim_ascii_start s) = trim_ascii_start s"
  by (metis dropWhile_eq_Cons_conv dropWhile.simps(1) dropWhile_eq_self_iff hd_dropWhile trim_ascii_start_def trim_start_by_def)

lemma parsed_parse_relative:
  "parsed_parse be s = Inr (RelativeUri rel) \<Longrightarrow> rel = relative_parse s \<and> link_text rel = trim_ascii_start s"
  by (auto simp: parsed_parse_def relative_parse_def Let_def split: sum.splits error_kind.splits
      url_parse_error.splits)

lemma or_fallback_rank:
  fixes rank :: "base_info \<Rightarrow> nat"
  defines "rank \<equiv> case_base_info 0 (\<lambda>_. 1) (\<lambda>_ _. 2)"
  shows "rank (or_fallback a b) = max (rank a) (rank b)" "rank b \<le> rank a \<Longrightarrow> or_fallback a b = a"
    "rank a < rank b \<Longrightarrow> or_fallback a b = b"
  by (cases a; cases b; simp add: rank_def)+

lemma or_fallback_assoc: "or_fallback (or_fallback a b) c = or_fallback a (or_fallback b c)"
  by (cases a; cases b; cases c) simp_all

text \<open>C24: The base made of a source URL is a base for the source: its URL is the source URL again, and a
  relative link resolves against it exactly as joining the link to the source URL does, with the one
  exception of a root-relative link in a local file, which is refused.\<close>

theorem source_base_resolves_like_join:
  assumes "base_documented be" and "from_source_url be u \<noteq> BaseNone"
  shows "base_url be (from_source_url be u) = Some u \<and>
    resolve_relative_link be (from_source_url be u) rel =
      (if url_scheme u = ''file'' \<and> (\<exists>t. rel = RelRoot t)
       then Inl (RootRelativeLinkWithoutRoot (link_text rel))
       else map_err (\<lambda>e. ParseUrl e (link_text rel)) (uc_join (be_urls be) u (link_text rel)))"
proof (cases "url_scheme u = ''file''")
  case True
  then show ?thesis by (cases rel) (simp_all add: from_source_url_def resolve_relative_link_def Let_def)
next
  case False
  then obtain origin path where split: "split_url_origin_and_path be u = Some (origin, path)"
    and base: "from_source_url be u = Full origin path"
    using assms(2) by (auto simp: from_source_url_def split: option.splits)
  have "uc_join (be_urls be) origin path = Inr u" "url_scheme origin = url_scheme u"
    using split assms(1) by (auto simp: split_url_origin_and_path_def base_documented_def
        split: sum.splits option.splits)
  then show ?thesis
    using False by (cases rel) (simp_all add: base resolve_relative_link_def Let_def)
qed

theorem source_base_resolves_like_join_witness:
  "resolve_relative_link plain_base_env
     (from_source_url plain_base_env (domain_url ''http'' ''a.org'' ''/d/i.html'')) (relative_parse '' x.html'') =
   Inr (domain_url ''http'' ''a.org'' ''/d/x.html'')"
proof -
  let ?u = "domain_url ''http'' ''a.org'' ''/d/i.html''"
  have "from_source_url plain_base_env ?u \<noteq> BaseNone"
    by (simp add: from_source_url_def split_url_origin_and_path_def plain_base_env_def plain_urls_def
        plain_join_def plain_make_relative_def)
  from source_base_resolves_like_join [OF plain_base_documented this, of "relative_parse '' x.html''"]
  show ?thesis
    by (simp add: relative_parse_def trim_ascii_start_def trim_start_by_def is_ascii_whitespace_def
        plain_base_env_def plain_urls_def plain_join_def)
qed

text \<open>A given root directory decides the root-relative links of local files and of inputs without a
  location, and nothing else: every other link, and every link of a remote source, resolves as it does
  without.  The directory is no jail, though: dots in a root-relative link are resolved only after a dot
  has been put before its slash.\<close>

theorem root_dir_for_local_root_links:
  assumes "url_scheme root = ''file''"
  shows "parse_url_text_with_root_dir be base s (Some root) =
      (if (base_scheme base = None \<or> base_scheme base = Some ''file'') \<and>
          (\<exists>t. parsed_parse be s = Inr (RelativeUri (RelRoot t)))
       then map_err (\<lambda>e. ParseUrl e (trim_ascii_start s))
         (uc_join (be_urls be) root (CHR ''.'' # trim_ascii_start s))
       else parse_url_text be base s) \<and>
    parse_url_text_with_root_dir be base s None = parse_url_text be base s"
proof (cases "parsed_parse be s")
  case (Inl e)
  then show ?thesis by (simp add: parse_url_text_with_root_dir_def parse_url_text_def)
next
  case (Inr p)
  show ?thesis
  proof (cases p)
    case (AbsoluteUri u)
    with Inr show ?thesis by (simp add: parse_url_text_with_root_dir_def parse_url_text_def)
  next
    case (RelativeUri rel)
    then have "link_text rel = trim_ascii_start s" using parsed_parse_relative Inr by blast
    with Inr RelativeUri assms show ?thesis
      by (cases rel) (auto simp: parse_url_text_with_root_dir_def parse_url_text_def
          resolve_relative_link_def [of be "Full root []"])
  qed
qed

theorem root_dir_for_local_root_links_witness:
  "parse_url_text_with_root_dir plain_base_env BaseNone ''/a.md'' (Some (domain_url ''file'' [] ''/r/'')) =
   Inr (domain_url ''file'' [] ''/r/./a.md'')"
proof -
  have "parsed_parse plain_base_env ''/a.md'' = Inr (RelativeUri (RelRoot ''/a.md''))"
    by (simp add: parsed_parse_def relative_parse_def trim_ascii_start_def trim_start_by_def
        is_ascii_whitespace_def uri_try_from_def plain_base_env_def plain_urls_def plain_parse_def)
  then show ?thesis
    using root_dir_for_local_root_links [of "domain_url ''file'' [] ''/r/''" plain_base_env BaseNone "''/a.md''"]
    by (simp add: trim_ascii_start_def trim_start_by_def is_ascii_whitespace_def
        plain_base_env_def plain_urls_def plain_join_def)
qed

end
