(* ===== verification/FileChecker.thy ===== *)
theory FileChecker
  imports BaseInfo FragmentChecker
begin

text \<open>
  Checking a local file: \<open>lychee-lib/src/checker/file.rs\<close>, with the index and the resolver of wikilinks
  (\<open>lychee-lib/src/checker/wikilink/index.rs\<close> and \<open>resolver.rs\<close>).

  The file system is a parameter that does not change during a check.  Paths are lists of components, so
  a trailing separator is not represented.
\<close>

section \<open>The file system\<close>

datatype fs_kind = FsFile | FsDir | FsSpecial

text \<open>\<open>Path::metadata\<close>, \<open>read_to_string\<close>, and the entries \<open>WalkDir\<close> yields below a directory, in order.\<close>

record file_system =
  fs_metadata :: "path \<Rightarrow> io_error + fs_kind"
  fs_read :: "path \<Rightarrow> io_error + string"
  fs_walk :: "path \<Rightarrow> (string + path) list"

definition path_exists :: "file_system \<Rightarrow> path \<Rightarrow> bool" where
  "path_exists fs p \<longleftrightarrow> (case fs_metadata fs p of Inr _ \<Rightarrow> True | Inl _ \<Rightarrow> False)"

definition path_is_file :: "file_system \<Rightarrow> path \<Rightarrow> bool" where
  "path_is_file fs p \<longleftrightarrow> fs_metadata fs p = Inr FsFile"

definition path_is_dir :: "file_system \<Rightarrow> path \<Rightarrow> bool" where
  "path_is_dir fs p \<longleftrightarrow> fs_metadata fs p = Inr FsDir"

section \<open>Wikilinks\<close>

text \<open>The index maps a file name to the last entry of the walk that has it.\<close>

type_synonym wikilink_index = "string \<rightharpoonup> path"

definition index_entry :: "string + path \<Rightarrow> wikilink_index \<Rightarrow> wikilink_index" where
  "index_entry entry idx =
     (case entry of
        Inl _ \<Rightarrow> idx
      | Inr path \<Rightarrow> (case file_name path of Some filename \<Rightarrow> idx(filename \<mapsto> path) | None \<Rightarrow> idx))"

definition start_indexing :: "file_system \<Rightarrow> path \<Rightarrow> wikilink_index" where
  "start_indexing fs local_base = fold index_entry (fs_walk fs local_base) Map.empty"

definition contains_path :: "wikilink_index \<Rightarrow> path \<Rightarrow> path option" where
  "contains_path idx path = Option.bind (file_name path) idx"

record wikilink_resolver =
  wr_checker :: wikilink_index
  wr_fallback_extensions :: "string list"

definition resolver_new ::
  "base_env \<Rightarrow> file_system \<Rightarrow> base_info \<Rightarrow> string list \<Rightarrow> error_kind + wikilink_resolver" where
  "resolver_new be fs base fallback_extensions =
     (if base = BaseNone then Inl (WikilinkInvalidBase ''Base must be specified for wikilink checking'')
      else (case base_to_file_path be base of
          None \<Rightarrow> Inl (WikilinkInvalidBase ''Base cannot be remote'')
        | Some path \<Rightarrow> Inr \<lparr>wr_checker = start_indexing fs path,
            wr_fallback_extensions = fallback_extensions\<rparr>))"

fun resolve_candidates :: "wikilink_index \<Rightarrow> string list \<Rightarrow> path \<Rightarrow> path option eval" where
  "resolve_candidates idx [] path = Value None"
| "resolve_candidates idx (ext # exts) path =
     eval_bind (set_extension ext path) (\<lambda>candidate.
       case contains_path idx candidate of
         Some resolved \<Rightarrow> Value (Some resolved)
       | None \<Rightarrow> resolve_candidates idx exts path)"

definition wikilink_resolve :: "wikilink_resolver \<Rightarrow> path \<Rightarrow> uri \<Rightarrow> (error_kind + path) eval" where
  "wikilink_resolve wr path u =
     eval_bind (resolve_candidates (wr_checker wr) (wr_fallback_extensions wr) path) (\<lambda>r.
       Value (case r of Some resolved \<Rightarrow> Inr resolved | None \<Rightarrow> Inl (WikilinkNotFound u path)))"

section \<open>Resolving a path\<close>

record file_checker =
  fc_fallback_extensions :: "string list"
  fc_index_files :: "string list option"
  fc_options :: fragment_options
  fc_wikilink_resolver :: "wikilink_resolver option"

definition file_checker_new ::
  "base_env \<Rightarrow> file_system \<Rightarrow> base_info \<Rightarrow> string list \<Rightarrow> string list option \<Rightarrow> fragment_options \<Rightarrow> bool \<Rightarrow>
   error_kind + file_checker" where
  "file_checker_new be fs base fallback_extensions index_files options include_wikilinks =
     res_bind (if include_wikilinks
         then res_bind (resolver_new be fs base fallback_extensions) (\<lambda>r. Inr (Some r))
         else Inr None) (\<lambda>resolver.
       Inr \<lparr>fc_fallback_extensions = fallback_extensions, fc_index_files = index_files,
         fc_options = options, fc_wikilink_resolver = resolver\<rparr>)"

text \<open>The extensions are set one after the other on the same path.\<close>

fun try_extensions :: "file_system \<Rightarrow> string list \<Rightarrow> path \<Rightarrow> path option eval" where
  "try_extensions fs [] path = Value None"
| "try_extensions fs (ext # exts) path =
     eval_bind (set_extension ext path) (\<lambda>path.
       if path_is_file fs path then Value (Some path) else try_extensions fs exts path)"

definition apply_fallback_extensions ::
  "file_system \<Rightarrow> file_checker \<Rightarrow> path \<Rightarrow> uri \<Rightarrow> (error_kind + path) eval" where
  "apply_fallback_extensions fs fc path u =
     (if path_is_file fs path then Value (Inr path)
      else eval_bind (try_extensions fs (fc_fallback_extensions fc) path) (\<lambda>r.
        Value (case r of Some p \<Rightarrow> Inr p | None \<Rightarrow> Inl (InvalidFilePath u))))"

definition index_accepts :: "file_system \<Rightarrow> path \<Rightarrow> string \<Rightarrow> bool" where
  "index_accepts fs dir_path filename \<longleftrightarrow>
     (if filename = ''.'' then path_exists fs (path_join dir_path filename)
      else path_is_file fs (path_join dir_path filename))"

definition apply_index_files :: "file_system \<Rightarrow> file_checker \<Rightarrow> path \<Rightarrow> error_kind + path" where
  "apply_index_files fs fc dir_path =
     (let names = (case fc_index_files fc of Some names \<Rightarrow> names | None \<Rightarrow> [''.'']) in
      case List.find (index_accepts fs dir_path) names of
        Some filename \<Rightarrow> Inr (path_join dir_path filename)
      | None \<Rightarrow> Inl (InvalidIndexFile (filter (\<lambda>x. x \<noteq> []) names)))"

definition resolve_local_path ::
  "file_system \<Rightarrow> file_checker \<Rightarrow> path \<Rightarrow> uri \<Rightarrow> (error_kind + path) eval" where
  "resolve_local_path fs fc path u =
     eval_bind
       (case fs_metadata fs path of
          Inl e \<Rightarrow>
            if io_kind_of e = NotFound then
              eval_bind (apply_fallback_extensions fs fc path u) (\<lambda>r.
                case r of
                  Inr p \<Rightarrow> Value (Inr p)
                | Inl _ \<Rightarrow>
                    (case fc_wikilink_resolver fc of
                       Some resolver \<Rightarrow> wikilink_resolve resolver path u
                     | None \<Rightarrow> Value (Inl (InvalidFilePath u))))
            else Value (Inl (ReadFileInput e path))
        | Inr kind \<Rightarrow> if kind = FsDir then Value (apply_index_files fs fc path) else Value (Inr path))
       (\<lambda>r. case r of
          Inr p \<Rightarrow>
            if path_is_dir fs p then
              eval_bind (apply_fallback_extensions fs fc p u) (\<lambda>r.
                Value (case r of Inr q \<Rightarrow> Inr q | Inl _ \<Rightarrow> Inr p))
            else Value (Inr p)
        | Inl e \<Rightarrow> Value (Inl e))"

section \<open>Checking a file\<close>

definition fragment_input_from_path :: "fragment_env \<Rightarrow> file_system \<Rightarrow> path \<Rightarrow> error_kind + fragment_input" where
  "fragment_input_from_path fe fs path =
     (case fs_read fs path of
        Inl e \<Rightarrow> Inl (ReadFileInput e path)
      | Inr content \<Rightarrow>
          Inr \<lparr>fi_content = content, fi_file_type = file_type_of (fe_urls fe) (path_show path)\<rparr>)"

definition file_check_fragment ::
  "fragment_env \<Rightarrow> file_system \<Rightarrow> file_checker \<Rightarrow> path \<Rightarrow> uri \<Rightarrow> fragment_cache \<Rightarrow> status \<times> fragment_cache"
where
  "file_check_fragment fe fs fc path u cache =
     (if (case url_fragment u of None \<Rightarrow> True | Some f \<Rightarrow> f = []) then (StOk 200, cache)
      else if path_is_dir fs path then (status_of_error (InvalidFragment u), cache)
      else (case fragment_input_from_path fe fs path of
          Inl _ \<Rightarrow> (StOk 200, cache)
        | Inr input \<Rightarrow>
            (case fragment_check fe (fc_options fc) input u cache of
               (Inr True, cache) \<Rightarrow> (StOk 200, cache)
             | (Inr False, cache) \<Rightarrow> (status_of_error (InvalidFragment u), cache)
             | (Inl _, cache) \<Rightarrow> (StOk 200, cache))))"

definition check_file ::
  "fragment_env \<Rightarrow> file_system \<Rightarrow> file_checker \<Rightarrow> path \<Rightarrow> uri \<Rightarrow> fragment_cache \<Rightarrow> status \<times> fragment_cache"
where
  "check_file fe fs fc path u cache =
     (if check_anchor_fragments (fc_options fc) then file_check_fragment fe fs fc path u cache
      else (StOk 200, cache))"

definition file_check ::
  "base_env \<Rightarrow> fragment_env \<Rightarrow> file_system \<Rightarrow> file_checker \<Rightarrow> uri \<Rightarrow> fragment_cache \<Rightarrow>
   (status \<times> fragment_cache) eval" where
  "file_check be fe fs fc u cache =
     (case be_to_file_path be u of
        None \<Rightarrow> Value (status_of_error (InvalidFilePath u), cache)
      | Some path \<Rightarrow>
          eval_bind (resolve_local_path fs fc path u) (\<lambda>r. case r of
            Inr p \<Rightarrow> Value (check_file fe fs fc p u cache)
          | Inl e \<Rightarrow> Value (status_of_error e, cache)))"

section \<open>Extensions\<close>

text \<open>A path that ends in a file name with this stem, and extensions without dots.\<close>

definition named_path :: "path \<Rightarrow> string \<Rightarrow> bool" where
  "named_path path stem \<longleftrightarrow> file_stem path = Some stem \<and> stem \<noteq> []"

definition plain_extension :: "string \<Rightarrow> bool" where
  "plain_extension e \<longleftrightarrow> e \<noteq> [] \<and> CHR ''.'' \<notin> set e \<and> CHR ''/'' \<notin> set e"

definition with_extension :: "path \<Rightarrow> string \<Rightarrow> string \<Rightarrow> path" where
  "with_extension path stem e = butlast path @ [stem @ CHR ''.'' # e]"

lemma with_extension_twice [simp]:
  "with_extension (with_extension path stem e) stem' e' = with_extension path stem' e'"
  by (simp add: with_extension_def)

lemma extended_name:
  assumes "plain_extension e" "stem \<noteq> []"
  shows "stem @ CHR ''.'' # e \<notin> {''/'', ''.'', ''..''}"
proof -
  have "length (stem @ CHR ''.'' # e) \<ge> 3"
    using assms by (cases stem; cases e) (auto simp: plain_extension_def)
  moreover have "length f \<le> 2" if "f \<in> {''/'', ''.'', ''..''}" for f :: string using that by auto
  ultimately show ?thesis by fastforce
qed

lemma named_with_extension:
  assumes "plain_extension e" "stem \<noteq> []"
  shows "named_path (with_extension path stem e) stem"
    and "file_name (with_extension path stem e) = Some (stem @ CHR ''.'' # e)"
  using extended_name [OF assms] assms
  by (auto simp: named_path_def file_stem_def file_name_def with_extension_def
      split_file_at_dot_append plain_extension_def)

lemma set_plain_extension:
  "named_path path stem \<Longrightarrow> plain_extension e \<Longrightarrow> set_extension e path = Value (with_extension path stem e)"
  by (simp add: set_extension_def named_path_def plain_extension_def with_extension_def)

lemma try_plain_extensions:
  "named_path path stem \<Longrightarrow> \<forall>e \<in> set exts. plain_extension e \<Longrightarrow>
   try_extensions fs exts path =
     Value (map_option (with_extension path stem) (List.find (\<lambda>e. path_is_file fs (with_extension path stem e)) exts))"
proof (induction exts arbitrary: path)
  case (Cons e exts)
  have "named_path (with_extension path stem e) stem"
    using Cons.prems by (intro named_with_extension) (simp_all add: named_path_def)
  then show ?case using Cons.prems Cons.IH [of "with_extension path stem e"]
    by (simp add: set_plain_extension)
qed simp

lemma resolve_plain_candidates:
  "named_path path stem \<Longrightarrow> \<forall>e \<in> set exts. plain_extension e \<Longrightarrow>
   resolve_candidates idx exts path =
     Value (Option.bind (List.find (\<lambda>e. idx (stem @ CHR ''.'' # e) \<noteq> None) exts) (\<lambda>e. idx (stem @ CHR ''.'' # e)))"
  by (induction exts)
    (auto simp: set_plain_extension contains_path_def named_with_extension(2) named_path_def split: option.split)

lemma missing_is_no_file: "fs_metadata fs path = Inl e \<Longrightarrow> \<not> path_is_file fs path \<and> \<not> path_is_dir fs path"
  by (simp add: path_is_file_def path_is_dir_def)

lemma file_is_no_dir: "path_is_file fs path \<Longrightarrow> \<not> path_is_dir fs path"
  by (simp add: path_is_file_def path_is_dir_def)

lemma find_holds: "List.find P xs = Some x \<Longrightarrow> P x"
  by (auto simp: find_Some_iff)

text \<open>A link to a missing file is answered by the first of the fallback extensions under which there is a
  file of the same stem: an extension the link already has is replaced, not extended.  If there is none
  and wikilinks are resolved, the index is asked for the stem with each of the extensions, never for the
  name as it is written.  The extensions are set on one path after the other, so behind an extension with
  a dot inside, the next one only replaces its last part; and one with a slash is a panic.\<close>

theorem fallback_extension_found:
  assumes "fs_metadata fs path = Inl e" "io_kind_of e = NotFound" "named_path path stem"
    and "\<forall>e \<in> set (fc_fallback_extensions fc). plain_extension e"
    and "\<And>wr name p. fc_wikilink_resolver fc = Some wr \<Longrightarrow> wr_checker wr name = Some p \<Longrightarrow> \<not> path_is_dir fs p"
    and "\<And>wr. fc_wikilink_resolver fc = Some wr \<Longrightarrow> wr_fallback_extensions wr = fc_fallback_extensions fc"
  shows "resolve_local_path fs fc path u =
      Value (case List.find (\<lambda>e. path_is_file fs (with_extension path stem e)) (fc_fallback_extensions fc) of
          Some e \<Rightarrow> Inr (with_extension path stem e)
        | None \<Rightarrow>
            (case fc_wikilink_resolver fc of
               None \<Rightarrow> Inl (InvalidFilePath u)
             | Some wr \<Rightarrow>
                 (case List.find (\<lambda>e. wr_checker wr (stem @ CHR ''.'' # e) \<noteq> None) (fc_fallback_extensions fc) of
                    Some e \<Rightarrow> Inr (the (wr_checker wr (stem @ CHR ''.'' # e)))
                  | None \<Rightarrow> Inl (WikilinkNotFound u path)))) \<and>
    eval_bind (set_extension ''tar.gz'' path) (set_extension ''html'') =
      Value (with_extension path stem ''tar.html'') \<and>
    try_extensions fs (''a/b'' # exts) path = Panic"
proof (intro conjI)
  have fallback: "apply_fallback_extensions fs fc path u =
      Value (case List.find (\<lambda>e. path_is_file fs (with_extension path stem e)) (fc_fallback_extensions fc) of
          Some e \<Rightarrow> Inr (with_extension path stem e) | None \<Rightarrow> Inl (InvalidFilePath u))"
    using assms(3,4) by (simp add: apply_fallback_extensions_def missing_is_no_file [OF assms(1)]
        try_plain_extensions split: option.split)
  show "resolve_local_path fs fc path u =
      Value (case List.find (\<lambda>e. path_is_file fs (with_extension path stem e)) (fc_fallback_extensions fc) of
          Some e \<Rightarrow> Inr (with_extension path stem e)
        | None \<Rightarrow>
            (case fc_wikilink_resolver fc of
               None \<Rightarrow> Inl (InvalidFilePath u)
             | Some wr \<Rightarrow>
                 (case List.find (\<lambda>e. wr_checker wr (stem @ CHR ''.'' # e) \<noteq> None) (fc_fallback_extensions fc) of
                    Some e \<Rightarrow> Inr (the (wr_checker wr (stem @ CHR ''.'' # e)))
                  | None \<Rightarrow> Inl (WikilinkNotFound u path))))"
    using assms by (auto simp: resolve_local_path_def fallback wikilink_resolve_def resolve_plain_candidates
        dest!: find_holds dest: file_is_no_dir split: option.split)
  have "file_stem (butlast path @ [stem @ ''.tar.gz'']) = Some (stem @ ''.tar'')"
    using assms(3) split_file_at_dot_append [of "stem @ ''.tar''" "''gz''"]
    by (auto simp: file_stem_def file_name_def)
  moreover have "set_extension ''tar.gz'' path = Value (butlast path @ [stem @ ''.tar.gz''])"
    using assms(3) by (simp add: set_extension_def named_path_def)
  ultimately show "eval_bind (set_extension ''tar.gz'' path) (set_extension ''html'') =
      Value (with_extension path stem ''tar.html'')"
    by (simp add: set_extension_def with_extension_def)
  show "try_extensions fs (''a/b'' # exts) path = Panic" by (simp add: set_extension_def)
qed

text \<open>C23: A link to a directory stands for the first name of the index list that is a file in it; where the
  list is switched off, or where it is the dot that is reached first, for the file with a fallback
  extension beside the directory if there is one, and otherwise for the directory itself.  If no name
  fits, the error lists the names that are not empty, and an empty name never fits.\<close>

theorem directory_by_index_file:
  assumes "fs_metadata fs path = Inr FsDir" "named_path path stem"
    and "\<forall>e \<in> set (fc_fallback_extensions fc). plain_extension e"
    and "names = (case fc_index_files fc of Some names \<Rightarrow> names | None \<Rightarrow> [''.''])"
  shows "resolve_local_path fs fc path u =
      Value (case List.find (index_accepts fs path) names of
          None \<Rightarrow> Inl (InvalidIndexFile (filter (\<lambda>x. x \<noteq> []) names))
        | Some name \<Rightarrow>
            if name = ''.'' then
              (case List.find (\<lambda>e. path_is_file fs (with_extension path stem e)) (fc_fallback_extensions fc) of
                 Some e \<Rightarrow> Inr (with_extension path stem e)
               | None \<Rightarrow> Inr path)
            else Inr (path_join path name)) \<and>
    index_accepts fs path ''.'' \<and> \<not> index_accepts fs path [] \<and>
    (List.find (index_accepts fs path) names = Some name \<and> name \<noteq> ''.'' \<longrightarrow> path_is_file fs (path_join path name))"
proof -
  have "path \<noteq> []" using assms(2) by (auto simp: named_path_def file_stem_def file_name_def)
  then have dot: "path_join path ''.'' = path" "path_join path [] = path"
    by (simp_all add: path_join_dot path_join_def path_components_def path_rooted_def)
  have dir: "path_is_dir fs path" "path_exists fs path" "\<not> path_is_file fs path"
    using assms(1) by (simp_all add: path_is_dir_def path_exists_def path_is_file_def)
  have fallback: "apply_fallback_extensions fs fc path u =
      Value (case List.find (\<lambda>e. path_is_file fs (with_extension path stem e)) (fc_fallback_extensions fc) of
          Some e \<Rightarrow> Inr (with_extension path stem e) | None \<Rightarrow> Inl (InvalidFilePath u))"
    using assms(2,3) by (simp add: apply_fallback_extensions_def dir try_plain_extensions split: option.split)
  have accepts: "path_is_file fs (path_join path name)" if "index_accepts fs path name" "name \<noteq> ''.''" for name
    using that by (simp add: index_accepts_def)
  show ?thesis
    using assms(1) accepts
    by (auto simp: resolve_local_path_def apply_index_files_def assms(4) [symmetric] fallback dot dir index_accepts_def
        dest!: find_holds dest: file_is_no_dir split: option.split)
qed

section \<open>The outcome of a check\<close>

lemma resolved_exists:
  assumes "resolve_local_path fs fc path u = Value (Inr p)"
  shows "path_exists fs p \<or> (\<exists>wr name. fc_wikilink_resolver fc = Some wr \<and> wr_checker wr name = Some p)"
proof -
  have reg: "path_is_file fs q \<Longrightarrow> path_exists fs q" for q by (simp add: path_is_file_def path_exists_def)
  have tried: "path_is_file fs q" if "try_extensions fs exts r = Value (Some q)" for exts r q
    using that by (induction exts arbitrary: r) (auto simp: eval_bind_def split: eval.splits if_splits)
  have fallback: "path_exists fs q" if "apply_fallback_extensions fs fc r u = Value (Inr q)" for r q
    using that tried reg
    by (auto simp: apply_fallback_extensions_def eval_bind_def split: if_splits eval.splits option.splits)
  have index: "path_exists fs q" if "apply_index_files fs fc r = Inr q" for r q
    using that reg by (auto simp: apply_index_files_def index_accepts_def Let_def
        dest!: find_holds split: option.splits if_splits)
  have wiki: "\<exists>name. idx name = Some q" if "resolve_candidates idx exts r = Value (Some q)" for idx exts r q
    using that by (induction exts) (auto simp: eval_bind_def contains_path_def bind_eq_Some_conv
        split: eval.splits option.splits)
  have resolved: "\<exists>name. wr_checker wr name = Some q" if "wikilink_resolve wr path u = Value (Inr q)" for wr q
    using that wiki by (auto simp: wikilink_resolve_def eval_bind_def split: eval.splits option.splits)
  let ?ok = "\<lambda>p. path_exists fs p \<or> (\<exists>wr name. fc_wikilink_resolver fc = Some wr \<and> wr_checker wr name = Some p)"
  define first where "first = (case fs_metadata fs path of
      Inl e \<Rightarrow>
        if io_kind_of e = NotFound then
          eval_bind (apply_fallback_extensions fs fc path u) (\<lambda>r.
            case r of
              Inr p \<Rightarrow> Value (Inr p)
            | Inl _ \<Rightarrow>
                (case fc_wikilink_resolver fc of
                   Some resolver \<Rightarrow> wikilink_resolve resolver path u
                 | None \<Rightarrow> Value (Inl (InvalidFilePath u))))
        else Value (Inl (ReadFileInput e path))
    | Inr kind \<Rightarrow> if kind = FsDir then Value (apply_index_files fs fc path) else Value (Inr path))"
  have "?ok q" if "first = Value (Inr q)" for q
  proof (cases "fs_metadata fs path")
    case (Inr kind)
    then have "path_exists fs path" by (simp add: path_exists_def)
    with that Inr index show ?thesis by (auto simp: first_def split: if_splits)
  next
    case (Inl e)
    with that fallback resolved show ?thesis
      by (auto simp: first_def eval_bind_def split: if_splits eval.splits sum.splits option.splits)
  qed
  moreover obtain q where "first = Value (Inr q)"
    and "p = q \<or> apply_fallback_extensions fs fc q u = Value (Inr p)"
    using assms unfolding resolve_local_path_def first_def [symmetric]
    by (cases first) (auto simp: eval_bind_def split: eval.splits sum.splits if_splits)
  ultimately show ?thesis using fallback by blast
qed

lemma resolve_error_not_success:
  "\<not> is_success (status_of_error e)"
  by (cases e) (simp_all add: status_of_error_def status_of_reqwest_def)

text \<open>C22: A link to a local file that resolves to nothing fails with the error of the resolution.  Otherwise
  the path found exists (or is an entry of the wikilink index), and the link is fine unless anchors are
  checked, it has a fragment, and that is missing from the file or its target is a directory; a file that
  cannot be read passes.  So the mode \<open>text-only\<close> of \<open>--include-fragments\<close> checks nothing for local files: a link
  whose text directive matches nothing is fine, although the mode is documented to check text fragments
  and the options to control which kinds of fragments are checked for local files.\<close>

theorem file_check_outcome:
  assumes "be_to_file_path be u = Some path" and "resolve_local_path fs fc path u = Value r"
  shows "\<exists>cache'. file_check be fe fs fc u cache = Value
      (case r of
         Inl e \<Rightarrow> status_of_error e
       | Inr p \<Rightarrow>
           if check_anchor_fragments (fc_options fc) \<and> url_fragment u \<notin> {None, Some []} \<and>
              (path_is_dir fs p \<or> (\<exists>input. fragment_input_from_path fe fs p = Inr input \<and>
                 fst (fragment_check fe (fc_options fc) input u cache) = Inr False))
           then StError (InvalidFragment u) else StOk 200, cache') \<and>
    (case r of
       Inl e \<Rightarrow> \<not> is_success (status_of_error e)
     | Inr p \<Rightarrow> path_exists fs p \<or> (\<exists>wr name. fc_wikilink_resolver fc = Some wr \<and> wr_checker wr name = Some p)) \<and>
    (fc_options fc = \<lparr>check_anchor_fragments = False, check_text_fragments = True\<rparr> \<longrightarrow>
      (\<forall>p. r = Inr p \<longrightarrow> file_check be fe fs fc u cache = Value (StOk 200, cache)))"
proof (cases r)
  case (Inl e)
  with assms show ?thesis by (simp add: file_check_def resolve_error_not_success)
next
  case (Inr p)
  have "path_exists fs p \<or> (\<exists>wr name. fc_wikilink_resolver fc = Some wr \<and> wr_checker wr name = Some p)"
    using resolved_exists assms(2) Inr by blast
  moreover have "\<exists>cache'. check_file fe fs fc p u cache =
      (if check_anchor_fragments (fc_options fc) \<and> url_fragment u \<notin> {None, Some []} \<and>
          (path_is_dir fs p \<or> (\<exists>input. fragment_input_from_path fe fs p = Inr input \<and>
             fst (fragment_check fe (fc_options fc) input u cache) = Inr False))
       then StError (InvalidFragment u) else StOk 200, cache')"
    by (auto simp: check_file_def file_check_fragment_def status_of_error_def
        split: option.split sum.split bool.split prod.split)
  moreover have "fc_options fc = \<lparr>check_anchor_fragments = False, check_text_fragments = True\<rparr> \<longrightarrow>
      file_check be fe fs fc u cache = Value (StOk 200, cache)"
    using assms Inr by (simp add: file_check_def check_file_def)
  ultimately show ?thesis using assms Inr by (auto simp: file_check_def)
qed

section \<open>Instances\<close>

text \<open>A directory with one page, beside a file of its name.\<close>

definition sample_fs :: file_system where
  "sample_fs = \<lparr>fs_metadata = (\<lambda>p.
       if p = [''/'', ''d''] then Inr FsDir
       else if p = [''/'', ''d'', ''i.html''] \<or> p = [''/'', ''d.html''] then Inr FsFile
       else Inl \<lparr>io_kind_of = NotFound, io_text = [], io_inner = None\<rparr>),
     fs_read = (\<lambda>_. Inr []), fs_walk = (\<lambda>_. [])\<rparr>"

definition sample_file_checker :: "string list option \<Rightarrow> file_checker" where
  "sample_file_checker index_files = \<lparr>fc_fallback_extensions = [''md'', ''html''], fc_index_files = index_files,
     fc_options = \<lparr>check_anchor_fragments = True, check_text_fragments = False\<rparr>, fc_wikilink_resolver = None\<rparr>"

lemma sample_stems: "named_path [''/'', ''d''] ''d''" "named_path [''/'', ''d'', ''i.txt''] ''i''"
  by (simp_all add: named_path_def file_stem_def file_name_def split_file_at_dot_def)

lemma sample_plain: "\<forall>e \<in> set (fc_fallback_extensions (sample_file_checker names)). plain_extension e"
  by (simp add: sample_file_checker_def plain_extension_def)

theorem fallback_extension_found_witness:
  "resolve_local_path sample_fs (sample_file_checker None) [''/'', ''d'', ''i.txt''] (domain_url ''file'' [] ''/d/i.txt'') =
     Value (Inr [''/'', ''d'', ''i.html''])"
  using fallback_extension_found [of sample_fs "[''/'', ''d'', ''i.txt'']" "\<lparr>io_kind_of = NotFound, io_text = [], io_inner = None\<rparr>"
      "''i''" "sample_file_checker None" "domain_url ''file'' [] ''/d/i.txt''", OF _ _ sample_stems(2) sample_plain]
  by (simp add: sample_fs_def sample_file_checker_def path_is_file_def with_extension_def)

theorem directory_by_index_file_witness:
  "\<forall>u. resolve_local_path sample_fs (sample_file_checker (Some [''x.html'', ''i.html''])) [''/'', ''d''] u =
     Value (Inr [''/'', ''d'', ''i.html'']) \<and>
   resolve_local_path sample_fs (sample_file_checker None) [''/'', ''d''] u = Value (Inr [''/'', ''d.html''])"
proof
  fix u
  have join: "path_join [''/'', ''d''] ''x.html'' = [''/'', ''d'', ''x.html'']"
    "path_join [''/'', ''d''] ''i.html'' = [''/'', ''d'', ''i.html'']" "path_join [''/'', ''d''] ''.'' = [''/'', ''d'']"
    by (simp_all add: path_join_name path_join_dot name_component_def)
  have dir: "fs_metadata sample_fs [''/'', ''d''] = Inr FsDir" by (simp add: sample_fs_def)
  show "resolve_local_path sample_fs (sample_file_checker (Some [''x.html'', ''i.html''])) [''/'', ''d''] u =
      Value (Inr [''/'', ''d'', ''i.html'']) \<and>
    resolve_local_path sample_fs (sample_file_checker None) [''/'', ''d''] u = Value (Inr [''/'', ''d.html''])"
    using directory_by_index_file [OF dir sample_stems(1) sample_plain refl, of "Some [''x.html'', ''i.html'']" u]
      directory_by_index_file [OF dir sample_stems(1) sample_plain refl, of None u]
    by (simp add: sample_file_checker_def index_accepts_def join path_is_file_def path_exists_def
        with_extension_def) (simp add: sample_fs_def)
qed

theorem file_check_outcome_witness:
  "let u = (domain_url ''file'' [] ''/d'')\<lparr>url_fragment := Some ''x''\<rparr>;
     fc = (sample_file_checker None)\<lparr>fc_fallback_extensions := []\<rparr>
   in \<exists>cache. file_check plain_base_env plain_fragment_env sample_fs fc u Map.empty =
     Value (StError (InvalidFragment u), cache)"
proof -
  let ?u = "(domain_url ''file'' [] ''/d'')\<lparr>url_fragment := Some ''x''\<rparr>"
  let ?fc = "(sample_file_checker None)\<lparr>fc_fallback_extensions := []\<rparr>"
  have path: "be_to_file_path plain_base_env ?u = Some [''/'', ''d'']"
    by (simp add: plain_base_env_def path_components_def)
  have dir: "fs_metadata sample_fs [''/'', ''d''] = Inr FsDir" by (simp add: sample_fs_def)
  have "resolve_local_path sample_fs ?fc [''/'', ''d''] ?u = Value (Inr [''/'', ''d''])"
    by (simp add: resolve_local_path_def dir apply_index_files_def index_accepts_def path_exists_def path_join_dot
        path_is_dir_def apply_fallback_extensions_def path_is_file_def sample_file_checker_def)
  from file_check_outcome [OF path this, of plain_fragment_env Map.empty]
  show ?thesis by (simp add: sample_file_checker_def path_is_dir_def dir)
qed

end
