(* ===== verification/Requests.thy ===== *)
theory Requests
  imports BaseInfo Response BasicAuth
begin

text \<open>
  From the links of an input to the requests that check them: \<open>lychee-lib/src/utils/request.rs\<close>, with the
  base of an input source (\<open>lychee-lib/src/types/input/source.rs\<close>).
\<close>

section \<open>Creating requests\<close>

definition to_base_info :: "base_env \<Rightarrow> resolved_source \<Rightarrow> error_kind + base_info" where
  "to_base_info be source =
     (case source of
        ResolvedUrl u \<Rightarrow> Inr (from_source_url be u)
      | ResolvedPath path \<Rightarrow>
          (case Option.bind (be_absolute be path) (be_from_file_path be) of
             Some u \<Rightarrow> Inr (from_source_url be u)
           | None \<Rightarrow> Inl (InvalidUrlFromPath path))
      | _ \<Rightarrow> Inr BaseNone)"

definition extract_credentials :: "regex_crate \<Rightarrow> auth_extractor option \<Rightarrow> uri \<Rightarrow> credentials option" where
  "extract_credentials rx extractor u = Option.bind extractor (\<lambda>ext. auth_matches rx ext u)"

definition try_parse_into_uri :: "base_env \<Rightarrow> raw_uri \<Rightarrow> path option \<Rightarrow> base_info \<Rightarrow> error_kind + uri" where
  "try_parse_into_uri be raw root_dir base =
     (let root_dir = Option.bind root_dir (be_from_directory_path be) in
      res_bind (parse_url_text_with_root_dir be base (raw_text raw) root_dir) (\<lambda>u.
        Inr (if url_scheme u = ''file'' then be_pop_if_empty be u else u)))"

definition create_request ::
  "base_env \<Rightarrow> regex_crate \<Rightarrow> raw_uri \<Rightarrow> resolved_source \<Rightarrow> path option \<Rightarrow> base_info \<Rightarrow>
   auth_extractor option \<Rightarrow> error_kind + request" where
  "create_request be rx raw source root_dir base extractor =
     res_bind (try_parse_into_uri be raw root_dir base) (\<lambda>u.
       Inr \<lparr>rq_uri = u, rq_source = source, rq_element = raw_element raw,
         rq_attribute = raw_attribute raw, rq_span = Some (raw_span raw),
         rq_credentials = extract_credentials rx extractor u\<rparr>)"

definition create_requests ::
  "base_env \<Rightarrow> regex_crate \<Rightarrow> raw_uri list \<Rightarrow> resolved_source \<Rightarrow> path option \<Rightarrow> base_info \<Rightarrow>
   auth_extractor option \<Rightarrow> (request_error + request) list eval" where
  "create_requests be rx uris source root_dir fallback_base extractor =
     (case to_base_info be source of
        Inl e \<Rightarrow> Value [Inl (InputSourceError (input_source_of source) e)]
      | Inr source_base \<Rightarrow>
          eval_bind (use_fs_root_as_origin be fallback_base) (\<lambda>fallback_base.
            let base = or_fallback source_base fallback_base in
            Value (map (\<lambda>raw. map_err (CreateRequestItem raw source)
              (create_request be rx raw source root_dir base extractor)) uris)))"

section \<open>What becomes of a link\<close>

lemma use_fs_root_cases:
  "use_fs_root_as_origin be base = Value base' \<Longrightarrow>
     base = BaseNone \<and> base' = BaseNone \<or> base \<noteq> BaseNone \<and> supports_root_relative base'"
  by (cases base) (auto simp: supports_root_relative_def split: option.splits)

lemma or_fallback_full:
  "base' = BaseNone \<or> supports_root_relative base' \<Longrightarrow>
   or_fallback base base' = (if supports_root_relative base \<or> base' = BaseNone then base else base')"
  by (cases base; cases base') (auto simp: supports_root_relative_def)

text \<open>Whether an entry of the result is what has to become of a link.\<close>

definition handled :: "base_env \<Rightarrow> regex_crate \<Rightarrow> resolved_source \<Rightarrow> path option \<Rightarrow> base_info \<Rightarrow>
    auth_extractor option \<Rightarrow> uri \<Rightarrow> raw_uri \<Rightarrow> request_error + request \<Rightarrow> bool" where
  "handled be rx source root_dir base extractor error_uri raw entry \<longleftrightarrow>
     (case (try_parse_into_uri be raw root_dir base, entry) of
        (Inr u, Inr r) \<Rightarrow> rq_uri r = u \<and> rq_source r = source \<and> rq_span r = Some (raw_span raw) \<and>
          rq_credentials r = extract_credentials rx extractor u
      | (Inl e, Inl err) \<Rightarrow> request_error_kind err = e \<and>
          (\<exists>resp. into_response error_uri err = Inr resp \<and> is_error (r_status resp) \<and>
             r_source resp = input_source_of source \<and> rb_span (r_body resp) = Some (raw_span raw))
      | _ \<Rightarrow> False)"

lemma create_request_handled:
  "handled be rx source root_dir base extractor error_uri raw
     (map_err (CreateRequestItem raw source) (create_request be rx raw source root_dir base extractor))"
  by (cases "try_parse_into_uri be raw root_dir base")
    (auto simp: handled_def create_request_def response_new_def)

lemma create_requests_handled:
  assumes "to_base_info be source = Inr source_base" and "use_fs_root_as_origin be fallback_base = Value fallback"
  shows "\<exists>entries. create_requests be rx uris source root_dir fallback_base extractor = Value entries \<and>
    list_all2 (handled be rx source root_dir (or_fallback source_base fallback) extractor error_uri) uris entries"
  by (simp add: create_requests_def assms list_all2_map2 list_all2_refl create_request_handled)

text \<open>A root directory changes nothing where the base is remote.\<close>

lemma remote_base_ignores_root_dir:
  "base_scheme base \<notin> {None, Some ''file''} \<Longrightarrow>
     parse_url_text_with_root_dir be base s dir = parse_url_text_with_root_dir be base s None"
  by (auto simp: parse_url_text_with_root_dir_def split: option.split sum.split parsed_uri.split relative_uri.split)

text \<open>What \<open>try\_parse\_into\_uri\<close> does to a URL that it has.\<close>

definition without_trailing_slash :: "base_env \<Rightarrow> error_kind + url \<Rightarrow> error_kind + uri" where
  "without_trailing_slash be result =
     res_bind result (\<lambda>u. Inr (if url_scheme u = ''file'' then be_pop_if_empty be u else u))"

text \<open>C13: Every link of an input becomes, at its place in the list, either one request with the source, the
  position and the credentials of the link, or one failed response that is reported for the input at the
  position of the link; no link is dropped.  Links that are not absolute are resolved by one base: the input's
  own where that is a remote one, otherwise the fallback base if there is one, also for a local file.
  Root-relative links are an exception: where this base is local or there is none, a root directory that is given
  decides them, whatever the base.  Where the base is remote, the root directory changes nothing: links do
  not go to a path below it on the remote host, as the documentation of \<open>--root-dir\<close> has it.\<close>

theorem every_link_requested_or_reported:
  assumes "to_base_info be source = Inr source_base"
    and "use_fs_root_as_origin be fallback_base = Value fallback"
    and "base = (if supports_root_relative source_base \<or> fallback_base = BaseNone then source_base else fallback)"
  shows "\<exists>entries. create_requests be rx uris source root_dir fallback_base extractor = Value entries \<and>
    list_all2 (handled be rx source root_dir base extractor error_uri) uris entries \<and>
    (\<forall>raw \<in> set uris.
      (\<forall>u. parsed_parse be (raw_text raw) = Inr (AbsoluteUri u) \<longrightarrow>
        try_parse_into_uri be raw root_dir base = without_trailing_slash be (Inr u)) \<and>
      (\<forall>rel. parsed_parse be (raw_text raw) = Inr (RelativeUri rel) \<longrightarrow>
        try_parse_into_uri be raw root_dir base = without_trailing_slash be
          (case Option.bind root_dir (be_from_directory_path be) of
             Some dir \<Rightarrow>
               if (\<exists>t. rel = RelRoot t) \<and> base_scheme base \<in> {None, Some ''file''}
               then resolve_relative_link be (Full dir []) rel else resolve_relative_link be base rel
           | None \<Rightarrow> resolve_relative_link be base rel))) \<and>
    (base_scheme base \<notin> {None, Some ''file''} \<longrightarrow>
      create_requests be rx uris source root_dir fallback_base extractor =
      create_requests be rx uris source None fallback_base extractor)"
proof -
  have base: "or_fallback source_base fallback = base"
    using use_fs_root_cases [OF assms(2)] or_fallback_full [of fallback source_base]
    by (auto simp: assms(3) supports_root_relative_def)
  have parts: "try_parse_into_uri be raw root_dir base = without_trailing_slash be
      (parse_url_text_with_root_dir be base (raw_text raw) (Option.bind root_dir (be_from_directory_path be)))" for raw root_dir
    by (simp add: try_parse_into_uri_def without_trailing_slash_def)
  have "parse_url_text_with_root_dir be base s d = (case d of
        Some dir \<Rightarrow> if (\<exists>t. rel = RelRoot t) \<and> base_scheme base \<in> {None, Some ''file''}
          then resolve_relative_link be (Full dir []) rel else resolve_relative_link be base rel
      | None \<Rightarrow> resolve_relative_link be base rel)" if "parsed_parse be s = Inr (RelativeUri rel)" for s rel d
    using that by (auto simp: parse_url_text_with_root_dir_def split: option.split relative_uri.split)
  moreover have "parse_url_text_with_root_dir be base s d = Inr u" if "parsed_parse be s = Inr (AbsoluteUri u)" for s u d
    using that by (simp add: parse_url_text_with_root_dir_def)
  moreover have "try_parse_into_uri be raw root_dir base = try_parse_into_uri be raw None base"
    if "base_scheme base \<notin> {None, Some ''file''}" for raw
    unfolding parts by (intro arg_cong [where f = "without_trailing_slash be"]) (metis remote_base_ignores_root_dir that)
  then have "create_requests be rx uris source root_dir fallback_base extractor =
      create_requests be rx uris source None fallback_base extractor" if "base_scheme base \<notin> {None, Some ''file''}"
    using that by (simp add: create_requests_def assms(1,2) base Let_def create_request_def)
  ultimately show ?thesis
    using create_requests_handled [OF assms(1,2), of rx uris root_dir extractor error_uri] by (simp add: base parts)
qed

theorem every_link_requested_or_reported_witness:
  "\<forall>rx sp. \<exists>r. create_requests plain_base_env rx [\<lparr>raw_text = ''x.html'', raw_element = None, raw_attribute = None, raw_span = sp\<rparr>]
      (ResolvedPath [''/'', ''d'', ''i.md'']) None (Full (domain_url ''http'' ''a.org'' ''/'') []) None = Value [Inr r] \<and>
    rq_uri r = domain_url ''http'' ''a.org'' ''/x.html'' \<and> rq_span r = Some sp"
proof (intro allI)
  fix rx sp
  let ?raw = "\<lparr>raw_text = ''x.html'', raw_element = None, raw_attribute = None, raw_span = sp\<rparr>"
  let ?source = "ResolvedPath [''/'', ''d'', ''i.md'']"
  let ?base = "Full (domain_url ''http'' ''a.org'' ''/'') []"
  let ?local = "NoRoot (domain_url ''file'' [] ''/d/i.md'')"
  have "to_base_info plain_base_env ?source = Inr ?local"
    by (simp add: to_base_info_def plain_base_env_def from_source_url_def path_rooted_def path_show_def)
  from every_link_requested_or_reported [OF this, of ?base ?base ?base rx "[?raw]" None None]
  obtain entry where "create_requests plain_base_env rx [?raw] ?source None ?base None = Value [entry]"
    and "handled plain_base_env rx ?source None ?base None (domain_url ''error'' [] []) ?raw entry"
    by (fastforce simp: supports_root_relative_def list_all2_Cons1)
  moreover have "try_parse_into_uri plain_base_env ?raw None ?base = Inr (domain_url ''http'' ''a.org'' ''/x.html'')"
    by (simp add: try_parse_into_uri_def parse_url_text_with_root_dir_def parsed_parse_def relative_parse_def
        trim_ascii_start_def trim_start_by_def is_ascii_whitespace_def uri_try_from_def plain_base_env_def
        plain_urls_def plain_parse_def plain_join_def resolve_relative_link_def)
  ultimately show "\<exists>r. create_requests plain_base_env rx [?raw] ?source None ?base None = Value [Inr r] \<and>
      rq_uri r = domain_url ''http'' ''a.org'' ''/x.html'' \<and> rq_span r = Some sp"
    by (cases entry) (auto simp: handled_def)
qed

end
