(* ===== verification/ResponseStats.thy ===== *)
theory ResponseStats
  imports Response
begin

text \<open>
  The statistics of a run and its exit code: \<open>lychee-bin/src/formatters/stats/response.rs\<close> and
  the end of \<open>lychee-bin/src/commands/check.rs\<close>.

  Counters are natural numbers: a \<open>usize\<close> counter of responses held in memory cannot wrap.  A
  \<open>HashMap\<close> is a map, a \<open>HashSet\<close> the list of its elements; inserting keeps the element that
  is already there.
\<close>

section \<open>The statistics\<close>

definition set_insert :: "('a \<Rightarrow> 'a \<Rightarrow> bool) \<Rightarrow> 'a \<Rightarrow> 'a list \<Rightarrow> 'a list" where
  "set_insert eq x xs = (if \<exists>y \<in> set xs. eq x y then xs else xs @ [x])"

text \<open>\<open>entry(k).or_default().insert(x)\<close>\<close>

definition map_insert ::
  "('a \<Rightarrow> 'a \<Rightarrow> bool) \<Rightarrow> 'k \<Rightarrow> 'a \<Rightarrow> ('k \<rightharpoonup> 'a list) \<Rightarrow> ('k \<rightharpoonup> 'a list)" where
  "map_insert eq k x m = m(k \<mapsto> set_insert eq x (case m k of Some xs \<Rightarrow> xs | None \<Rightarrow> []))"

lemma dom_map_insert [simp]: "dom (map_insert eq k x m) = insert k (dom m)"
  by (simp add: map_insert_def)

record suggestion =
  sg_original :: url
  sg_suggestion :: url

record response_stats =
  s_total :: nat
  s_unique :: nat
  s_successful :: nat
  s_unknown :: nat
  s_unsupported :: nat
  s_timeouts :: nat
  s_redirects :: nat
  s_remaps :: nat
  s_excludes :: nat
  s_errors :: nat
  s_cached :: nat
  s_success_map :: "input_source \<rightharpoonup> response_body list"
  s_error_map :: "input_source \<rightharpoonup> response_body list"
  s_timeout_map :: "input_source \<rightharpoonup> response_body list"
  s_suggestion_map :: "input_source \<rightharpoonup> suggestion list"
  s_redirect_map :: "input_source \<rightharpoonup> redirects list"
  s_excluded_map :: "input_source \<rightharpoonup> response_body list"
  s_duration :: nat
  s_detailed_stats :: bool
  s_seen_uris :: "uri set"

definition stats_default :: response_stats where
  "stats_default = \<lparr>s_total = 0, s_unique = 0, s_successful = 0, s_unknown = 0,
     s_unsupported = 0, s_timeouts = 0, s_redirects = 0, s_remaps = 0, s_excludes = 0,
     s_errors = 0, s_cached = 0, s_success_map = Map.empty, s_error_map = Map.empty,
     s_timeout_map = Map.empty, s_suggestion_map = Map.empty, s_redirect_map = Map.empty,
     s_excluded_map = Map.empty, s_duration = 0, s_detailed_stats = False, s_seen_uris = {}\<rparr>"

definition stats_extended :: response_stats where
  "stats_extended = stats_default\<lparr>s_detailed_stats := True, s_seen_uris := {}\<rparr>"

fun increment_status_counters :: "status \<Rightarrow> response_stats \<Rightarrow> response_stats" where
  "increment_status_counters (StOk _) s = s\<lparr>s_successful := s_successful s + 1\<rparr>"
| "increment_status_counters (StError _) s = s\<lparr>s_errors := s_errors s + 1\<rparr>"
| "increment_status_counters (StRequestError _) s = s\<lparr>s_errors := s_errors s + 1\<rparr>"
| "increment_status_counters (StUnknownStatusCode _) s = s\<lparr>s_unknown := s_unknown s + 1\<rparr>"
| "increment_status_counters (StUnknownMailStatus _) s = s\<lparr>s_unknown := s_unknown s + 1\<rparr>"
| "increment_status_counters (StTimeout _) s = s\<lparr>s_timeouts := s_timeouts s + 1\<rparr>"
| "increment_status_counters StExcluded s = s\<lparr>s_excludes := s_excludes s + 1\<rparr>"
| "increment_status_counters (StUnsupported _) s = s\<lparr>s_unsupported := s_unsupported s + 1\<rparr>"
| "increment_status_counters (StCached c) s =
     (let s = s\<lparr>s_cached := s_cached s + 1\<rparr> in
      case c of
        CacheOk _ \<Rightarrow> s\<lparr>s_successful := s_successful s + 1\<rparr>
      | CacheError _ \<Rightarrow> s\<lparr>s_errors := s_errors s + 1\<rparr>
      | CacheExcluded \<Rightarrow> s\<lparr>s_excludes := s_excludes s + 1\<rparr>
      | CacheUnsupported \<Rightarrow> s\<lparr>s_unsupported := s_unsupported s + 1\<rparr>)"

definition add_response_status :: "response \<Rightarrow> response_stats \<Rightarrow> response_stats" where
  "add_response_status response s =
     (let status = r_status response;
          source = r_source response;
          body = r_body response;
          s = (case rb_redirects body of
                 Some redirects \<Rightarrow>
                   if s_detailed_stats s
                   then s\<lparr>s_redirect_map := map_insert (=) source redirects (s_redirect_map s)\<rparr>
                   else s
               | None \<Rightarrow> s)
      in if is_timeout status
         then s\<lparr>s_timeout_map := map_insert body_eq source body (s_timeout_map s)\<rparr>
         else if is_error status
         then s\<lparr>s_error_map := map_insert body_eq source body (s_error_map s)\<rparr>
         else if is_excluded_status status
         then s\<lparr>s_excluded_map := map_insert body_eq source body (s_excluded_map s)\<rparr>
         else if is_success status \<and> s_detailed_stats s
         then s\<lparr>s_success_map := map_insert body_eq source body (s_success_map s)\<rparr>
         else s)"

definition stats_add :: "response \<Rightarrow> response_stats \<Rightarrow> response_stats" where
  "stats_add response s =
     (let body = r_body response;
          s = (if rb_uri body \<notin> s_seen_uris s
               then s\<lparr>s_seen_uris := insert (rb_uri body) (s_seen_uris s), s_unique := s_unique s + 1\<rparr>
               else s);
          s = s\<lparr>s_total := s_total s + 1\<rparr>;
          s = (if rb_redirects body \<noteq> None then s\<lparr>s_redirects := s_redirects s + 1\<rparr> else s);
          s = (if rb_remap body \<noteq> None then s\<lparr>s_remaps := s_remaps s + 1\<rparr> else s);
          s = increment_status_counters (r_status response) s
      in add_response_status response s)"

definition stats_is_success :: "response_stats \<Rightarrow> bool" where
  "stats_is_success s \<longleftrightarrow> s_error_map s = Map.empty \<and> s_timeout_map s = Map.empty"

definition stats_is_success_ignoring_timeouts :: "response_stats \<Rightarrow> bool" where
  "stats_is_success_ignoring_timeouts s \<longleftrightarrow> s_error_map s = Map.empty"

datatype exit_code = Success | UnexpectedFailure | LinkCheckFailure | ConfigFile

fun exit_value :: "exit_code \<Rightarrow> int" where
  "exit_value Success = 0"
| "exit_value UnexpectedFailure = 1"
| "exit_value LinkCheckFailure = 2"
| "exit_value ConfigFile = 3"

definition check_exit_code :: "bool \<Rightarrow> response_stats \<Rightarrow> exit_code" where
  "check_exit_code accept_timeouts stats =
     (let is_success = (if accept_timeouts then stats_is_success_ignoring_timeouts stats
                        else stats_is_success stats)
      in if is_success then Success else LinkCheckFailure)"

text \<open>
  \<open>collect_responses\<close> adds every response that arrives, until the channel ends or the first
  error in user input.
\<close>

fun collect_responses :: "(error_kind + response) list \<Rightarrow> response_stats \<Rightarrow> error_kind + response_stats" where
  "collect_responses [] stats = Inr stats"
| "collect_responses (response # rest) stats =
     res_bind response (\<lambda>r. collect_responses rest (stats_add r stats))"

lemma collect_responses_Inr: "collect_responses (map Inr rs) s = Inr (fold stats_add rs s)"
  by (induction rs arbitrary: s) simp_all

lemma collect_responses_Inl:
  "collect_responses (map Inr rs @ Inl e # rest) s = Inl e"
  by (induction rs arbitrary: s) simp_all

lemma collect_responses_cases:
  "collect_responses ms s = Inr s' \<longleftrightarrow> (\<exists>rs. ms = map Inr rs \<and> s' = fold stats_add rs s)"
proof
  show "collect_responses ms s = Inr s' \<Longrightarrow> \<exists>rs. ms = map Inr rs \<and> s' = fold stats_add rs s"
  proof (induction ms arbitrary: s)
    case (Cons m ms)
    then obtain r where r: "m = Inr r" "collect_responses ms (stats_add r s) = Inr s'"
      by (auto simp: res_bind_Inr_conv)
    from Cons.IH [OF r(2)] obtain rs where "ms = map Inr rs" "s' = fold stats_add rs (stats_add r s)"
      by blast
    with r(1) show ?case by (intro exI [of _ "r # rs"]) simp
  qed simp
qed (auto simp: collect_responses_Inr)

section \<open>What the statistics say\<close>

text \<open>
  The abstract statistics: how many responses had which outcome, the URIs seen and the sources
  of the responses kept.  The detailed statistics implement it, one response at a time.
\<close>

datatype outcome = Passed | Failed | TimedOutCheck | Skipped | NotSupported | NotKnown

fun outcome_of :: "status \<Rightarrow> outcome" where
  "outcome_of (StOk _) = Passed"
| "outcome_of (StError _) = Failed"
| "outcome_of (StRequestError _) = Failed"
| "outcome_of (StTimeout _) = TimedOutCheck"
| "outcome_of (StUnknownStatusCode _) = NotKnown"
| "outcome_of (StUnknownMailStatus _) = NotKnown"
| "outcome_of StExcluded = Skipped"
| "outcome_of (StUnsupported _) = NotSupported"
| "outcome_of (StCached c) =
     (case c of CacheOk _ \<Rightarrow> Passed | CacheError _ \<Rightarrow> Failed | CacheExcluded \<Rightarrow> Skipped
      | CacheUnsupported \<Rightarrow> NotSupported)"

fun is_cached :: "status \<Rightarrow> bool" where
  "is_cached (StCached _) = True"
| "is_cached _ = False"

lemma outcome_of_conv:
  "is_timeout st \<longleftrightarrow> outcome_of st = TimedOutCheck"
  "is_error st \<longleftrightarrow> outcome_of st \<in> {Failed, TimedOutCheck}"
  "is_excluded_status st \<longleftrightarrow> outcome_of st = Skipped"
  "is_success st \<longleftrightarrow> outcome_of st = Passed"
  "is_unsupported st \<longleftrightarrow> outcome_of st = NotSupported"
  by (cases st; simp split: cache_status.split)+

fun counter :: "response_stats \<Rightarrow> outcome \<Rightarrow> nat" where
  "counter s Passed = s_successful s"
| "counter s Failed = s_errors s"
| "counter s TimedOutCheck = s_timeouts s"
| "counter s Skipped = s_excludes s"
| "counter s NotSupported = s_unsupported s"
| "counter s NotKnown = s_unknown s"

fun sources :: "response_stats \<Rightarrow> outcome \<Rightarrow> input_source set" where
  "sources s Passed = dom (s_success_map s)"
| "sources s Failed = dom (s_error_map s)"
| "sources s TimedOutCheck = dom (s_timeout_map s)"
| "sources s Skipped = dom (s_excluded_map s)"
| "sources s _ = {}"

definition kept_outcome :: "bool \<Rightarrow> outcome \<Rightarrow> bool" where
  "kept_outcome detailed k \<longleftrightarrow>
     k \<in> {Failed, TimedOutCheck, Skipped} \<or> k = Passed \<and> detailed"

text \<open>
  The abstract state: responses per outcome; the cached, redirected and remapped ones; the URIs
  seen and their number; and the sources of the responses kept per outcome.
\<close>

type_synonym stats_view =
  "(outcome \<Rightarrow> nat) \<times> (nat \<times> nat \<times> nat) \<times> (uri set \<times> nat) \<times> (outcome \<Rightarrow> input_source set)"

definition view_of :: "response_stats \<Rightarrow> stats_view" where
  "view_of s = (counter s, (s_cached s, s_redirects s, s_remaps s), (s_seen_uris s, s_unique s), sources s)"

definition view_step :: "bool \<Rightarrow> response \<Rightarrow> stats_view \<Rightarrow> stats_view" where
  "view_step detailed r v =
     (case v of (counts, (cached, redirected, remapped), (seen, unique), srcs) \<Rightarrow>
        let k = outcome_of (r_status r); u = rb_uri (r_body r) in
        ((\<lambda>x. counts x + of_bool (k = x)),
         (cached + of_bool (is_cached (r_status r)),
          redirected + of_bool (rb_redirects (r_body r) \<noteq> None),
          remapped + of_bool (rb_remap (r_body r) \<noteq> None)),
         (insert u seen, unique + of_bool (u \<notin> seen)),
         (\<lambda>x. if k = x \<and> kept_outcome detailed k then insert (r_source r) (srcs x) else srcs x)))"

lemma view_step_commute: "view_step d a (view_step d b v) = view_step d b (view_step d a v)"
proof -
  obtain counts cached redirected remapped seen unique srcs
    where v: "v = (counts, (cached, redirected, remapped), (seen, unique), srcs)"
    by (cases v) auto
  show ?thesis
    by (simp add: v view_step_def Let_def) (auto simp: fun_eq_iff)
qed

interpretation view: commuting_steps "view_step d" for d
  by unfold_locales (rule view_step_commute)

lemma increment_counter:
  "counter (increment_status_counters st s) k = counter s k + of_bool (outcome_of st = k)"
  by (cases k; cases st; simp add: Let_def split: cache_status.split)

lemma increment_fields:
  "s_detailed_stats (increment_status_counters st s) = s_detailed_stats s"
  "s_total (increment_status_counters st s) = s_total s"
  "s_unique (increment_status_counters st s) = s_unique s"
  "s_seen_uris (increment_status_counters st s) = s_seen_uris s"
  "s_redirects (increment_status_counters st s) = s_redirects s"
  "s_remaps (increment_status_counters st s) = s_remaps s"
  "s_cached (increment_status_counters st s) = s_cached s + of_bool (is_cached st)"
  "s_success_map (increment_status_counters st s) = s_success_map s"
  "s_error_map (increment_status_counters st s) = s_error_map s"
  "s_timeout_map (increment_status_counters st s) = s_timeout_map s"
  "s_excluded_map (increment_status_counters st s) = s_excluded_map s"
  "s_redirect_map (increment_status_counters st s) = s_redirect_map s"
  by (cases st; simp add: Let_def split: cache_status.split)+

lemma increment_sources: "sources (increment_status_counters st s) k = sources s k"
  by (cases k) (simp_all add: increment_fields)

text \<open>\<open>add_response_status\<close> touches one map of responses, and the redirects.\<close>

definition with_redirects :: "response \<Rightarrow> response_stats \<Rightarrow> response_stats" where
  "with_redirects r s = (case rb_redirects (r_body r) of
     Some x \<Rightarrow> if s_detailed_stats s
       then s\<lparr>s_redirect_map := map_insert (=) (r_source r) x (s_redirect_map s)\<rparr> else s
   | None \<Rightarrow> s)"

lemma add_response_status_outcome:
  "add_response_status r s =
     (let s = with_redirects r s; add = map_insert body_eq (r_source r) (r_body r) in
      case outcome_of (r_status r) of
        TimedOutCheck \<Rightarrow> s\<lparr>s_timeout_map := add (s_timeout_map s)\<rparr>
      | Failed \<Rightarrow> s\<lparr>s_error_map := add (s_error_map s)\<rparr>
      | Skipped \<Rightarrow> s\<lparr>s_excluded_map := add (s_excluded_map s)\<rparr>
      | Passed \<Rightarrow> if s_detailed_stats s then s\<lparr>s_success_map := add (s_success_map s)\<rparr> else s
      | _ \<Rightarrow> s)"
  by (cases "outcome_of (r_status r)")
    (simp_all add: add_response_status_def with_redirects_def outcome_of_conv Let_def)

lemma counter_update [simp]:
  "counter (s\<lparr>s_timeout_map := m\<rparr>) k = counter s k"
  "counter (s\<lparr>s_error_map := m\<rparr>) k = counter s k"
  "counter (s\<lparr>s_excluded_map := m\<rparr>) k = counter s k"
  "counter (s\<lparr>s_success_map := m\<rparr>) k = counter s k"
  "counter (s\<lparr>s_redirect_map := m'\<rparr>) k = counter s k"
  by (cases k; simp)+

lemma with_redirects_fields [simp]:
  "s_detailed_stats (with_redirects r s) = s_detailed_stats s"
  "s_total (with_redirects r s) = s_total s"
  "s_unique (with_redirects r s) = s_unique s"
  "s_seen_uris (with_redirects r s) = s_seen_uris s"
  "s_redirects (with_redirects r s) = s_redirects s"
  "s_remaps (with_redirects r s) = s_remaps s"
  "s_cached (with_redirects r s) = s_cached s"
  "s_success_map (with_redirects r s) = s_success_map s"
  "s_error_map (with_redirects r s) = s_error_map s"
  "s_timeout_map (with_redirects r s) = s_timeout_map s"
  "s_excluded_map (with_redirects r s) = s_excluded_map s"
  "counter (with_redirects r s) k = counter s k"
  by (cases "rb_redirects (r_body r)"; simp add: with_redirects_def)+

lemma add_status_fields:
  "s_detailed_stats (add_response_status r s) = s_detailed_stats s"
  "s_total (add_response_status r s) = s_total s"
  "s_unique (add_response_status r s) = s_unique s"
  "s_seen_uris (add_response_status r s) = s_seen_uris s"
  "s_redirects (add_response_status r s) = s_redirects s"
  "s_remaps (add_response_status r s) = s_remaps s"
  "s_cached (add_response_status r s) = s_cached s"
  "counter (add_response_status r s) k = counter s k"
  by (cases "outcome_of (r_status r)"; simp add: add_response_status_outcome Let_def)+

lemma add_status_sources:
  "sources (add_response_status r s) x =
     (if outcome_of (r_status r) = x \<and> kept_outcome (s_detailed_stats s) x
      then insert (r_source r) (sources s x) else sources s x)"
  by (cases "outcome_of (r_status r)"; cases x; simp add: add_response_status_outcome Let_def kept_outcome_def)

lemma add_status_maps:
  assumes "\<not> s_detailed_stats s"
  shows "s_success_map (add_response_status r s) = s_success_map s"
    and "s_redirect_map (add_response_status r s) = s_redirect_map s"
  using assms
  by (cases "outcome_of (r_status r)"; cases "rb_redirects (r_body r)";
      simp add: add_response_status_outcome Let_def with_redirects_def)+

lemma stats_add_fields:
  "s_detailed_stats (stats_add r s) = s_detailed_stats s"
  "s_total (stats_add r s) = s_total s + 1"
  "s_seen_uris (stats_add r s) = insert (rb_uri (r_body r)) (s_seen_uris s)"
  "s_unique (stats_add r s) = s_unique s + of_bool (rb_uri (r_body r) \<notin> s_seen_uris s)"
  "s_cached (stats_add r s) = s_cached s + of_bool (is_cached (r_status r))"
  "s_redirects (stats_add r s) = s_redirects s + of_bool (rb_redirects (r_body r) \<noteq> None)"
  "s_remaps (stats_add r s) = s_remaps s + of_bool (rb_remap (r_body r) \<noteq> None)"
  by (simp_all add: stats_add_def Let_def add_status_fields increment_fields insert_absorb)

lemma stats_add_maps:
  assumes "\<not> s_detailed_stats s"
  shows "s_success_map (stats_add r s) = s_success_map s \<and> s_redirect_map (stats_add r s) = s_redirect_map s"
  using assms by (simp add: stats_add_def Let_def add_status_maps increment_fields)

lemma bookkeeping_update [simp]:
  "counter (s\<lparr>s_seen_uris := u\<rparr>) k = counter s k" "sources (s\<lparr>s_seen_uris := u\<rparr>) k = sources s k"
  "counter (s\<lparr>s_unique := n\<rparr>) k = counter s k" "sources (s\<lparr>s_unique := n\<rparr>) k = sources s k"
  "counter (s\<lparr>s_total := n\<rparr>) k = counter s k" "sources (s\<lparr>s_total := n\<rparr>) k = sources s k"
  "counter (s\<lparr>s_redirects := n\<rparr>) k = counter s k" "sources (s\<lparr>s_redirects := n\<rparr>) k = sources s k"
  "counter (s\<lparr>s_remaps := n\<rparr>) k = counter s k" "sources (s\<lparr>s_remaps := n\<rparr>) k = sources s k"
  by (cases k; simp)+

lemma stats_add_counter:
  "counter (stats_add r s) k = counter s k + of_bool (outcome_of (r_status r) = k)"
  by (simp add: stats_add_def Let_def add_status_fields increment_counter)

lemma stats_add_sources:
  "sources (stats_add r s) x =
     (if outcome_of (r_status r) = x \<and> kept_outcome (s_detailed_stats s) x
      then insert (r_source r) (sources s x) else sources s x)"
  by (auto simp: stats_add_def Let_def add_status_sources increment_sources increment_fields)

lemma stats_add_view: "view_of (stats_add r s) = view_step (s_detailed_stats s) r (view_of s)"
  by (auto simp: view_of_def view_step_def Let_def stats_add_fields stats_add_counter stats_add_sources
      fun_eq_iff)

text \<open>What holds after every response.\<close>

definition stats_wf :: "response_stats \<Rightarrow> bool" where
  "stats_wf s \<longleftrightarrow>
     s_total s = s_successful s + s_errors s + s_timeouts s + s_excludes s + s_unsupported s + s_unknown s \<and>
     finite (s_seen_uris s) \<and> s_unique s = card (s_seen_uris s) \<and> s_unique s \<le> s_total s \<and>
     s_cached s \<le> s_total s \<and> s_redirects s \<le> s_total s \<and> s_remaps s \<le> s_total s \<and>
     (s_detailed_stats s \<or> s_success_map s = Map.empty \<and> s_redirect_map s = Map.empty)"

lemmas stats_add_counters =
  stats_add_counter [where k = Passed, simplified] stats_add_counter [where k = Failed, simplified]
  stats_add_counter [where k = TimedOutCheck, simplified] stats_add_counter [where k = Skipped, simplified]
  stats_add_counter [where k = NotSupported, simplified] stats_add_counter [where k = NotKnown, simplified]

lemma stats_add_wf: "stats_wf s \<Longrightarrow> stats_wf (stats_add r s)"
proof -
  assume wf: "stats_wf s"
  have one: "(\<Sum>k\<leftarrow>[Passed, Failed, TimedOutCheck, Skipped, NotSupported, NotKnown].
      of_bool (outcome_of (r_status r) = k)) = (1 :: nat)"
    by (cases "outcome_of (r_status r)") simp_all
  from wf one have "s_total (stats_add r s) = s_successful (stats_add r s) + s_errors (stats_add r s) +
      s_timeouts (stats_add r s) + s_excludes (stats_add r s) + s_unsupported (stats_add r s) +
      s_unknown (stats_add r s)"
    by (simp add: stats_wf_def stats_add_counters stats_add_fields)
  moreover from wf have "s_unique (stats_add r s) = card (s_seen_uris (stats_add r s))"
    by (simp add: stats_wf_def stats_add_fields card_insert_if)
  moreover from wf stats_add_maps [of s r] have "s_detailed_stats (stats_add r s) \<or>
      s_success_map (stats_add r s) = Map.empty \<and> s_redirect_map (stats_add r s) = Map.empty"
    by (auto simp: stats_wf_def stats_add_fields)
  moreover from wf have "s_unique (stats_add r s) \<le> s_total (stats_add r s)"
    "s_cached (stats_add r s) \<le> s_total (stats_add r s)"
    "s_redirects (stats_add r s) \<le> s_total (stats_add r s)"
    "s_remaps (stats_add r s) \<le> s_total (stats_add r s)"
    by (auto simp: stats_wf_def stats_add_fields)
  ultimately show "stats_wf (stats_add r s)"
    using wf by (simp add: stats_wf_def stats_add_fields)
qed

interpretation stats: kept_by_steps stats_add stats_wf
  by unfold_locales (rule stats_add_wf)

lemma stats_initial_wf: "s0 \<in> {stats_default, stats_extended} \<Longrightarrow> stats_wf s0"
  by (auto simp: stats_wf_def stats_default_def stats_extended_def)

section \<open>A whole run\<close>

lemma fold_detailed: "s_detailed_stats (fold stats_add rs s) = s_detailed_stats s"
  by (induction rs arbitrary: s) (simp_all add: stats_add_fields)

lemma fold_view: "view_of (fold stats_add rs s) = fold (view_step (s_detailed_stats s)) rs (view_of s)"
  by (induction rs arbitrary: s) (simp_all add: stats_add_view stats_add_fields)

lemma fold_counter:
  "counter (fold stats_add rs s) k = counter s k + length (filter (\<lambda>r. outcome_of (r_status r) = k) rs)"
  by (induction rs arbitrary: s) (simp_all add: stats_add_counter)

lemma fold_sources:
  "sources (fold stats_add rs s) k = sources s k \<union>
     (if kept_outcome (s_detailed_stats s) k
      then r_source ` {r \<in> set rs. outcome_of (r_status r) = k} else {})"
  by (induction rs arbitrary: s) (auto simp: stats_add_sources stats_add_fields)

lemma fold_fields:
  "s_total (fold stats_add rs s) = s_total s + length rs"
  "s_seen_uris (fold stats_add rs s) = s_seen_uris s \<union> (rb_uri \<circ> r_body) ` set rs"
  "s_cached (fold stats_add rs s) = s_cached s + length (filter (is_cached \<circ> r_status) rs)"
  by (induction rs arbitrary: s) (auto simp: stats_add_fields)

lemma initial_view:
  assumes "s0 \<in> {stats_default, stats_extended}"
  shows "counter s0 k = 0" "sources s0 k = {}" "s_total s0 = 0" "s_seen_uris s0 = {}" "s_cached s0 = 0"
  using assms by (cases k; auto simp: stats_default_def stats_extended_def)+

lemma check_exit_code_sources:
  "check_exit_code at s = (if sources s Failed = {} \<and> (at \<or> sources s TimedOutCheck = {})
     then Success else LinkCheckFailure)"
  by (auto simp: check_exit_code_def stats_is_success_def stats_is_success_ignoring_timeouts_def Let_def)

lemma fold_exit_code:
  assumes "s0 \<in> {stats_default, stats_extended}"
  shows "check_exit_code accept_timeouts (fold stats_add rs s0) = LinkCheckFailure \<longleftrightarrow>
    (\<exists>r \<in> set rs. is_error (r_status r) \<and> (accept_timeouts \<longrightarrow> \<not> is_timeout (r_status r)))"
proof -
  let ?s = "fold stats_add rs s0"
  have "sources ?s Failed = {} \<longleftrightarrow> (\<forall>r \<in> set rs. outcome_of (r_status r) \<noteq> Failed)"
    "sources ?s TimedOutCheck = {} \<longleftrightarrow> (\<forall>r \<in> set rs. outcome_of (r_status r) \<noteq> TimedOutCheck)"
    unfolding fold_sources kept_outcome_def initial_view [OF assms] by auto
  then show ?thesis
    unfolding check_exit_code_sources outcome_of_conv
    by (cases accept_timeouts) (simp_all del: sources.simps, metis outcome.distinct, blast)
qed

text \<open>A map holds a body or one that compares as equal, which then stands for it.\<close>

definition holds_body :: "(input_source \<rightharpoonup> response_body list) \<Rightarrow> input_source \<Rightarrow> response_body \<Rightarrow> bool" where
  "holds_body m source body \<longleftrightarrow> (\<exists>bodies. m source = Some bodies \<and> (\<exists>b \<in> set bodies. b = body \<or> body_eq body b))"

lemma holds_body_insert:
  "holds_body (map_insert body_eq source body m) source body"
  "holds_body m source body \<Longrightarrow> holds_body (map_insert body_eq source' body' m) source body"
  by (auto simp: holds_body_def map_insert_def set_insert_def split: option.split)

lemma stats_add_keeps_failures:
  "holds_body (s_error_map s) source body \<Longrightarrow> holds_body (s_error_map (stats_add r s)) source body"
  "holds_body (s_timeout_map s) source body \<Longrightarrow> holds_body (s_timeout_map (stats_add r s)) source body"
  "outcome_of (r_status r) = Failed \<Longrightarrow> holds_body (s_error_map (stats_add r s)) (r_source r) (r_body r)"
  "outcome_of (r_status r) = TimedOutCheck \<Longrightarrow> holds_body (s_timeout_map (stats_add r s)) (r_source r) (r_body r)"
  by (cases "outcome_of (r_status r)";
    simp add: stats_add_def Let_def add_response_status_outcome increment_fields holds_body_insert)+

lemma fold_keeps_failures:
  "holds_body (s_error_map s) source body \<Longrightarrow> holds_body (s_error_map (fold stats_add rs s)) source body"
  "holds_body (s_timeout_map s) source body \<Longrightarrow> holds_body (s_timeout_map (fold stats_add rs s)) source body"
  by (induction rs arbitrary: s) (simp_all add: stats_add_keeps_failures)

lemma fold_holds_failures:
  assumes "r \<in> set rs" and "is_error (r_status r)"
  shows "holds_body (s_error_map (fold stats_add rs s)) (r_source r) (r_body r) \<or>
    holds_body (s_timeout_map (fold stats_add rs s)) (r_source r) (r_body r)"
proof -
  from assms(1) obtain before after where "rs = before @ r # after" by (auto simp: in_set_conv_decomp)
  moreover from assms(2) have "outcome_of (r_status r) \<in> {Failed, TimedOutCheck}" by (auto simp: outcome_of_conv)
  ultimately show ?thesis
    using fold_keeps_failures stats_add_keeps_failures(3,4) [of r "fold stats_add before s"] by auto
qed

lemma stats_any_order:
  assumes "mset rs = mset rs'"
  shows "view_of (fold stats_add rs s0) = view_of (fold stats_add rs' s0)"
    and "check_exit_code t (fold stats_add rs s0) = check_exit_code t (fold stats_add rs' s0)"
proof -
  show same: "view_of (fold stats_add rs s0) = view_of (fold stats_add rs' s0)"
    unfolding fold_view using assms by (rule view.fold_any_order)
  then show "check_exit_code t (fold stats_add rs s0) = check_exit_code t (fold stats_add rs' s0)"
    by (simp add: check_exit_code_sources view_of_def)
qed

section \<open>Properties\<close>

text \<open>C8: A run ends with the failure exit code exactly if some response was an error, where a
  timeout counts unless timeouts are accepted; an error in user input ends it without a code.\<close>

theorem exit_code_of_run:
  assumes "s0 \<in> {stats_default, stats_extended}"
  shows "(\<exists>s. collect_responses (map Inr rs) s0 = Inr s \<and>
      (check_exit_code accept_timeouts s = LinkCheckFailure \<longleftrightarrow>
        (\<exists>r \<in> set rs. is_error (r_status r) \<and> (accept_timeouts \<longrightarrow> \<not> is_timeout (r_status r)))) \<and>
      exit_value (check_exit_code accept_timeouts s) \<in> {0, 2}) \<and>
    collect_responses (map Inr rs @ Inl e # ms) s0 = Inl e"
proof -
  have "exit_value (check_exit_code accept_timeouts (fold stats_add rs s0)) \<in> {0, 2}"
    by (simp add: check_exit_code_sources)
  with fold_exit_code [OF assms, of accept_timeouts rs] show ?thesis
    by (intro conjI exI [of _ "fold stats_add rs s0"]) (rule collect_responses_Inr collect_responses_Inl | assumption)+
qed

theorem exit_code_of_run_witness:
  "\<exists>s. collect_responses (map Inr [response_new (domain_url ''https'' ''a.org'' ''/'') (StTimeout None)
       None None Stdin None None]) stats_default = Inr s \<and>
     check_exit_code False s = LinkCheckFailure \<and> check_exit_code True s \<noteq> LinkCheckFailure"
proof -
  let ?rs = "[response_new (domain_url ''https'' ''a.org'' ''/'') (StTimeout None) None None Stdin None None]"
  from exit_code_of_run [of stats_default ?rs False] exit_code_of_run [of stats_default ?rs True]
  show ?thesis by (auto simp: response_new_def)
qed

text \<open>After any sequence of responses the counters of the six outcomes count the responses with
  that outcome and add up to the total, the number of unique URIs is the number of different URIs
  seen, and the error, timeout and excluded maps have exactly the sources of such responses.\<close>

theorem stats_count_responses:
  assumes "s0 \<in> {stats_default, stats_extended}" and "s = fold stats_add rs s0"
  shows "s_total s = length rs \<and>
    s_total s = s_successful s + s_errors s + s_timeouts s + s_excludes s + s_unsupported s + s_unknown s \<and>
    s_successful s = length (filter (is_success \<circ> r_status) rs) \<and>
    s_errors s + s_timeouts s = length (filter (is_error \<circ> r_status) rs) \<and>
    s_timeouts s = length (filter (is_timeout \<circ> r_status) rs) \<and>
    s_unique s = card ((rb_uri \<circ> r_body) ` set rs) \<and>
    dom (s_error_map s) \<union> dom (s_timeout_map s) = r_source ` {r \<in> set rs. is_error (r_status r)} \<and>
    dom (s_excluded_map s) = r_source ` {r \<in> set rs. is_excluded_status (r_status r)}"
proof -
  from stats.run_keeps [OF stats_initial_wf [OF assms(1)], of rs] have wf: "stats_wf s"
    by (simp add: assms(2))
  have counts: "counter s k = length (filter (\<lambda>r. outcome_of (r_status r) = k) rs)" for k
    by (simp add: assms(2) fold_counter initial_view [OF assms(1)])
  have srcs: "sources s k = (if kept_outcome (s_detailed_stats s0) k
      then r_source ` {r \<in> set rs. outcome_of (r_status r) = k} else {})" for k
    by (simp add: assms(2) fold_sources initial_view [OF assms(1)])
  have errs: "length (filter (\<lambda>r. outcome_of (r_status r) = Failed) xs) +
      length (filter (\<lambda>r. outcome_of (r_status r) = TimedOutCheck) xs) =
      length (filter (is_error \<circ> r_status) xs)" for xs
    by (induction xs) (simp_all add: outcome_of_conv)
  have "dom (s_error_map s) \<union> dom (s_timeout_map s) = r_source ` {r \<in> set rs. is_error (r_status r)}"
    using srcs [of Failed] srcs [of TimedOutCheck] by (auto simp: kept_outcome_def outcome_of_conv)
  moreover have "dom (s_excluded_map s) = r_source ` {r \<in> set rs. is_excluded_status (r_status r)}"
    using srcs [of Skipped] by (simp add: kept_outcome_def outcome_of_conv)
  moreover have "s_errors s + s_timeouts s = length (filter (is_error \<circ> r_status) rs)"
    using counts [of Failed] counts [of TimedOutCheck] errs [of rs] by simp
  moreover have "s_successful s = length (filter (is_success \<circ> r_status) rs)"
    "s_timeouts s = length (filter (is_timeout \<circ> r_status) rs)"
    using counts [of Passed] counts [of TimedOutCheck] by (simp_all add: outcome_of_conv comp_def)
  moreover have "s_total s = length rs" "s_seen_uris s = (rb_uri \<circ> r_body) ` set rs"
    by (simp_all add: assms(2) fold_fields initial_view [OF assms(1)])
  ultimately show ?thesis using wf by (simp add: stats_wf_def)
qed

theorem stats_count_responses_witness:
  "let u = domain_url ''https'' ''a.org'' ''/'' in
   s_unique (fold stats_add [response_new u (StOk 200) None None Stdin None None,
     response_new u (StCached (CacheOk 200)) None None Stdin None None] stats_default) = 1"
  unfolding Let_def
  by (subst stats_count_responses [THEN conjunct2, THEN conjunct2, THEN conjunct2, THEN conjunct2,
        THEN conjunct2, THEN conjunct1, OF _ refl])
    (simp_all add: response_new_def)

text \<open>The statistics implement their abstract view step by step, and the order in which the
  concurrent checks deliver their responses changes neither that view nor the exit code.\<close>

theorem stats_order_independent:
  "view_of (fold stats_add rs s0) = fold (view_step (s_detailed_stats s0)) rs (view_of s0) \<and>
   (mset rs = mset rs' \<longrightarrow>
     view_of (fold stats_add rs s0) = view_of (fold stats_add rs' s0) \<and>
     check_exit_code t (fold stats_add rs s0) = check_exit_code t (fold stats_add rs' s0))"
  using stats_any_order by (blast intro: fold_view)

theorem stats_order_independent_witness:
  "let a = response_new (domain_url ''https'' ''a.org'' ''/'') (StOk 200) None None Stdin None None;
       b = response_new (domain_url ''https'' ''b.org'' ''/'') (StTimeout None) None None Stdin None None
   in view_of (fold stats_add [a, b] stats_default) = view_of (fold stats_add [b, a] stats_default)"
  unfolding Let_def
  by (rule stats_order_independent [THEN conjunct2, THEN mp, THEN conjunct1]) (simp add: add_mset_commute)

text \<open>Without detailed statistics the maps of successful responses and of redirects stay empty,
  but excluded responses are kept all the same.\<close>

theorem excluded_map_without_details:
  "s_success_map (fold stats_add rs stats_default) = Map.empty \<and>
   s_redirect_map (fold stats_add rs stats_default) = Map.empty \<and>
   (s_excluded_map (fold stats_add rs stats_default) = Map.empty \<longleftrightarrow>
     (\<forall>r \<in> set rs. \<not> is_excluded_status (r_status r)))"
proof -
  have "stats_wf (fold stats_add rs stats_default)"
    by (rule stats.run_keeps) (rule stats_initial_wf, simp)
  moreover have "\<not> s_detailed_stats (fold stats_add rs stats_default)"
    by (simp add: fold_detailed stats_default_def)
  moreover have "dom (s_excluded_map (fold stats_add rs stats_default)) =
      r_source ` {r \<in> set rs. outcome_of (r_status r) = Skipped}"
    using fold_sources [of rs stats_default Skipped]
    by (simp add: kept_outcome_def stats_default_def)
  ultimately show ?thesis
    by (auto simp: stats_wf_def outcome_of_conv)
qed

theorem excluded_map_without_details_witness:
  "s_excluded_map (fold stats_add [response_new (domain_url ''https'' ''a.org'' ''/'') StExcluded
     None None Stdin None None] stats_default) \<noteq> Map.empty"
  using excluded_map_without_details
    [of "[response_new (domain_url ''https'' ''a.org'' ''/'') StExcluded None None Stdin None None]"]
  by (simp add: response_new_def)

end
