(* ===== verification/Cache.thy ===== *)
theory Cache
  imports Retry Remap ResponseStats
begin

text \<open>
  The cache of link statuses, in memory during a run and in a file between runs:
  \<open>lychee-bin/src/cache.rs\<close>.

  A \<open>DashMap\<close> is a map; the order in which it is iterated is not fixed, so storing takes the
  listing of its entries as an argument.  A record of the csv file is the list of its fields.
  The check of a request and the counting of cache hits act on the state \<open>'w\<close> of the client.
\<close>

section \<open>The cache\<close>

record cache_value =
  cv_status :: cache_status
  cv_timestamp :: u64

type_synonym cache = "uri \<rightharpoonup> cache_value"

definition cache_value_of :: "u64 \<Rightarrow> status \<Rightarrow> cache_value" where
  "cache_value_of timestamp s = \<lparr>cv_status = cache_of_status s, cv_timestamp = timestamp\<rparr>"

definition should_ignore :: "uri \<Rightarrow> status \<Rightarrow> status_code set \<Rightarrow> bool" where
  "should_ignore u status cache_exclude_status =
     (let status_code_excluded =
            (case status_code_of status of Some code \<Rightarrow> code \<in> cache_exclude_status | None \<Rightarrow> False)
      in is_file u \<or> is_excluded_status status \<or> is_unsupported status \<or> is_unknown status \<or>
         status_code_excluded)"

section \<open>The cache file\<close>

fun is_cache_error :: "cache_status \<Rightarrow> bool" where
  "is_cache_error (CacheError _) = True"
| "is_cache_error _ = False"

definition store_row :: "uri \<times> cache_value \<Rightarrow> string list" where
  "store_row e = [url_str (fst e), cache_serialize (cv_status (snd e)), show_nat (unat (cv_timestamp (snd e)))]"

definition cache_store :: "(uri \<times> cache_value) list \<Rightarrow> string list list" where
  "cache_store entries = map store_row (filter (\<lambda>e. \<not> is_cache_error (cv_status (snd e))) entries)"

definition parse_u64 :: "string \<Rightarrow> parse_int_error + u64" where
  "parse_u64 s = res_bind (parse_uint 18446744073709551615 s) (\<lambda>n. Inr (of_nat n))"

text \<open>
  Deserializing a record of the file; \<open>None\<close> is any error of it.  \<open>parse_uri\<close> is the url
  crate's \<open>Deserialize\<close>.
\<close>

definition load_row ::
  "http \<Rightarrow> (string \<Rightarrow> uri option) \<Rightarrow> string list \<Rightarrow> (uri \<times> cache_value) option" where
  "load_row h parse_uri row =
     (case row of
        u # status # timestamp # _ \<Rightarrow>
          (case (parse_uri u, cache_deserialize h status, parse_u64 timestamp) of
             (Some uri, Some s, Inr t) \<Rightarrow> Some (uri, \<lparr>cv_status = s, cv_timestamp = t\<rparr>)
           | _ \<Rightarrow> None)
      | _ \<Rightarrow> None)"

definition u64_sub :: "bool \<Rightarrow> u64 \<Rightarrow> u64 \<Rightarrow> u64 eval" where
  "u64_sub checks a b = (if checks \<and> a < b then Panic else Value (a - b))"

definition stale_or_excluded :: "u64 \<Rightarrow> u64 \<Rightarrow> selector \<Rightarrow> cache_value \<Rightarrow> bool" where
  "stale_or_excluded age max_age_secs excluder value \<longleftrightarrow>
     age \<ge> max_age_secs \<or> is_cache_error (cv_status value) \<or> cache_is_excluded (cv_status value) excluder"

fun load_rows ::
  "bool \<Rightarrow> http \<Rightarrow> (string \<Rightarrow> uri option) \<Rightarrow> u64 \<Rightarrow> u64 \<Rightarrow> selector \<Rightarrow> string list list \<Rightarrow> cache \<Rightarrow>
   cache option eval" where
  "load_rows checks h parse_uri now max_age excluder [] c = Value (Some c)"
| "load_rows checks h parse_uri now max_age excluder (row # rows) c =
     (case load_row h parse_uri row of
        None \<Rightarrow> Value None
      | Some (uri, value) \<Rightarrow>
          eval_bind (u64_sub checks now (cv_timestamp value)) (\<lambda>age.
            if stale_or_excluded age max_age excluder value
            then load_rows checks h parse_uri now max_age excluder rows c
            else load_rows checks h parse_uri now max_age excluder rows (c(uri \<mapsto> value))))"

definition cache_load ::
  "bool \<Rightarrow> http \<Rightarrow> (string \<Rightarrow> uri option) \<Rightarrow> u64 \<Rightarrow> u64 \<Rightarrow> selector \<Rightarrow> string list list \<Rightarrow>
   cache option eval" where
  "cache_load checks h parse_uri now max_age excluder rows =
     load_rows checks h parse_uri now max_age excluder rows Map.empty"

section \<open>Checking through the cache\<close>

text \<open>What the cache uses of the client.\<close>

record 'w cache_client =
  cc_remap :: "uri \<Rightarrow> error_kind + (uri \<times> remap option)"
  cc_is_excluded :: "uri \<Rightarrow> bool"
  cc_record_hit :: "uri \<Rightarrow> 'w \<Rightarrow> 'w"

definition cache_hit ::
  "'w cache_client \<Rightarrow> status_code set \<Rightarrow> request \<Rightarrow> uri \<Rightarrow> cache_value \<Rightarrow> 'w \<Rightarrow> response \<times> 'w" where
  "cache_hit client accept request cache_key value w =
     (let (status, w') = (if cc_is_excluded client cache_key then (StExcluded, w)
            else (from_cache_status (cv_status value) accept, cc_record_hit client cache_key w))
      in (response_new cache_key status None None (input_source_of (rq_source request))
            (rq_span request) None, w'))"

definition cache_handle ::
  "'w cache_client \<Rightarrow> status_code set \<Rightarrow> status_code set \<Rightarrow> u64 \<Rightarrow> request \<Rightarrow>
   (request \<Rightarrow> 'w \<Rightarrow> response \<times> 'w) \<Rightarrow> cache \<Rightarrow> 'w \<Rightarrow> response \<times> cache \<times> 'w" where
  "cache_handle client cache_exclude_status accept timestamp request check c w =
     (let cache_key = (case cc_remap client (rq_uri request) of Inr (uri, _) \<Rightarrow> Some uri | Inl _ \<Rightarrow> None)
      in case (case cache_key of Some key \<Rightarrow> map_option (\<lambda>v. (key, v)) (c key) | None \<Rightarrow> None) of
           Some (key, value) \<Rightarrow>
             (let (response, w') = cache_hit client accept request key value w in (response, c, w'))
         | None \<Rightarrow>
             (let (response, w') = check request w; status = r_status response in
              (response,
               (case cache_key of
                  Some key \<Rightarrow>
                    if \<not> should_ignore key status cache_exclude_status
                    then c(key \<mapsto> cache_value_of timestamp status) else c
                | None \<Rightarrow> c),
               w')))"

text \<open>\<open>handle\<close> of \<open>check.rs\<close>: an error in resolving the request bypasses the cache.\<close>

definition handle ::
  "'w cache_client \<Rightarrow> uri \<Rightarrow> status_code set \<Rightarrow> status_code set \<Rightarrow> u64 \<Rightarrow> request_error + request \<Rightarrow>
   (request \<Rightarrow> 'w \<Rightarrow> response \<times> 'w) \<Rightarrow> cache \<Rightarrow> 'w \<Rightarrow> (error_kind + response) \<times> cache \<times> 'w" where
  "handle client error_uri cache_exclude_status accept timestamp request check c w =
     (case request of
        Inl e \<Rightarrow> (into_response error_uri e, c, w)
      | Inr request \<Rightarrow>
          (case cache_handle client cache_exclude_status accept timestamp request check c w of
             (response, c', w') \<Rightarrow> (Inr response, c', w')))"

text \<open>\<open>check_url\<close>: a check that fails becomes a failed response.\<close>

definition check_url ::
  "(request \<Rightarrow> 'w \<Rightarrow> (error_kind + response) \<times> 'w) \<Rightarrow> request \<Rightarrow> 'w \<Rightarrow> response \<times> 'w" where
  "check_url client_check request w =
     (case client_check request w of
        (Inr response, w') \<Rightarrow> (response, w')
      | (Inl e, w') \<Rightarrow>
          (response_new (rq_uri request) (StError (InvalidURI (rq_uri request))) None None
             (input_source_of (rq_source request)) (rq_span request) None, w'))"

text \<open>
  \<open>load_cache\<close> of \<open>main.rs\<close>: nothing without \<open>--cache\<close>, for a missing file, or for a file
  whose last change is unknown or longer ago than \<open>max_cache_age\<close>; an error in loading is only reported.
  The file is its age (if it is known) and its records.
\<close>

definition load_cache ::
  "bool \<Rightarrow> http \<Rightarrow> (string \<Rightarrow> uri option) \<Rightarrow> bool \<Rightarrow> duration \<Rightarrow> selector \<Rightarrow> u64 \<Rightarrow>
   (duration option \<times> string list list) option \<Rightarrow> cache option eval" where
  "load_cache checks h parse_uri cfg_cache max_cache_age excluder now file =
     (if \<not> cfg_cache then Value None
      else (case file of
              None \<Rightarrow> Value None
            | Some (modified, rows) \<Rightarrow>
                (case modified of
                   None \<Rightarrow> Value None
                 | Some elapsed \<Rightarrow>
                     if elapsed > max_cache_age then Value None
                     else cache_load checks h parse_uri now
                            (of_nat (max_cache_age div 1000000000)) excluder rows)))"

section \<open>What a stored cache gives back\<close>

lemma parse_u64_show: "parse_u64 (show_nat (unat (t :: u64))) = Inr t"
proof -
  have "unat t \<le> 18446744073709551615" using unsigned_less [of t, where ?'a = nat] by simp
  then show ?thesis by (simp add: parse_u64_def parse_uint_show_nat)
qed

definition storable :: "(string \<Rightarrow> uri option) \<Rightarrow> u64 \<Rightarrow> uri \<times> cache_value \<Rightarrow> bool" where
  "storable parse_uri now e \<longleftrightarrow>
     parse_uri (url_str (fst e)) = Some (fst e) \<and> cv_timestamp (snd e) \<le> now \<and>
     (case cache_code (cv_status (snd e)) of Some c \<Rightarrow> valid_code c | None \<Rightarrow> True)"

definition restored :: "u64 \<Rightarrow> u64 \<Rightarrow> selector \<Rightarrow> uri \<times> cache_value \<Rightarrow> bool" where
  "restored now max_age excluder e \<longleftrightarrow>
     now - cv_timestamp (snd e) < max_age \<and>
     (case cv_status (snd e) of
        CacheOk c \<Rightarrow> 200 \<le> c \<and> c < 300 \<and> \<not> sel_contains excluder c
      | CacheError _ \<Rightarrow> False
      | _ \<Rightarrow> True)"

lemma load_row_store:
  assumes "http_documented h" "storable parse_uri now e"
  shows "load_row h parse_uri (store_row e) =
    Some (fst e, \<lparr>cv_status = reread (cv_status (snd e)), cv_timestamp = cv_timestamp (snd e)\<rparr>)"
proof -
  have "cache_deserialize h (cache_serialize (cv_status (snd e))) = Some (reread (cv_status (snd e)))"
    by (rule cache_deserialize_serialize [OF assms(1)]) (use assms(2) in \<open>auto simp: storable_def\<close>)
  with assms(2) show ?thesis by (simp add: load_row_def store_row_def storable_def parse_u64_show)
qed

lemma stored_stale_or_excluded:
  assumes "storable parse_uri now e" "\<not> is_cache_error (cv_status (snd e))"
  shows "stale_or_excluded (now - cv_timestamp (snd e)) max_age excluder
      \<lparr>cv_status = reread (cv_status (snd e)), cv_timestamp = t\<rparr> \<longleftrightarrow> \<not> restored now max_age excluder e"
  using assms by (cases "cv_status (snd e)")
    (auto simp: stale_or_excluded_def restored_def reread_def cache_is_excluded_def)

lemma restored_reread: "restored now max_age excluder e \<Longrightarrow> reread (cv_status (snd e)) = cv_status (snd e)"
  by (cases "cv_status (snd e)") (auto simp: restored_def reread_def)

lemma load_rows_store:
  assumes "http_documented h" "\<forall>e \<in> set entries. storable parse_uri now e"
  shows "load_rows checks h parse_uri now max_age excluder (cache_store entries) c =
    Value (Some (c ++ map_of (rev (filter (restored now max_age excluder) entries))))"
  using assms(2)
proof (induction entries arbitrary: c)
  case (Cons e entries)
  note IH = Cons.IH [unfolded cache_store_def]
  have e: "storable parse_uri now e" using Cons.prems by simp
  then have time: "\<not> now < cv_timestamp (snd e)" by (auto simp: storable_def)
  show ?case
  proof (cases "is_cache_error (cv_status (snd e))")
    case True
    then have "\<not> restored now max_age excluder e"
      by (cases "cv_status (snd e)") (auto simp: restored_def)
    with True Cons.prems IH show ?thesis by (simp add: cache_store_def)
  next
    case False
    note stale = stored_stale_or_excluded [OF e False]
    show ?thesis
    proof (cases "restored now max_age excluder e")
      case True
      then have v: "\<lparr>cv_status = reread (cv_status (snd e)), cv_timestamp = cv_timestamp (snd e)\<rparr> = snd e"
        by (simp add: restored_reread)
      with stale True have "\<not> stale_or_excluded (now - cv_timestamp (snd e)) max_age excluder (snd e)"
        by metis
      then have "load_rows checks h parse_uri now max_age excluder (cache_store (e # entries)) c =
          load_rows checks h parse_uri now max_age excluder (cache_store entries) (c(fst e \<mapsto> snd e))"
        using False time by (simp add: cache_store_def load_row_store [OF assms(1) e] u64_sub_def v case_prod_beta)
      also have "\<dots> = Value (Some (c ++ map_of (rev (filter (restored now max_age excluder) (e # entries)))))"
        using Cons.prems IH True by (cases e) (simp add: cache_store_def map_of_append map_add_upd_left)
      finally show ?thesis .
    next
      case False2: False
      with False time IH Cons.prems show ?thesis
        by (simp add: cache_store_def load_row_store [OF assms(1) e] u64_sub_def stale case_prod_beta)
    qed
  qed
qed (simp add: cache_store_def)

lemma map_of_filter_distinct:
  "distinct (map fst es) \<Longrightarrow> map_of (rev (filter P es)) u = Some v \<longleftrightarrow> (u, v) \<in> set es \<and> P (u, v)"
proof -
  assume "distinct (map fst es)"
  then have "distinct (map fst (rev (filter P es)))"
    by (simp add: rev_map [symmetric] distinct_map_filter)
  then show ?thesis by (auto simp: map_of_eq_Some_iff)
qed

section \<open>What the cache holds\<close>

definition cacheable :: "status_code set \<Rightarrow> uri \<Rightarrow> cache_value \<Rightarrow> bool" where
  "cacheable cache_exclude_status u v \<longleftrightarrow>
     \<not> is_file u \<and> cv_status v \<notin> {CacheExcluded, CacheUnsupported} \<and>
     (case cache_code (cv_status v) of Some c \<Rightarrow> c \<notin> cache_exclude_status | None \<Rightarrow> True)"

definition cache_ok :: "status_code set \<Rightarrow> cache \<Rightarrow> bool" where
  "cache_ok cache_exclude_status c \<longleftrightarrow> (\<forall>u v. c u = Some v \<longrightarrow> cacheable cache_exclude_status u v)"

lemma status_code_cached [simp]: "status_code_of (StCached s) = cache_code s"
proof (cases s)
  case (CacheError c)
  then show ?thesis by (cases c) simp_all
qed simp_all

lemma cache_code_of_status:
  "cache_code (cache_of_status st) = Some c \<Longrightarrow> status_code_of st = Some c"
  by (cases st rule: cache_of_status.cases)
    (auto simp: error_code_def reqwest_error_of_def split: error_kind.splits option.splits cache_status.splits)

lemma not_ignored_cacheable:
  assumes "\<not> should_ignore u st cache_exclude_status"
  shows "cacheable cache_exclude_status u (cache_value_of t st)"
proof -
  from assms have "\<not> is_file u" "\<not> is_excluded_status st" "\<not> is_unsupported st"
    and code: "\<And>c. status_code_of st = Some c \<Longrightarrow> c \<notin> cache_exclude_status"
    by (auto simp: should_ignore_def Let_def)
  moreover from this have "cache_of_status st \<notin> {CacheExcluded, CacheUnsupported}"
    by (cases st) (auto split: error_kind.splits option.splits cache_status.splits)
  ultimately show ?thesis
    using cache_code_of_status by (auto simp: cacheable_def cache_value_of_def split: option.split)
qed

text \<open>One request through the cache, with the response its check would have.\<close>

definition cache_step ::
  "'w cache_client \<Rightarrow> status_code set \<Rightarrow> status_code set \<Rightarrow>
   u64 \<times> request \<times> (request \<Rightarrow> 'w \<Rightarrow> response \<times> 'w) \<Rightarrow> cache \<times> 'w \<Rightarrow> cache \<times> 'w" where
  "cache_step client cache_exclude_status accept op s =
     (case (op, s) of ((t, request, check), c, w) \<Rightarrow>
        snd (cache_handle client cache_exclude_status accept t request check c w))"

lemma cache_handle_ok:
  "cache_ok ex c \<Longrightarrow> cache_ok ex (fst (snd (cache_handle client ex accept t request check c w)))"
  by (auto simp: cache_handle_def Let_def cache_ok_def not_ignored_cacheable
      split: prod.split option.split sum.split)

interpretation cache: kept_by_steps "cache_step client ex accept" "\<lambda>s. cache_ok ex (fst s)"
  for client ex accept
  by unfold_locales (auto simp: cache_step_def cache_handle_ok split: prod.split)

lemma cache_handle_miss:
  assumes "cc_remap client (rq_uri request) = Inr (key, remap)" "c key = None"
  shows "cache_handle client ex accept t request check c w =
    (case check request w of (response, w') \<Rightarrow>
      (response, if should_ignore key (r_status response) ex then c
         else c(key \<mapsto> cache_value_of t (r_status response)), w'))"
  using assms by (simp add: cache_handle_def Let_def split: prod.split)

lemma cache_handle_hit:
  assumes "cc_remap client (rq_uri request) = Inr (key, remap)" "c key = Some v"
    "\<not> cc_is_excluded client key"
  shows "cache_handle client ex accept t request check c w =
    (response_new key (from_cache_status (cv_status v) accept) None None
       (input_source_of (rq_source request)) (rq_span request) None, c, cc_record_hit client key w)"
  using assms by (simp add: cache_handle_def cache_hit_def Let_def)

text \<open>What a status becomes when it comes back from the cache.\<close>

definition remembered :: "status \<Rightarrow> outcome" where
  "remembered st = (case st of
     StTimeout _ \<Rightarrow> Failed | StUnknownMailStatus _ \<Rightarrow> Failed | _ \<Rightarrow> outcome_of st)"

lemma outcome_of_cached:
  assumes "\<not> is_excluded_status st" "\<not> is_unsupported st" "\<not> is_unknown st"
    and "\<And>c. cache_of_status st = CacheError (Some c) \<Longrightarrow> c \<notin> accept"
  shows "outcome_of (from_cache_status (cache_of_status st) accept) = remembered st"
proof -
  have "outcome_of (from_cache_status (CacheError c) accept) = Failed" if "cache_of_status st = CacheError c" for c
    using that assms(4) by (cases c) (simp_all add: from_cache_status_def)
  with assms(1-3) show ?thesis
    by (cases st) (auto simp: from_cache_status_def remembered_def
        split: error_kind.splits option.splits cache_status.splits)
qed

section \<open>Properties\<close>

text \<open>C25: Storing a cache and loading it back restores exactly the entries that are younger than the
  largest age, whose code the exclusion does not select, and which are a success code in the 200s
  (or an old entry for an excluded or unsupported link): an entry for any other code that the run
  accepted is written, but read as an error and dropped.\<close>

theorem cache_store_load:
  assumes "http_documented h" and "distinct (map fst entries)"
    and "\<forall>e \<in> set entries. storable parse_uri now e"
  shows "\<exists>c. cache_load checks h parse_uri now max_age excluder (cache_store entries) = Value (Some c) \<and>
    (\<forall>u v. c u = Some v \<longleftrightarrow> (u, v) \<in> set entries \<and> now - cv_timestamp v < max_age \<and>
       (case cv_status v of
          CacheOk code \<Rightarrow> 200 \<le> code \<and> code < 300 \<and> \<not> sel_contains excluder code
        | CacheError _ \<Rightarrow> False
        | _ \<Rightarrow> True))"
  using load_rows_store [OF assms(1,3), of checks max_age excluder Map.empty]
    map_of_filter_distinct [OF assms(2)]
  by (auto simp: cache_load_def restored_def)

theorem cache_store_load_witness:
  "let a = domain_url ''https'' ''a.org'' ''/''; b = domain_url ''https'' ''b.org'' ''/'' in
   \<exists>c. cache_load True http_std [url_str a \<mapsto> a, url_str b \<mapsto> b] 100 60 []
       (cache_store [(a, \<lparr>cv_status = CacheOk 200, cv_timestamp = 90\<rparr>),
                     (b, \<lparr>cv_status = CacheOk 403, cv_timestamp = 90\<rparr>)]) = Value (Some c) \<and>
     c a = Some \<lparr>cv_status = CacheOk 200, cv_timestamp = 90\<rparr> \<and> c b = None"
proof -
  let ?a = "domain_url ''https'' ''a.org'' ''/''" and ?b = "domain_url ''https'' ''b.org'' ''/''"
  let ?es = "[(?a, \<lparr>cv_status = CacheOk 200, cv_timestamp = 90\<rparr>),
              (?b, \<lparr>cv_status = CacheOk 403, cv_timestamp = 90\<rparr>)]"
  have ab: "?a \<noteq> ?b" "url_str ?a \<noteq> url_str ?b" by (simp_all add: domain_url_def)
  have "\<forall>e \<in> set ?es. storable [url_str ?a \<mapsto> ?a, url_str ?b \<mapsto> ?b] 100 e" "distinct (map fst ?es)"
    using ab by (simp_all add: storable_def valid_code_def)
  from cache_store_load [OF http_std_documented this(2,1), of True 60 "[]"] obtain c where
    c: "cache_load True http_std [url_str ?a \<mapsto> ?a, url_str ?b \<mapsto> ?b] 100 60 [] (cache_store ?es) = Value (Some c)"
    and spec: "\<forall>u v. c u = Some v \<longleftrightarrow> (u, v) \<in> set ?es \<and> 100 - cv_timestamp v < 60 \<and>
       (case cv_status v of CacheOk code \<Rightarrow> 200 \<le> code \<and> code < 300 \<and> \<not> sel_contains [] code
        | CacheError _ \<Rightarrow> False | _ \<Rightarrow> True)" by blast
  have "c ?a = Some \<lparr>cv_status = CacheOk 200, cv_timestamp = 90\<rparr>"
    unfolding spec [rule_format] by (simp add: sel_contains_def)
  moreover have "c ?b = None"
  proof (cases "c ?b")
    case (Some v)
    then have "(?b, v) \<in> set ?es \<and> (case cv_status v of CacheOk code \<Rightarrow> 200 \<le> code \<and> code < 300
        | CacheError _ \<Rightarrow> False | _ \<Rightarrow> True)"
      unfolding spec [rule_format] by (auto split: cache_status.splits)
    with ab show ?thesis by auto
  qed
  ultimately show ?thesis using c by (auto simp: Let_def)
qed

text \<open>However requests are checked through the cache, it holds no entry for a file, for an
  excluded or unsupported link, or for a status code that is excluded from caching.\<close>

theorem cache_holds_cacheable:
  assumes "cache_ok ex c" and "(c', w') = fold (cache_step client ex accept) requests (c, w)"
    and "c' u = Some v"
  shows "\<not> is_file u \<and> cv_status v \<notin> {CacheExcluded, CacheUnsupported} \<and>
    (\<forall>code. cache_code (cv_status v) = Some code \<longrightarrow> code \<notin> ex)"
proof -
  from cache.run_keeps [where s = "(c, w)" and ex = ex, of client accept requests] assms(1)
  have "cache_ok ex (fst (fold (cache_step client ex accept) requests (c, w)))" by simp
  with assms(2,3) have "cacheable ex u v" by (metis cache_ok_def fst_conv)
  then show ?thesis by (auto simp: cacheable_def)
qed

text \<open>C21: Once a link was checked and its status may be cached, a later request for the same
  (remapped) URI is answered from the cache without a check, and counts as successful or failed
  like the first; but a timeout and an unknown mail status come back as errors.\<close>

theorem repeated_link_outcome:
  assumes "cc_remap client (rq_uri request) = Inr (key, remap)"
    and "cc_remap client (rq_uri request') = Inr (key, remap')"
    and "\<not> cc_is_excluded client key" and "c key = None"
    and "check request w = (response, w1)"
    and "\<not> should_ignore key (r_status response) ex"
    and "\<And>code. cache_of_status (r_status response) = CacheError (Some code) \<Longrightarrow> code \<notin> accept"
    and "cache_handle client ex accept t request check c w = (first, c1, w1)"
    and "cache_handle client ex accept t' request' check' c1 w2 = (second, c2, w3)"
  shows "first = response \<and> c2 = c1 \<and> w3 = cc_record_hit client key w2 \<and>
    rb_uri (r_body second) = key \<and> is_cached (r_status second) \<and>
    outcome_of (r_status second) =
      (if is_timeout (r_status first) \<or> (\<exists>m. r_status first = StUnknownMailStatus m) then Failed
       else outcome_of (r_status first))"
proof -
  let ?st = "r_status response"
  have c1: "first = response" "c1 = c(key \<mapsto> cache_value_of t ?st)"
    using assms(4-6,8) cache_handle_miss [where c = c, OF assms(1,4), of ex accept t check w] by auto
  then have hit: "c1 key = Some (cache_value_of t ?st)" by simp
  from cache_handle_hit [where c = c1, OF assms(2) hit assms(3), of ex accept t' check' w2] assms(9)
  have second: "second = response_new key (from_cache_status (cache_of_status ?st) accept) None None
      (input_source_of (rq_source request')) (rq_span request') None" "c2 = c1"
    "w3 = cc_record_hit client key w2"
    by (simp_all add: cache_value_of_def)
  from assms(6) have "\<not> is_excluded_status ?st" "\<not> is_unsupported ?st" "\<not> is_unknown ?st"
    by (auto simp: should_ignore_def Let_def)
  from outcome_of_cached [OF this assms(7)]
  have "outcome_of (from_cache_status (cache_of_status ?st) accept) = remembered ?st" by simp
  moreover have "remembered ?st = (if is_timeout ?st \<or> (\<exists>m. ?st = StUnknownMailStatus m) then Failed
      else outcome_of ?st)"
    by (cases ?st) (simp_all add: remembered_def)
  moreover have "is_cached (from_cache_status s accept)" for s
    by (cases s) (auto simp: from_cache_status_def split: option.splits)
  ultimately show ?thesis using c1 second by (simp add: response_new_def)
qed

text \<open>C7: With accepted timeouts, a run in which a link timed out succeeds, but the same run fails as
  soon as the link occurs a second time and is answered from the cache.\<close>

theorem repeated_timeout_fails_run:
  assumes "cc_remap client (rq_uri request) = Inr (key, remap)"
    and "\<not> cc_is_excluded client key" and "\<not> is_file key"
    and "check request w = (response, w1)" and "r_status response = StTimeout None"
    and "cache_handle client ex accept t request check Map.empty w = (first, c1, w1)"
    and "cache_handle client ex accept t' request check c1 w2 = (second, c2, w3)"
  shows "check_exit_code True (fold stats_add [first] stats_default) = Success \<and>
    check_exit_code True (fold stats_add [first, second] stats_default) = LinkCheckFailure"
proof -
  have "\<not> should_ignore key (r_status response) ex"
    using assms(3,5) by (simp add: should_ignore_def Let_def)
  then have first: "first = response" "c1 key = Some (cache_value_of t (StTimeout None))"
    using assms(4,5,6) cache_handle_miss [OF assms(1), where c = Map.empty and ex = ex and accept = accept
        and t = t and check = check and w = w] by auto
  have "second = response_new key (from_cache_status (cache_of_status (StTimeout None)) accept) None None
      (input_source_of (rq_source request)) (rq_span request) None"
    using cache_handle_hit [where c = c1, OF assms(1) first(2) assms(2), of ex accept t' check w2] assms(7)
    by (simp add: cache_value_of_def)
  then have "r_status second = StCached (CacheError None)"
    by (simp add: response_new_def from_cache_status_def)
  then show ?thesis
    using first(1) assms(5)
    by (simp add: check_exit_code_sources stats_add_sources stats_add_fields kept_outcome_def
        initial_view [of stats_default] del: sources.simps)
qed

text \<open>A client that remaps and excludes nothing, a request, and a check that times out.\<close>

definition plain_client :: "nat cache_client" where
  "plain_client = \<lparr>cc_remap = (\<lambda>u. Inr (u, None)), cc_is_excluded = (\<lambda>_. False),
     cc_record_hit = (\<lambda>_ n. n + 1)\<rparr>"

definition sample_request :: request where
  "sample_request = request_new (domain_url ''https'' ''a.org'' ''/'') ResolvedStdin"

definition check_with :: "status \<Rightarrow> request \<Rightarrow> nat \<Rightarrow> response \<times> nat" where
  "check_with st request w = (response_new (rq_uri request) st None None
     (input_source_of (rq_source request)) (rq_span request) None, w)"

lemma sample_facts:
  "cc_remap plain_client (rq_uri sample_request) = Inr (domain_url ''https'' ''a.org'' ''/'', None)"
  "\<not> cc_is_excluded plain_client u" "\<not> is_file (domain_url ''https'' ''a.org'' ''/'')"
  "r_status (fst (check_with st r w)) = st"
  by (simp_all add: plain_client_def sample_request_def request_new_def check_with_def response_new_def
      is_file_def domain_url_def)

theorem cache_holds_cacheable_witness:
  "\<exists>c w v. (c, w) = fold (cache_step plain_client {404} {200}) [(5, sample_request, check_with (StOk 200))] (Map.empty, 0) \<and>
     c (domain_url ''https'' ''a.org'' ''/'') = Some v \<and> cv_status v \<noteq> CacheExcluded"
proof -
  have ok: "cache_ok {404} Map.empty" by (simp add: cache_ok_def)
  obtain c w where s: "(c, w) = fold (cache_step plain_client {404} {200})
      [(5, sample_request, check_with (StOk 200))] (Map.empty, 0)" by (metis prod.collapse)
  then have "\<exists>v. c (domain_url ''https'' ''a.org'' ''/'') = Some v"
    by (auto simp: cache_step_def cache_handle_miss [where c = Map.empty, OF sample_facts(1) refl]
        check_with_def response_new_def should_ignore_def sample_facts)
  then obtain v where v: "c (domain_url ''https'' ''a.org'' ''/'') = Some v" by blast
  from cache_holds_cacheable [OF ok s v] s v show ?thesis by blast
qed

theorem repeated_link_outcome_witness:
  "\<exists>first c1 second c2.
     cache_handle plain_client {} {200} 5 sample_request (check_with (StOk 200)) Map.empty 0 = (first, c1, 0) \<and>
     cache_handle plain_client {} {200} 6 sample_request (check_with (StTimeout None)) c1 0 = (second, c2, 1) \<and>
     outcome_of (r_status second) = Passed"
proof -
  let ?key = "domain_url ''https'' ''a.org'' ''/''"
  obtain first c1 w1 where one: "cache_handle plain_client {} {200} 5 sample_request (check_with (StOk 200))
      Map.empty 0 = (first, c1, w1)" by (metis prod_cases3)
  obtain second c2 w3 where two: "cache_handle plain_client {} {200} 6 sample_request
      (check_with (StTimeout None)) c1 0 = (second, c2, w3)" by (metis prod_cases3)
  have w1: "w1 = 0" "check_with (StOk 200) sample_request 0 = (fst (check_with (StOk 200) sample_request 0), 0)"
    using one by (auto simp: cache_handle_def Let_def sample_facts check_with_def)
  have "\<not> should_ignore ?key (r_status (fst (check_with (StOk 200) sample_request 0))) {}"
    by (simp add: should_ignore_def sample_facts)
  from repeated_link_outcome [where c = Map.empty and accept = "{200}" and request = sample_request
      and request' = sample_request and client = plain_client and key = ?key and remap = None and remap' = None
      and check = "check_with (StOk 200)" and w = 0 and response = "fst (check_with (StOk 200) sample_request 0)"
      and ?w1.0 = 0 and ex = "{}", OF sample_facts(1,1,2) refl w1(2) this _ one [unfolded w1(1)] two]
  have "w3 = 1" "outcome_of (r_status second) = Passed"
    using one w1(1) by (simp_all add: sample_facts plain_client_def)
  with one two w1(1) show ?thesis by blast
qed

theorem repeated_timeout_fails_run_witness:
  "\<exists>first c1 second c2 w3.
     cache_handle plain_client {} {200} 5 sample_request (check_with (StTimeout None)) Map.empty 0 = (first, c1, 0) \<and>
     cache_handle plain_client {} {200} 6 sample_request (check_with (StTimeout None)) c1 0 = (second, c2, w3) \<and>
     check_exit_code True (fold stats_add [first, second] stats_default) = LinkCheckFailure"
proof -
  obtain first c1 w1 where one: "cache_handle plain_client {} {200} 5 sample_request
      (check_with (StTimeout None)) Map.empty 0 = (first, c1, w1)" by (metis prod_cases3)
  obtain second c2 w3 where two: "cache_handle plain_client {} {200} 6 sample_request
      (check_with (StTimeout None)) c1 0 = (second, c2, w3)" by (metis prod_cases3)
  have w1: "w1 = 0" "check_with (StTimeout None) sample_request 0 =
      (fst (check_with (StTimeout None) sample_request 0), 0)"
    using one by (auto simp: cache_handle_def Let_def sample_facts check_with_def)
  from repeated_timeout_fails_run [where request = sample_request and client = plain_client
      and key = "domain_url ''https'' ''a.org'' ''/''" and remap = None,
      OF sample_facts(1,2,3) w1(2) sample_facts(4) one [unfolded w1(1)] two]
  have "check_exit_code True (fold stats_add [first, second] stats_default) = LinkCheckFailure" by blast
  with one two w1(1) show ?thesis by blast
qed

end
