(* ===== verification/Client.thy ===== *)
theory Client
  imports Website FileChecker Requests Cache
begin

text \<open>
  The client (\<open>lychee-lib/src/client.rs\<close>): how a builder makes it, and the check of one request, which
  dispatches to the filter and to the checkers of files, mail addresses
  (\<open>lychee-lib/src/checker/mail.rs\<close>) and websites.
\<close>

section \<open>The client\<close>

text \<open>What mailify answers about an address.\<close>

datatype mail_result = MailSuccess | MailUncertain string | MailFailure string

text \<open>Without the feature \<open>email-check\<close> there is no mail client.\<close>

type_synonym 'w mail_client = "string \<Rightarrow> 'w \<Rightarrow> mail_result \<times> 'w"

record ('c, 'w) client =
  cl_remaps :: "remaps option"
  cl_filter :: uri_filter
  cl_website_checker :: "('c, 'w) website_checker"
  cl_file_checker :: file_checker
  cl_email_checker :: "'w mail_client option"

text \<open>The two checkers with a fragment cache have one each.\<close>

record ('c, 'w) client_state =
  cs_website :: "('c, 'w) website_state"
  cs_files :: fragment_cache

record ('c, 'w) client_env =
  ce_filter :: filter_env
  ce_website :: "('c, 'w) website_env"
  ce_base :: base_env
  ce_fs :: file_system

definition perform_email_check :: "'w mail_client \<Rightarrow> uri \<Rightarrow> 'w \<Rightarrow> status \<times> 'w" where
  "perform_email_check mail u w =
     (case mail (url_path u) w of
        (MailSuccess, w) \<Rightarrow> (StOk 200, w)
      | (MailUncertain reason, w) \<Rightarrow> (StUnknownMailStatus reason, w)
      | (MailFailure reason, w) \<Rightarrow> (status_of_error (UnreachableEmailAddress u reason), w))"

definition check_mail :: "'w mail_client option \<Rightarrow> uri \<Rightarrow> 'w \<Rightarrow> status \<times> 'w" where
  "check_mail checker u w =
     (case checker of None \<Rightarrow> (StExcluded, w) | Some mail \<Rightarrow> perform_email_check mail u w)"

definition client_is_excluded :: "('c, 'w) client_env \<Rightarrow> ('c, 'w) client \<Rightarrow> uri \<Rightarrow> bool" where
  "client_is_excluded ce cl u \<longleftrightarrow> filter_is_excluded (ce_filter ce) (cl_filter cl) u"

definition remap_of :: "('c, 'w) client_env \<Rightarrow> ('c, 'w) client \<Rightarrow> uri \<Rightarrow> error_kind + (uri \<times> remap option)" where
  "remap_of ce cl u = client_remap (fl_rx (ce_filter ce)) (fe_urls (we_fragments (ce_website ce))) (cl_remaps cl) u"

text \<open>The checker that a URI is dispatched to.\<close>

definition dispatch ::
  "('c, 'w) client_env \<Rightarrow> ('c, 'w) client \<Rightarrow> uri \<Rightarrow> credentials option \<Rightarrow> ('c, 'w) client_state \<Rightarrow>
   ((status \<times> redirects option) \<times> ('c, 'w) client_state) eval" where
  "dispatch ce cl u credentials st =
     (if client_is_excluded ce cl u then Value ((StExcluded, None), st)
      else if is_tel u then Value ((StExcluded, None), st)
      else if is_file u then
        eval_bind (file_check (ce_base ce) (we_fragments (ce_website ce)) (ce_fs ce) (cl_file_checker cl) u (cs_files st))
          (\<lambda>(status, cache). Value ((status, None), st\<lparr>cs_files := cache\<rparr>))
      else if is_mail u then
        (case check_mail (cl_email_checker cl) u (ws_world (cs_website st)) of
           (status, w) \<Rightarrow> Value ((status, None), st\<lparr>cs_website := (cs_website st)\<lparr>ws_world := w\<rparr>\<rparr>))
      else
        (case check_website (ce_website ce) (cl_website_checker cl) u credentials (cs_website st) of
           ((status, redirects), ws) \<Rightarrow> Value ((status, redirects), st\<lparr>cs_website := ws\<rparr>)))"

definition client_check ::
  "('c, 'w) client_env \<Rightarrow> ('c, 'w) client \<Rightarrow> nat \<Rightarrow> request \<Rightarrow> ('c, 'w) client_state \<Rightarrow>
   ((error_kind + response) \<times> ('c, 'w) client_state) eval" where
  "client_check ce cl elapsed request st =
     (case remap_of ce cl (rq_uri request) of
        Inl e \<Rightarrow> Value (Inl e, st)
      | Inr (u, remap) \<Rightarrow>
          eval_bind (dispatch ce cl u (rq_credentials request) st) (\<lambda>((status, redirects), st).
            Value (Inr (response_new u status redirects remap (input_source_of (rq_source request))
              (rq_span request) (Some elapsed)), st)))"

section \<open>Building a client\<close>

text \<open>
  The options of the builder.  The hosts are a map; they are listed in the order the map is iterated in.  The
  cookie jar is shared behind a lock with whoever loaded it, so that only its presence counts here.
\<close>

datatype reqwest_tls = TLS_1_0 | TLS_1_1 | TLS_1_2 | TLS_1_3

record ('c, 'w) client_builder =
  cb_remaps :: "remaps option"
  cb_base :: base_info
  cb_fallback_extensions :: "string list"
  cb_index_files :: "string list option"
  cb_includes :: "regex_filter option"
  cb_excludes :: "regex_filter option"
  cb_exclude_all_private :: bool
  cb_exclude_private_ips :: bool
  cb_exclude_link_local_ips :: bool
  cb_exclude_loopback_ips :: bool
  cb_include_mail :: bool
  cb_max_redirects :: nat
  cb_min_tls_version :: "reqwest_tls option"
  cb_allow_insecure :: bool
  cb_timeout :: "duration option"
  cb_cookie_jar :: bool
  cb_schemes :: "string set"
  cb_user_agent :: string
  cb_custom_headers :: "(string \<times> string) list"
  cb_method :: string
  cb_accepted :: "status_code set"
  cb_max_retries :: nat
  cb_retry_wait_time :: duration
  cb_require_https :: bool
  cb_github_token :: "string option"
  cb_fragment_options :: fragment_options
  cb_include_wikilinks :: bool
  cb_plugin_request_chain :: "(http_request, status, ('c, 'w) website_state) handler list"
  cb_rate_limit_config :: rate_limit_config
  cb_hosts :: "(host_key \<times> host_config) list"

text \<open>
  The crates behind it: \<open>HeaderValue::try_from\<close>, reqwest's client builder for the settings it is given one
  after the other, octocrab's builder, and mailify's client for a timeout (none without its feature).
\<close>

datatype client_option =
    Gzip bool
  | DefaultHeaders "(string \<times> string) list"
  | AcceptInvalidCerts bool
  | ConnectTimeout duration
  | TcpKeepalive duration
  | RedirectsUpTo nat
  | CookieProvider
  | MinTlsVersion reqwest_tls
  | TimeoutAfter duration

record ('c, 'w) builder_env =
  bd_header_error :: "string \<Rightarrow> string option"
  bd_build :: "client_option list \<Rightarrow> reqwest_error + 'c"
  bd_octocrab :: "string \<Rightarrow> octo_error + 'w github_client"
  bd_mail :: "duration option \<Rightarrow> 'w mail_client option"

text \<open>Extending a header map by another replaces the values of every name that the other has.\<close>

definition headers_extend ::
  "(string \<times> string) list \<Rightarrow> (string \<times> string) list \<Rightarrow> (string \<times> string) list" where
  "headers_extend self other = filter (\<lambda>(n, _). n \<notin> fst ` set other) self @ other"

definition default_headers ::
  "('c, 'w) builder_env \<Rightarrow> ('c, 'w) client_builder \<Rightarrow> error_kind + (string \<times> string) list" where
  "default_headers bd b =
     (case bd_header_error bd (cb_user_agent b) of
        Some e \<Rightarrow> Inl (InvalidHeader e)
      | None \<Rightarrow> Inr (headers_insert ''transfer-encoding'' ''chunked''
          (headers_insert ''user-agent'' (cb_user_agent b) (cb_custom_headers b))))"

text \<open>The limit on redirects is that of \<open>redirect_policy\<close>.\<close>

definition CONNECT_TIMEOUT :: duration where "CONNECT_TIMEOUT = from_secs 10"
definition TCP_KEEPALIVE :: duration where "TCP_KEEPALIVE = from_secs 60"

definition build_client ::
  "('c, 'w) builder_env \<Rightarrow> ('c, 'w) client_builder \<Rightarrow> error_kind + client_option list" where
  "build_client bd b =
     res_bind (default_headers bd b) (\<lambda>headers. Inr (
       [Gzip True, DefaultHeaders headers, AcceptInvalidCerts (cb_allow_insecure b),
        ConnectTimeout CONNECT_TIMEOUT, TcpKeepalive TCP_KEEPALIVE, RedirectsUpTo (cb_max_redirects b)] @
       (if cb_cookie_jar b then [CookieProvider] else []) @
       (case cb_min_tls_version b of Some min_tls \<Rightarrow> [MinTlsVersion min_tls] | None \<Rightarrow> []) @
       (case cb_timeout b of Some timeout \<Rightarrow> [TimeoutAfter timeout] | None \<Rightarrow> [])))"

text \<open>Collecting the clients into a map keeps the last of those with the same key.\<close>

definition build_host_clients ::
  "('c, 'w) builder_env \<Rightarrow> ('c, 'w) client_builder \<Rightarrow> error_kind + (host_key \<rightharpoonup> 'c)" where
  "build_host_clients bd b =
     res_bind (collect_results (map (\<lambda>(host, config).
         res_bind (default_headers bd b) (\<lambda>headers.
           res_bind (build_client bd b) (\<lambda>options.
           res_bind (map_err BuildRequestClient (bd_build bd (options @ [DefaultHeaders (headers_extend headers (hc_headers config))])))
             (\<lambda>client. Inr (key_of_str host, client))))) (cb_hosts b)))
       (\<lambda>clients. Inr (map_of (rev clients)))"

definition builder_filter :: "('c, 'w) client_builder \<Rightarrow> uri_filter" where
  "builder_filter b = \<lparr>f_includes = cb_includes b, f_excludes = cb_excludes b, f_schemes = cb_schemes b,
     f_exclude_private_ips = (cb_exclude_all_private b \<or> cb_exclude_private_ips b),
     f_exclude_link_local_ips = (cb_exclude_all_private b \<or> cb_exclude_link_local_ips b),
     f_exclude_loopback_ips = (cb_exclude_all_private b \<or> cb_exclude_loopback_ips b),
     f_include_mail = cb_include_mail b\<rparr>"

definition github_client_of ::
  "('c, 'w) builder_env \<Rightarrow> string option \<Rightarrow> error_kind + 'w github_client option" where
  "github_client_of bd github_token =
     (case github_token of
        Some token \<Rightarrow>
          if token \<noteq> [] then map_err BuildGithubClient (res_bind (bd_octocrab bd token) (\<lambda>c. Inr (Some c)))
          else Inr None
      | None \<Rightarrow> Inr None)"

text \<open>The client, with its pool of hosts.\<close>

definition builder_client ::
  "('c, 'w) builder_env \<Rightarrow> base_env \<Rightarrow> file_system \<Rightarrow> ('c, 'w) client_builder \<Rightarrow>
   error_kind + (('c, 'w) client \<times> 'c host_pool)" where
  "builder_client bd be fs b =
     res_bind (build_client bd b) (\<lambda>options.
     res_bind (map_err BuildRequestClient (bd_build bd options)) (\<lambda>reqwest_client.
     res_bind (build_host_clients bd b) (\<lambda>client_map.
     res_bind (github_client_of bd (cb_github_token b)) (\<lambda>github_client.
     res_bind (file_checker_new be fs (cb_base b) (cb_fallback_extensions b) (cb_index_files b)
         (cb_fragment_options b) (cb_include_wikilinks b)) (\<lambda>file_checker.
       Inr (\<lparr>cl_remaps = cb_remaps b, cl_filter = builder_filter b,
          cl_website_checker =
            \<lparr>wc_method = cb_method b, wc_github_client = github_client,
             wc_plugin_request_chain = cb_plugin_request_chain b, wc_max_retries = cb_max_retries b,
             wc_retry_wait_time = cb_retry_wait_time b, wc_accepted = cb_accepted b,
             wc_require_https = cb_require_https b, wc_fragment_options = cb_fragment_options b\<rparr>,
          cl_file_checker = file_checker, cl_email_checker = bd_mail bd (cb_timeout b)\<rparr>,
         host_pool_new (cb_rate_limit_config b) (map_of (cb_hosts b)) reqwest_client client_map))))))"

text \<open>What the link cache of the command line uses of a client.\<close>

definition cache_client_of :: "('c, 'w) client_env \<Rightarrow> ('c, 'w) client \<Rightarrow> ('c, 'w) client_state cache_client" where
  "cache_client_of ce cl = \<lparr>cc_remap = remap_of ce cl, cc_is_excluded = client_is_excluded ce cl,
     cc_record_hit = (\<lambda>u st. st\<lparr>cs_website := (cs_website st)\<lparr>ws_pool :=
       record_persistent_cache_hit (show_ip_of (ce_website ce)) u (ws_pool (cs_website st))\<rparr>\<rparr>)\<rparr>"

section \<open>What a check touches\<close>

lemma builder_client_fields:
  "builder_client bd be fs b = Inr (cl, pool) \<Longrightarrow>
   cl_remaps cl = cb_remaps b \<and> cl_filter cl = builder_filter b \<and> cl_email_checker cl = bd_mail bd (cb_timeout b) \<and>
   wc_accepted (cl_website_checker cl) = cb_accepted b"
  by (auto simp: builder_client_def res_bind_Inr_conv)

lemma dispatch_excluded:
  "client_is_excluded ce cl u \<or> is_tel u \<Longrightarrow> dispatch ce cl u c st = Value ((StExcluded, None), st)"
  by (auto simp: dispatch_def)

lemma dispatch_file_keeps_website:
  "is_file u \<Longrightarrow> dispatch ce cl u c st = Value (r, st') \<Longrightarrow> cs_website st' = cs_website st"
  by (auto simp: dispatch_def eval_bind_def split: if_splits eval.splits)

lemma dispatch_other_keeps_files:
  "\<not> is_file u \<Longrightarrow> dispatch ce cl u c st = Value (r, st') \<Longrightarrow> cs_files st' = cs_files st"
  by (auto simp: dispatch_def split: if_splits prod.splits)

lemma dispatch_mail_keeps_pool:
  "is_mail u \<Longrightarrow> \<not> is_file u \<Longrightarrow> dispatch ce cl u c st = Value (r, st') \<Longrightarrow>
   ws_pool (cs_website st') = ws_pool (cs_website st) \<and>
   ws_fragments (cs_website st') = ws_fragments (cs_website st)"
  by (auto simp: dispatch_def split: if_splits prod.splits)

lemma client_check_Value:
  "client_check ce cl elapsed request st = Value (res, st') \<Longrightarrow>
   (\<exists>e. remap_of ce cl (rq_uri request) = Inl e \<and> res = Inl e \<and> st' = st) \<or>
   (\<exists>u remap status redirects. remap_of ce cl (rq_uri request) = Inr (u, remap) \<and>
      dispatch ce cl u (rq_credentials request) st = Value ((status, redirects), st') \<and>
      res = Inr (response_new u status redirects remap (input_source_of (rq_source request))
        (rq_span request) (Some elapsed)))"
  by (auto simp: client_check_def eval_bind_def split: sum.splits eval.splits prod.splits)

text \<open>C2: A check touches the hosts, the web or the mail servers only for a URL that, after remapping, the
  filter lets through and that is neither a telephone number nor a local file, and the hosts only if it is
  no mail address either; files are looked at only for file URLs.  Where a response is given it is that of
  the remapped URL, with the source and the position of the request.\<close>

theorem only_admitted_links_contacted:
  assumes "client_check ce cl elapsed request st = Value (res, st')"
  shows "(cs_website st' \<noteq> cs_website st \<longrightarrow>
      (\<exists>u remap. remap_of ce cl (rq_uri request) = Inr (u, remap) \<and> \<not> client_is_excluded ce cl u \<and>
         \<not> is_tel u \<and> \<not> is_file u \<and>
         (ws_pool (cs_website st') \<noteq> ws_pool (cs_website st) \<longrightarrow> \<not> is_mail u))) \<and>
    (cs_files st' \<noteq> cs_files st \<longrightarrow>
      (\<exists>u remap. remap_of ce cl (rq_uri request) = Inr (u, remap) \<and> is_file u \<and> \<not> client_is_excluded ce cl u)) \<and>
    (\<forall>resp. res = Inr resp \<longrightarrow>
      (\<exists>remap. remap_of ce cl (rq_uri request) = Inr (rb_uri (r_body resp), remap) \<and> rb_remap (r_body resp) = remap) \<and>
      r_source resp = input_source_of (rq_source request) \<and> rb_span (r_body resp) = rq_span request)"
proof -
  consider e where "remap_of ce cl (rq_uri request) = Inl e" "res = Inl e" "st' = st"
    | u remap status redirects where "remap_of ce cl (rq_uri request) = Inr (u, remap)"
        "dispatch ce cl u (rq_credentials request) st = Value ((status, redirects), st')"
        "res = Inr (response_new u status redirects remap (input_source_of (rq_source request))
          (rq_span request) (Some elapsed))"
    using client_check_Value [OF assms] by blast
  then show ?thesis
  proof cases
    case 1
    then show ?thesis by simp
  next
    case 2
    have untouched: "st' = st" if "client_is_excluded ce cl u \<or> is_tel u"
      using dispatch_excluded [OF that] 2(2) by simp
    have website: "cs_website st' \<noteq> cs_website st \<Longrightarrow> \<not> client_is_excluded ce cl u \<and> \<not> is_tel u \<and> \<not> is_file u \<and>
        (ws_pool (cs_website st') \<noteq> ws_pool (cs_website st) \<longrightarrow> \<not> is_mail u)"
      using untouched dispatch_file_keeps_website [OF _ 2(2)] dispatch_mail_keeps_pool [OF _ _ 2(2)] by metis
    have files: "cs_files st' \<noteq> cs_files st \<Longrightarrow> is_file u \<and> \<not> client_is_excluded ce cl u"
      using untouched dispatch_other_keeps_files [OF _ 2(2)] by metis
    show ?thesis using website files 2(1) by (auto simp: 2(3) response_new_def)
  qed
qed

section \<open>Excluded addresses\<close>

lemma private_excluded:
  assumes "cb_exclude_all_private b"
    and "is_loopback u \<or> is_private (fl_net env) u \<or> is_link_local (fl_net env) u \<or> uri_domain u = Some ''localhost''"
  shows "filter_is_excluded env (builder_filter b) u"
  using assms by (auto simp: filter_is_excluded_def builder_filter_def is_ip_excluded_def is_host_excluded_def)

lemma excluded_response:
  assumes "remap_of ce cl (rq_uri request) = Inr (u, remap)" "client_is_excluded ce cl u"
  shows "client_check ce cl elapsed request st = Value (Inr (response_new u StExcluded None remap
      (input_source_of (rq_source request)) (rq_span request) (Some elapsed)), st)"
  by (simp add: client_check_def assms dispatch_excluded)

lemma excluded_through_cache:
  assumes "remap_of ce cl (rq_uri request) = Inr (u, remap)" "client_is_excluded ce cl u"
    and "\<And>w. check request w = (response_new u StExcluded None remap
      (input_source_of (rq_source request)) (rq_span request) (Some elapsed), w)"
  shows "\<exists>resp. cache_handle (cache_client_of ce cl) ex accept t request check c st = (resp, c, st) \<and>
    r_status resp = StExcluded \<and> rb_uri (r_body resp) = u"
  by (cases "c u") (simp_all add: cache_handle_def cache_client_of_def assms cache_hit_def response_new_def
      should_ignore_def)

text \<open>C1: With a client built to exclude all private addresses, a link whose remapped URL has a loopback,
  private or link-local address or the host \<open>localhost\<close> is reported as excluded whatever the patterns
  and the link cache hold: no state of the client changes, the cache stays as it is, and the run
  succeeds.\<close>

theorem private_addresses_never_contacted:
  assumes "builder_client bd be fs b = Inr (cl, pool)" "cb_exclude_all_private b"
    and "remap_of ce cl (rq_uri request) = Inr (u, remap)"
    and "is_loopback u \<or> is_private (fl_net (ce_filter ce)) u \<or> is_link_local (fl_net (ce_filter ce)) u \<or>
      uri_domain u = Some ''localhost''"
    and "\<And>w. client_check ce cl elapsed request w =
      Value (Inr (fst (check request w)), snd (check request w))"
  shows "\<exists>resp. cache_handle (cache_client_of ce cl) ex accept t request check c st = (resp, c, st) \<and>
    r_status resp = StExcluded \<and> rb_uri (r_body resp) = u \<and>
    check_exit_code accept_timeouts (stats_add resp stats_default) = Success"
proof -
  have "cl_filter cl = builder_filter b" using builder_client_fields [OF assms(1)] by blast
  then have excluded: "client_is_excluded ce cl u"
    using private_excluded [OF assms(2)] assms(4) by (simp add: client_is_excluded_def)
  have "check request w = (response_new u StExcluded None remap
      (input_source_of (rq_source request)) (rq_span request) (Some elapsed), w)" for w
    using assms(5) [of w] excluded_response [OF assms(3) excluded, of elapsed w]
    by (metis eval.inject prod.collapse prod.inject sum.inject(2))
  from excluded_through_cache [where check = check, OF assms(3) excluded this]
  obtain resp where resp: "cache_handle (cache_client_of ce cl) ex accept t request check c st = (resp, c, st)"
    "r_status resp = StExcluded" "rb_uri (r_body resp) = u" by blast
  have "check_exit_code accept_timeouts (stats_add resp stats_default) = Success"
    using initial_view(2) [of stats_default]
    by (simp add: check_exit_code_sources stats_add_sources resp(2) del: sources.simps)
  with resp show ?thesis by blast
qed

section \<open>Headers\<close>

definition values_of :: "string \<Rightarrow> (string \<times> string) list \<Rightarrow> string list" where
  "values_of name headers = map snd (filter (\<lambda>(n, _). n = name) headers)"

lemma values_of_insert:
  "values_of name (headers_insert n v hs) = (if n = name then [v] else values_of name hs)"
  by (induction hs) (auto simp: values_of_def headers_insert_def)

lemma values_of_extend:
  "values_of name (headers_extend hs other) =
     (if name \<in> fst ` set other then values_of name other else values_of name hs)"
proof -
  have "filter (\<lambda>(n, _). n = name) other = []" if "name \<notin> fst ` set other"
    using that by (force simp: filter_empty_conv)
  then show ?thesis by (auto simp: values_of_def headers_extend_def filter_empty_conv conj_commute
      intro!: arg_cong [where f = "map snd"] filter_cong)
qed

text \<open>The client of a host is built with the headers of its configuration above the defaults, in which
  the chunked transfer encoding comes before the user agent of the options, and that before the custom
  headers: so a host may replace any header, also the user agent, and a custom user agent never counts.
  A bad user agent is the only error of the headers, and keeps any client from being built.\<close>

theorem header_precedence:
  assumes "build_host_clients bd b = Inr clients" and "(host, config) \<in> set (cb_hosts b)"
    and "distinct (map (key_of_str \<circ> fst) (cb_hosts b))"
  shows "\<exists>headers client. default_headers bd b = Inr headers \<and> clients (key_of_str host) = Some client \<and>
    (\<exists>options. build_client bd b = Inr options \<and>
      bd_build bd (options @ [DefaultHeaders (headers_extend headers (hc_headers config))]) = Inr client) \<and>
    values_of name (headers_extend headers (hc_headers config)) =
      (if name \<in> fst ` set (hc_headers config) then values_of name (hc_headers config)
       else if name = ''transfer-encoding'' then [''chunked'']
       else if name = ''user-agent'' then [cb_user_agent b]
       else values_of name (cb_custom_headers b))"
proof -
  define built where "built = (\<lambda>(host, config :: host_config). res_bind (default_headers bd b) (\<lambda>headers.
      res_bind (build_client bd b) (\<lambda>options.
      res_bind (map_err BuildRequestClient (bd_build bd (options @ [DefaultHeaders (headers_extend headers (hc_headers config))])))
        (\<lambda>client. Inr (key_of_str host, client)))))"
  obtain cs where cs: "map built (cb_hosts b) = map Inr cs" "clients = map_of (rev cs)"
    using assms(1) by (auto simp: build_host_clients_def built_def [symmetric] res_bind_Inr_conv
        collect_results_Inr_conv)
  then have pairs: "list_all2 (\<lambda>h c. built h = Inr c) (cb_hosts b) cs"
    using map_eq_imp_length_eq [OF cs(1)] cs(1) by (auto simp: list_all2_conv_all_nth list_eq_iff_nth_eq)
  have key: "built h = Inr c \<Longrightarrow> fst c = key_of_str (fst h)" for h c
    by (cases h) (auto simp: built_def res_bind_Inr_conv)
  have "map fst cs = map (key_of_str \<circ> fst) (cb_hosts b)"
    using pairs by (induction rule: list_all2_induct) (auto simp: key)
  then have "distinct (map fst (rev cs))" using assms(3) by (simp add: rev_map [symmetric])
  moreover have "\<exists>c \<in> set cs. built (host, config) = Inr c"
    using pairs assms(2) by (induction rule: list_all2_induct) auto
  then obtain c where c: "c \<in> set cs" "built (host, config) = Inr c" by blast
  moreover have "c = (key_of_str host, snd c)" using key [OF c(2)] by (cases c) simp
  ultimately have "clients (key_of_str host) = Some (snd c)"
    unfolding cs(2) by (intro map_of_is_SomeI) simp_all
  moreover obtain headers where headers: "default_headers bd b = Inr headers"
      "\<exists>options. build_client bd b = Inr options \<and>
        bd_build bd (options @ [DefaultHeaders (headers_extend headers (hc_headers config))]) = Inr (snd c)"
    using c(2) by (auto simp: built_def res_bind_Inr_conv)
  moreover from headers(1) have "headers = headers_insert ''transfer-encoding'' ''chunked''
      (headers_insert ''user-agent'' (cb_user_agent b) (cb_custom_headers b))"
    by (auto simp: default_headers_def split: option.splits)
  ultimately show ?thesis by (auto simp: values_of_extend values_of_insert)
qed

section \<open>Instances\<close>

text \<open>A client with default options, a mail server that accepts every address, and no patterns.\<close>

definition sample_builder :: "(unit, nat) client_builder" where
  "sample_builder = \<lparr>cb_remaps = None, cb_base = BaseNone, cb_fallback_extensions = [], cb_index_files = None,
     cb_includes = None, cb_excludes = None, cb_exclude_all_private = True, cb_exclude_private_ips = False,
     cb_exclude_link_local_ips = False, cb_exclude_loopback_ips = False, cb_include_mail = True, cb_max_redirects = 10,
     cb_min_tls_version = None, cb_allow_insecure = False, cb_timeout = None, cb_cookie_jar = False, cb_schemes = {},
     cb_user_agent = ''lychee'', cb_custom_headers = [(''user-agent'', ''x''), (''accept'', ''y'')],
     cb_method = ''GET'', cb_accepted = {200}, cb_max_retries = 0, cb_retry_wait_time = 0,
     cb_require_https = False, cb_github_token = Some [],
     cb_fragment_options = \<lparr>check_anchor_fragments = False, check_text_fragments = False\<rparr>,
     cb_include_wikilinks = False, cb_plugin_request_chain = [],
     cb_rate_limit_config = rate_limit_from_options None None,
     cb_hosts = [(''A.org'', host_config_default\<lparr>hc_headers := [(''user-agent'', ''z'')]\<rparr>)]\<rparr>"

definition sample_builder_env :: "(unit, nat) builder_env" where
  "sample_builder_env = \<lparr>bd_header_error = Map.empty, bd_build = (\<lambda>_. Inr ()),
     bd_octocrab = (\<lambda>_. Inl \<lparr>oc_text = [], oc_kind = OctoOther\<rparr>), bd_mail = (\<lambda>_. Some (\<lambda>_ w. (MailSuccess, Suc w)))\<rparr>"

definition sample_client :: "(unit, nat) client" where
  "sample_client = fst (projr (builder_client sample_builder_env plain_base_env sample_fs sample_builder))"

definition sample_client_env :: "(unit, nat) client_env" where
  "sample_client_env = \<lparr>ce_filter = \<lparr>fl_rx = \<lparr>rx_error = Map.empty, rx_is_match = (\<lambda>p s. False),
       rx_replace_all = (\<lambda>p r s. s)\<rparr>, fl_net = ip_network_std, fl_check_example_domains = False\<rparr>,
     ce_website = sample_env 200, ce_base = plain_base_env, ce_fs = sample_fs\<rparr>"

definition sample_client_state :: "(unit, nat) client_state" where
  "sample_client_state = \<lparr>cs_website = sample_state, cs_files = Map.empty\<rparr>"

definition request_for :: "uri \<Rightarrow> request" where
  "request_for u = \<lparr>rq_uri = u, rq_source = ResolvedStdin, rq_element = None, rq_attribute = None,
     rq_span = None, rq_credentials = None\<rparr>"

definition loopback_url :: url where
  "loopback_url = (domain_url ''http'' ''127.0.0.1'' ''/'')\<lparr>url_host := Some (HostV4 0x7F000001)\<rparr>"

definition mail_url :: url where
  "mail_url = \<lparr>url_str = ''mailto:a@b.de'', url_scheme = ''mailto'', url_host = None, url_path = ''a@b.de'',
     url_segments = None, url_fragment = None\<rparr>"

lemma sample_built:
  "\<exists>pool. builder_client sample_builder_env plain_base_env sample_fs sample_builder = Inr (sample_client, pool)"
  by (simp add: sample_client_def builder_client_def build_client_def build_host_clients_def default_headers_def
      github_client_of_def file_checker_new_def sample_builder_env_def sample_builder_def)

lemma sample_client_fields:
  "cl_remaps sample_client = None" "cl_filter sample_client = builder_filter sample_builder"
  "cl_email_checker sample_client = Some (\<lambda>_ w. (MailSuccess, Suc w))"
  using sample_built builder_client_fields
  by (fastforce simp: sample_builder_def sample_builder_env_def)+

lemma sample_remap: "remap_of ce sample_client u = Inr (u, None)"
  by (simp add: remap_of_def client_remap_def sample_client_fields)

theorem private_addresses_never_contacted_witness:
  "\<exists>resp. cache_handle (cache_client_of sample_client_env sample_client) {} {} 0 (request_for loopback_url)
      (\<lambda>request w. (response_new loopback_url StExcluded None None Stdin None (Some 0), w)) Map.empty sample_client_state =
      (resp, Map.empty, sample_client_state) \<and>
    check_exit_code False (stats_add resp stats_default) = Success"
proof -
  obtain pool where built: "builder_client sample_builder_env plain_base_env sample_fs sample_builder =
      Inr (sample_client, pool)" using sample_built by blast
  have all_private: "cb_exclude_all_private sample_builder" by (simp add: sample_builder_def)
  have loopback: "is_loopback loopback_url"
    by (simp add: is_loopback_def loopback_url_def v4_is_loopback_def)
  then have "client_is_excluded sample_client_env sample_client loopback_url"
    by (simp add: client_is_excluded_def sample_client_fields private_excluded [OF all_private])
  then have "client_check sample_client_env sample_client 0 (request_for loopback_url) w =
      Value (Inr (response_new loopback_url StExcluded None None Stdin None (Some 0)), w)" for w
    by (subst excluded_response [OF sample_remap]) (simp_all add: request_for_def)
  with private_addresses_never_contacted [where request = "request_for loopback_url" and ce = sample_client_env
      and check = "\<lambda>request w. (response_new loopback_url StExcluded None None Stdin None (Some 0), w)"
      and ex = "{}" and accept = "{}" and t = 0 and c = Map.empty and st = sample_client_state
      and accept_timeouts = False, OF built all_private sample_remap] loopback
  show ?thesis by (fastforce simp: request_for_def)
qed

theorem only_admitted_links_contacted_witness:
  "\<exists>st. client_check sample_client_env sample_client 0 (request_for mail_url) sample_client_state =
      Value (Inr (response_new mail_url (StOk 200) None None Stdin None (Some 0)), st) \<and>
    cs_website st \<noteq> cs_website sample_client_state \<and>
    \<not> client_is_excluded sample_client_env sample_client mail_url"
proof -
  have "\<not> filter_is_excluded (ce_filter sample_client_env) (builder_filter sample_builder) mail_url"
    by (simp add: filter_is_excluded_def builder_filter_def sample_builder_def mail_url_def is_scheme_excluded_def
        is_host_excluded_def is_ip_excluded_def is_mail_excluded_def is_tel_def is_example_domain_def is_mail_def
        is_loopback_def is_private_def is_link_local_def is_unsupported_domain_def is_includes_empty_def
        is_excludes_empty_def is_false_positive_def filter_is_match_def sample_client_env_def EXAMPLE_DOMAINS_def
        suffix_def)
  then have "\<not> client_is_excluded sample_client_env sample_client mail_url"
    by (simp add: client_is_excluded_def sample_client_fields)
  then have check: "client_check sample_client_env sample_client 0 (request_for mail_url) sample_client_state =
      Value (Inr (response_new mail_url (StOk 200) None None Stdin None (Some 0)),
        sample_client_state\<lparr>cs_website := sample_state\<lparr>ws_world := 1\<rparr>\<rparr>)"
    by (simp add: client_check_def sample_remap request_for_def dispatch_def sample_client_fields check_mail_def
        perform_email_check_def is_tel_def is_file_def is_mail_def mail_url_def sample_client_state_def
        sample_state_def)
  have "cs_website (sample_client_state\<lparr>cs_website := sample_state\<lparr>ws_world := 1\<rparr>\<rparr>) \<noteq> cs_website sample_client_state"
    by (simp add: sample_client_state_def sample_state_def)
  with only_admitted_links_contacted [OF check] sample_remap [of sample_client_env mail_url] check
  show ?thesis by (auto simp: request_for_def)
qed

theorem header_precedence_witness:
  "\<exists>clients headers. build_host_clients sample_builder_env sample_builder = Inr clients \<and>
     default_headers sample_builder_env sample_builder = Inr headers \<and> clients ''a.org'' = Some () \<and>
     values_of ''user-agent'' (headers_extend headers [(''user-agent'', ''z'')]) = [''z''] \<and>
     values_of ''accept'' (headers_extend headers [(''user-agent'', ''z'')]) = [''y'']"
proof -
  let ?config = "host_config_default\<lparr>hc_headers := [(''user-agent'', ''z'')]\<rparr>"
  obtain clients where clients: "build_host_clients sample_builder_env sample_builder = Inr clients"
    by (simp add: build_host_clients_def build_client_def default_headers_def sample_builder_env_def
        sample_builder_def)
  have host: "(''A.org'', ?config) \<in> set (cb_hosts sample_builder)"
    "distinct (map (key_of_str \<circ> fst) (cb_hosts sample_builder))" by (simp_all add: sample_builder_def)
  have key: "key_of_str ''A.org'' = ''a.org''"
    by (simp add: key_of_str_def to_lowercase_def lower_char_def char_of_letters)
  have custom: "cb_custom_headers sample_builder = [(''user-agent'', ''x''), (''accept'', ''y'')]"
    by (simp add: sample_builder_def)
  show ?thesis
    using header_precedence [OF clients host, of "''user-agent''"] header_precedence [OF clients host, of "''accept''"]
      clients
    by (auto simp: key values_of_def custom)
qed

end
