(* ===== verification/Inputs.thy ===== *)
theory Inputs
  imports Client HostSteps
begin

text \<open>
  Reading the inputs: \<open>lychee-lib/src/types/input\<close> (\<open>source.rs\<close>, \<open>content.rs\<close>, \<open>input.rs\<close>,
  \<open>resolver.rs\<close>), the remote ones by \<open>lychee-lib/src/types/resolver.rs\<close>, and the files through the
  preprocessor of \<open>lychee-lib/src/types/preprocessor/mod.rs\<close>.

  A stream is the list of its items; an error that is propagated out of a \<open>try_stream\<close> is its last item.
\<close>

section \<open>Environment\<close>

text \<open>
  The crates glob, shellexpand and ignore, the standard input, listing a directory, and running a
  command on a path, which gives its success, its standard output and its standard error, each of them
  possibly not UTF-8.
\<close>

type_synonym command_output = "bool \<times> (string + string) \<times> (string + string)"

record input_env =
  ie_urls :: url_crate
  ie_rx :: regex_crate
  ie_fs :: file_system
  ie_glob_escape :: "string \<Rightarrow> string"
  ie_glob_error :: "string \<Rightarrow> (string \<times> nat) option"
  ie_glob :: "string \<Rightarrow> bool \<Rightarrow> bool \<Rightarrow> (string \<times> nat) + (string + path) list"
    \<comment> \<open>pattern, case sensitive, literal leading dot\<close>
  ie_tilde :: "string \<Rightarrow> string"
  ie_walk :: "path \<Rightarrow> (string \<times> string) list \<Rightarrow> bool \<Rightarrow> bool \<Rightarrow> string + (string + path \<times> fs_kind option) list"
    \<comment> \<open>globs by extension, skip hidden, skip ignored\<close>
  ie_read_dir :: "path \<Rightarrow> string option"
  ie_stdin :: "io_error + string"
  ie_run :: "string \<Rightarrow> path \<Rightarrow> string + command_output"

section \<open>Sources\<close>

definition STDIN :: string where "STDIN = ''-''"

definition input_source_new :: "input_env \<Rightarrow> string \<Rightarrow> bool \<Rightarrow> error_kind + input_source" where
  "input_source_new ie input glob_ignore_case =
     (if input = STDIN then Inr Stdin
      else (case parse_url_or_path (ie_urls ie) input of
          Inr url \<Rightarrow> Inr (RemoteUrl url)
        | Inl _ \<Rightarrow>
            if ie_glob_escape ie input \<noteq> input then
              (case ie_glob_error ie input of
                 Some (msg, pos) \<Rightarrow> Inl (InvalidGlobPattern msg pos)
               | None \<Rightarrow> Inr (FsGlob input glob_ignore_case))
            else if path_exists (ie_fs ie) (path_components input)
            then Inr (FsPath (path_components input))
            else Inl (InvalidInput input)))"

fun resolved_show :: "resolved_source \<Rightarrow> string" where
  "resolved_show (ResolvedUrl url) = url_str url"
| "resolved_show (ResolvedPath path) = path_show path"
| "resolved_show ResolvedStdin = ''stdin''"
| "resolved_show (ResolvedString s) = s"

fun source_show :: "input_source \<Rightarrow> string" where
  "source_show (RemoteUrl url) = url_str url"
| "source_show (FsGlob pattern _) = pattern"
| "source_show (FsPath path) = path_show path"
| "source_show Stdin = ''stdin''"
| "source_show (InputString s) = s"

lemma source_show_resolved: "source_show (input_source_of s) = resolved_show s"
  by (cases s) simp_all

record input_content =
  ic_source :: resolved_source
  ic_file_type :: file_type
  ic_content :: string

definition from_string :: "string \<Rightarrow> file_type \<Rightarrow> input_content" where
  "from_string s file_type = \<lparr>ic_source = ResolvedString s, ic_file_type = file_type, ic_content = s\<rparr>"

record input =
  in_source :: input_source
  in_file_type_hint :: "file_type option"

definition input_new :: "input_env \<Rightarrow> string \<Rightarrow> file_type option \<Rightarrow> bool \<Rightarrow> error_kind + input" where
  "input_new ie input file_type_hint glob_ignore_case =
     res_bind (input_source_new ie input glob_ignore_case) (\<lambda>source.
       Inr \<lparr>in_source = source, in_file_type_hint = file_type_hint\<rparr>)"

section \<open>Resolving a source\<close>

definition is_excluded_path :: "regex_crate \<Rightarrow> path \<Rightarrow> regex_filter \<Rightarrow> bool" where
  "is_excluded_path rx path excluded_paths \<longleftrightarrow> filter_is_match rx excluded_paths (path_show path)"

text \<open>The walk of a directory ends at its first error.\<close>

fun walked_sources ::
  "regex_crate \<Rightarrow> regex_filter \<Rightarrow> (string + path \<times> fs_kind option) list \<Rightarrow> (error_kind + resolved_source) list"
where
  "walked_sources rx excluded [] = []"
| "walked_sources rx excluded (Inl e # entries) = [Inl (DirTraversal e)]"
| "walked_sources rx excluded (Inr (path, kind) # entries) =
     (if is_excluded_path rx path excluded then walked_sources rx excluded entries
      else (case kind of
          Some FsFile \<Rightarrow> Inr (ResolvedPath path) # walked_sources rx excluded entries
        | _ \<Rightarrow> walked_sources rx excluded entries))"

text \<open>An entry of a glob that cannot be read is only printed.\<close>

fun globbed_sources ::
  "input_env \<Rightarrow> regex_filter \<Rightarrow> (string + path) list \<Rightarrow> (error_kind + resolved_source) list" where
  "globbed_sources ie excluded [] = []"
| "globbed_sources ie excluded (Inl e # entries) = globbed_sources ie excluded entries"
| "globbed_sources ie excluded (Inr path # entries) =
     (if path_is_dir (ie_fs ie) path \<or> is_excluded_path (ie_rx ie) path excluded
      then globbed_sources ie excluded entries
      else Inr (ResolvedPath path) # globbed_sources ie excluded entries)"

definition resolve_input ::
  "input_env \<Rightarrow> input \<Rightarrow> file_extensions \<Rightarrow> bool \<Rightarrow> bool \<Rightarrow> regex_filter \<Rightarrow> (error_kind + resolved_source) list"
where
  "resolve_input ie input extensions skip_hidden skip_ignored excluded_paths =
     (case in_source input of
        RemoteUrl url \<Rightarrow> [Inr (ResolvedUrl url)]
      | FsGlob pattern ignore_case \<Rightarrow>
          (case ie_glob ie (ie_tilde ie pattern) (\<not> ignore_case) skip_hidden of
             Inl (msg, pos) \<Rightarrow> [Inl (InvalidGlobPattern msg pos)]
           | Inr entries \<Rightarrow> globbed_sources ie excluded_paths entries)
      | FsPath path \<Rightarrow>
          if path_is_dir (ie_fs ie) path then
            (case ie_walk ie path (extension_globs skip_hidden extensions) skip_hidden skip_ignored of
               Inl e \<Rightarrow> [Inl (DirTraversal e)]
             | Inr entries \<Rightarrow> walked_sources (ie_rx ie) excluded_paths entries)
          else if is_excluded_path (ie_rx ie) path excluded_paths then []
          else [Inr (ResolvedPath path)]
      | Stdin \<Rightarrow> [Inr ResolvedStdin]
      | InputString s \<Rightarrow> [Inr (ResolvedString s)])"

definition get_sources ::
  "input_env \<Rightarrow> input \<Rightarrow> file_extensions \<Rightarrow> bool \<Rightarrow> bool \<Rightarrow> regex_filter \<Rightarrow> (error_kind + string) list" where
  "get_sources ie input extensions skip_hidden skip_ignored excluded_paths =
     map (map_sum id (\<lambda>src. case src of
          ResolvedPath path \<Rightarrow> path_show path
        | ResolvedUrl url \<Rightarrow> url_str url
        | ResolvedStdin \<Rightarrow> ''<stdin>''
        | ResolvedString _ \<Rightarrow> ''<raw string>''))
       (resolve_input ie input extensions skip_hidden skip_ignored excluded_paths)"

section \<open>Reading files and the standard input\<close>

type_synonym preprocessor = string

definition preprocess :: "input_env \<Rightarrow> preprocessor \<Rightarrow> path \<Rightarrow> error_kind + string" where
  "preprocess ie command path =
     (case ie_run ie command path of
        Inl e \<Rightarrow> Inl (PreprocessorError command (''could not start: '' @ e))
      | Inr (success, stdout, stderr) \<Rightarrow>
          if success then map_err Utf8 stdout
          else res_bind (map_err Utf8 stderr) (\<lambda>stderr.
            let stderr = trim_by is_whitespace stderr;
                stderr = (if stderr = [] then ''<empty stderr>'' else stderr)
            in Inl (PreprocessorError command (''exited with non-zero code: '' @ stderr))))"

definition get_content :: "input_env \<Rightarrow> preprocessor option \<Rightarrow> path \<Rightarrow> error_kind + string" where
  "get_content ie preprocessor path =
     (case preprocessor of
        Some pre \<Rightarrow> preprocess ie pre path
      | None \<Rightarrow> map_err (\<lambda>e. ReadFileInput e path) (fs_read (ie_fs ie) path))"

definition path_content :: "input_env \<Rightarrow> preprocessor option \<Rightarrow> path \<Rightarrow> error_kind + input_content" where
  "path_content ie preprocessor path =
     res_bind (get_content ie preprocessor path) (\<lambda>content.
       Inr \<lparr>ic_source = ResolvedPath path, ic_file_type = file_type_of (ie_urls ie) (path_show path),
         ic_content = content\<rparr>)"

text \<open>The default file type is plain text.\<close>

definition hinted_type :: "file_type option \<Rightarrow> file_type" where
  "hinted_type hint = (case hint of Some t \<Rightarrow> t | None \<Rightarrow> Plaintext)"

definition stdin_content :: "input_env \<Rightarrow> file_type option \<Rightarrow> error_kind + input_content" where
  "stdin_content ie hint =
     res_bind (map_err ReadStdinInput (ie_stdin ie)) (\<lambda>content.
       Inr \<lparr>ic_source = ResolvedStdin, ic_file_type = hinted_type hint, ic_content = content\<rparr>)"

definition string_content :: "string \<Rightarrow> file_type option \<Rightarrow> input_content" where
  "string_content s hint = from_string s (hinted_type hint)"

section \<open>Reading remote inputs\<close>

record url_resolver =
  ur_basic_auth_extractor :: "auth_extractor option"
  ur_headers :: "(string \<times> string) list"

text \<open>The request carries the headers of the resolver and the credentials for the URL.\<close>

definition resolver_build_request ::
  "('c, 'w) website_env \<Rightarrow> url_resolver \<Rightarrow> url \<Rightarrow> credentials option \<Rightarrow> 'c host_pool \<Rightarrow>
   (error_kind + http_request) \<times> 'c host_pool" where
  "resolver_build_request we ur url credentials pool =
     (case build_request (we_host we) (show_ip_of we) ''GET'' url pool of
        (Inl e, pool) \<Rightarrow> (Inl e, pool)
      | (Inr request, pool) \<Rightarrow>
          (let request = request\<lparr>hr_headers := headers_extend (hr_headers request) (ur_headers ur)\<rparr>
           in (Inr (with_credentials (we_basic we) credentials request), pool)))"

text \<open>The \<open>unreachable!\<close> for a response without a body panics.\<close>

definition url_contents ::
  "input_env \<Rightarrow> ('c, 'w) website_env \<Rightarrow> url_resolver \<Rightarrow> url \<Rightarrow> 'c host_pool \<times> 'w \<Rightarrow>
   ((error_kind + input_content) \<times> 'c host_pool \<times> 'w) eval" where
  "url_contents ie we ur url st =
     (let (pool, w) = st;
          file_type = (if url_path url = [] \<or> url_path url = ''/'' then Html
            else file_type_of (ie_urls ie) (url_str url));
          credentials = extract_credentials (ie_rx ie) (ur_basic_auth_extractor ur) url
      in case resolver_build_request we ur url credentials pool of
           (Inl e, pool) \<Rightarrow> Value (Inl e, pool, w)
         | (Inr request, pool) \<Rightarrow>
             (case pool_execute_request (we_host we) (show_ip_of we) request True pool w of
                (Inl e, pool, w, _) \<Rightarrow> Value (Inl e, pool, w)
              | (Inr response, pool, w, _) \<Rightarrow>
                  if \<not> code_is_success (he_http (we_host we)) (cb_status response)
                  then Value (Inl (ReadInputUrlStatusCode (cb_status response)), pool, w)
                  else (case cb_text response of
                      None \<Rightarrow> Panic
                    | Some content \<Rightarrow> Value (Inr \<lparr>ic_source = ResolvedUrl url, ic_file_type = file_type,
                        ic_content = content\<rparr>, pool, w))))"

section \<open>The contents of an input\<close>

record contents_options =
  co_skip_missing :: bool
  co_skip_hidden :: bool
  co_skip_ignored :: bool
  co_extensions :: file_extensions
  co_excluded_paths :: regex_filter
  co_preprocessor :: "preprocessor option"

definition is_invalid_data :: "error_kind \<Rightarrow> bool" where
  "is_invalid_data e \<longleftrightarrow> (case e of ReadFileInput io_err _ \<Rightarrow> io_kind_of io_err = InvalidData | _ \<Rightarrow> False)"

definition source_content ::
  "input_env \<Rightarrow> ('c, 'w) website_env \<Rightarrow> url_resolver \<Rightarrow> contents_options \<Rightarrow> file_type option \<Rightarrow> resolved_source \<Rightarrow>
   'c host_pool \<times> 'w \<Rightarrow> ((error_kind + input_content) \<times> 'c host_pool \<times> 'w) eval" where
  "source_content ie we ur co hint source st =
     (case source of
        ResolvedPath path \<Rightarrow> Value (path_content ie (co_preprocessor co) path, st)
      | ResolvedUrl url \<Rightarrow> url_contents ie we ur url st
      | ResolvedStdin \<Rightarrow> Value (stdin_content ie hint, st)
      | ResolvedString s \<Rightarrow> Value (Inr (string_content s hint), st))"

text \<open>The loop over the resolved sources of the input \<open>self\<close>.\<close>

fun sources_contents ::
  "input_env \<Rightarrow> ('c, 'w) website_env \<Rightarrow> url_resolver \<Rightarrow> contents_options \<Rightarrow> input \<Rightarrow>
   (error_kind + resolved_source) list \<Rightarrow> 'c host_pool \<times> 'w \<Rightarrow>
   ((request_error + input_content) list \<times> 'c host_pool \<times> 'w) eval" where
  "sources_contents ie we ur co self [] st = Value ([], st)"
| "sources_contents ie we ur co self (Inl e # results) st = Value ([Inl (GetInputContent (in_source self) e)], st)"
| "sources_contents ie we ur co self (Inr source # results) st =
     eval_bind (source_content ie we ur co (in_file_type_hint self) source st) (\<lambda>(result, st). case result of
        Inl e \<Rightarrow>
          if co_skip_missing co \<or> is_invalid_data e then sources_contents ie we ur co self results st
          else Value ([Inl (GetInputContent (in_source self) e)], st)
      | Inr content \<Rightarrow>
          eval_bind (sources_contents ie we ur co self results st) (\<lambda>(contents, st).
            Value (Inr content # contents, st)))"

definition path_readable :: "input_env \<Rightarrow> path \<Rightarrow> error_kind option" where
  "path_readable ie path =
     (if path_is_dir (ie_fs ie) path then map_option DirTraversal (ie_read_dir ie path)
      else (case fs_metadata (ie_fs ie) path of Inl e \<Rightarrow> Some (ReadFileInput e path) | Inr _ \<Rightarrow> None))"

definition get_contents ::
  "input_env \<Rightarrow> ('c, 'w) website_env \<Rightarrow> url_resolver \<Rightarrow> contents_options \<Rightarrow> input \<Rightarrow> 'c host_pool \<times> 'w \<Rightarrow>
   ((request_error + input_content) list \<times> 'c host_pool \<times> 'w) eval" where
  "get_contents ie we ur co self st =
     (let user_input_error = (\<lambda>e. Inl (UserInputContent (in_source self) e));
          resolved = sources_contents ie we ur co self (resolve_input ie self (co_extensions co)
            (co_skip_hidden co) (co_skip_ignored co) (co_excluded_paths co)) st
      in case in_source self of
           RemoteUrl url \<Rightarrow>
             eval_bind (url_contents ie we ur url st) (\<lambda>(result, st). case result of
                Inl e \<Rightarrow> if co_skip_missing co then Value ([], st) else Value ([user_input_error e], st)
              | Inr content \<Rightarrow> Value ([Inr content], st))
         | FsPath path \<Rightarrow>
             (case path_readable ie path of Some e \<Rightarrow> Value ([user_input_error e], st) | None \<Rightarrow> resolved)
         | Stdin \<Rightarrow>
             (case stdin_content ie (in_file_type_hint self) of
                Inl e \<Rightarrow> Value ([user_input_error e], st)
              | Inr content \<Rightarrow> Value ([Inr content], st))
         | InputString s \<Rightarrow> Value ([Inr (string_content s (in_file_type_hint self))], st)
         | FsGlob _ _ \<Rightarrow> resolved)"

section \<open>Reading an input never panics\<close>

text \<open>A request that needs the body is answered with a text, also from the cache.\<close>

lemma host_finish_text: "host_finish env u True raw host = (Inr r, host') \<Longrightarrow> cb_text r \<noteq> None"
  by (auto simp: host_finish_def dest: response_from_text split: sum.splits)

lemma host_execute_text:
  assumes "host_execute_request env request True host w = (Inr r, host', w', slept)"
  shows "cb_text r \<noteq> None"
proof (cases "get_cached_status (uc_set_fragment (he_urls env) None (hr_url request)) True host")
  case None
  with assms show ?thesis
    by (auto simp: host_execute_request_def perform_request_def Let_def dest: host_finish_text
        split: prod.splits sum.splits)
next
  case (Some cached)
  with assms have "r = cached" by (simp add: host_execute_request_def Let_def)
  with Some show ?thesis by (auto simp: get_cached_status_def split: option.splits if_splits)
qed

lemma pool_execute_text:
  "pool_execute_request env show_ip request True pool w = (Inr r, pool', w', slept) \<Longrightarrow> cb_text r \<noteq> None"
  by (auto simp: pool_execute_request_def dest: host_execute_text split: sum.splits prod.splits)

lemma url_contents_total: "url_contents ie we ur url st \<noteq> Panic"
  by (auto simp: url_contents_def Let_def dest: pool_execute_text split: prod.split sum.split option.split)

lemma source_content_total: "\<exists>result st'. source_content ie we ur co hint source st = Value (result, st')"
  using url_contents_total [of ie we ur _ st]
  by (cases source) (auto simp: source_content_def, metis eval.exhaust prod_cases3)

lemma sources_contents_total: "sources_contents ie we ur co self results st \<noteq> Panic"
proof (induction results arbitrary: st)
  case (Cons r results)
  show ?case
  proof (cases r)
    case (Inr source)
    obtain result st' where "source_content ie we ur co (in_file_type_hint self) source st = Value (result, st')"
      using source_content_total by blast
    with Cons [of st'] Inr show ?thesis by (auto simp: eval_bind_def split: sum.split eval.splits)
  qed simp
qed simp

text \<open>Getting the contents of an input never reaches the \<open>unreachable!\<close> of a response without a body:
  whatever the server, the cache of the host or the file system answer, the stream ends normally.
\<close>

theorem get_contents_never_panics: "get_contents ie we ur co self st \<noteq> Panic"
  using url_contents_total [of ie we ur _ st] sources_contents_total [of ie we ur co self _ st]
  by (auto simp: get_contents_def eval_bind_def Let_def split: input_source.split eval.split sum.split option.split prod.split)

section \<open>Errors and exclusions\<close>

text \<open>The contents are those of the resolved sources.\<close>

lemma source_content_path:
  "source_content ie we ur co hint source st = Value (Inr c, st') \<Longrightarrow> ic_source c = ResolvedPath path \<Longrightarrow>
   source = ResolvedPath path \<and> path_content ie (co_preprocessor co) path = Inr c"
  by (cases source) (auto simp: source_content_def path_content_def stdin_content_def string_content_def from_string_def
      url_contents_def Let_def res_bind_Inr_conv split: prod.splits sum.splits if_splits option.splits)

lemma sources_contents_path:
  assumes "sources_contents ie we ur co self results st = Value (items, st')"
    and "Inr c \<in> set items" "ic_source c = ResolvedPath path"
  shows "Inr (ResolvedPath path) \<in> set results \<and> path_content ie (co_preprocessor co) path = Inr c"
  using assms
proof (induction results arbitrary: st items)
  case (Cons r results)
  show ?case
  proof (cases r)
    case (Inr source)
    obtain result st1 where content:
        "source_content ie we ur co (in_file_type_hint self) source st = Value (result, st1)"
      using source_content_total by blast
    show ?thesis
    proof (cases result)
      case (Inl e)
      with Cons.prems content Inr have "sources_contents ie we ur co self results st1 = Value (items, st')"
        by (auto split: if_splits)
      from Cons.IH [OF this Cons.prems(2,3)] show ?thesis by simp
    next
      case first: (Inr c')
      with Cons.prems content Inr obtain items' where rest:
          "sources_contents ie we ur co self results st1 = Value (items', st')" "items = Inr c' # items'"
        by (auto simp: eval_bind_def split: eval.splits)
      show ?thesis
      proof (cases "c = c'")
        case True
        with content first Inr Cons.prems(3) source_content_path [of ie we ur co "in_file_type_hint self" source st c st1]
        show ?thesis by simp
      next
        case False
        with rest(2) Cons.prems(2) have "Inr c \<in> set items'" by simp
        from Cons.IH [OF rest(1) this Cons.prems(3)] show ?thesis by simp
      qed
    qed
  qed (use Cons.prems in auto)
qed auto

lemma walked_not_excluded:
  "Inr (ResolvedPath path) \<in> set (walked_sources rx excluded entries) \<Longrightarrow> \<not> is_excluded_path rx path excluded"
  by (induction rx excluded entries rule: walked_sources.induct) (auto split: if_splits option.splits fs_kind.splits)

lemma globbed_not_excluded:
  "Inr (ResolvedPath path) \<in> set (globbed_sources ie excluded entries) \<Longrightarrow>
   \<not> is_excluded_path (ie_rx ie) path excluded"
  by (induction ie excluded entries rule: globbed_sources.induct) (auto split: if_splits)

lemma resolved_not_excluded:
  "Inr (ResolvedPath path) \<in> set (resolve_input ie input extensions hidden ignored excluded) \<Longrightarrow>
   \<not> is_excluded_path (ie_rx ie) path excluded"
  by (auto simp: resolve_input_def dest: walked_not_excluded globbed_not_excluded
      split: input_source.splits sum.splits if_splits)

text \<open>C15: A file whose path an exclusion pattern matches is never read as an input, be it named by the user,
  matched by a glob or met in a directory: every content that comes from a file is what that file, or
  the preprocessor run on it, gave, and its path is one the patterns do not match.
\<close>

theorem excluded_paths_never_read:
  assumes "get_contents ie we ur co self st = Value (items, st')"
    and "Inr c \<in> set items" "ic_source c = ResolvedPath path"
  shows "\<not> filter_is_match (ie_rx ie) (co_excluded_paths co) (path_show path) \<and>
    get_content ie (co_preprocessor co) path = Inr (ic_content c)"
proof -
  let ?resolved = "resolve_input ie self (co_extensions co) (co_skip_hidden co) (co_skip_ignored co) (co_excluded_paths co)"
  have "sources_contents ie we ur co self ?resolved st = Value (items, st')"
  proof (cases "in_source self")
    case (RemoteUrl url)
    with assms show ?thesis
      by (auto simp: get_contents_def url_contents_def Let_def
          split: prod.splits sum.splits if_splits option.splits)
  qed (use assms in \<open>auto simp: get_contents_def Let_def stdin_content_def string_content_def from_string_def
      res_bind_Inr_conv split: option.splits sum.splits\<close>)
  from sources_contents_path [OF this assms(2,3)]
  have "Inr (ResolvedPath path) \<in> set ?resolved" "path_content ie (co_preprocessor co) path = Inr c" by auto
  with resolved_not_excluded [of path ie self] show ?thesis
    by (auto simp: is_excluded_path_def path_content_def res_bind_Inr_conv)
qed

text \<open>Directories, globs and paths resolve to files.\<close>

definition file_source :: "error_kind + resolved_source \<Rightarrow> bool" where
  "file_source r \<longleftrightarrow> (case r of Inr (ResolvedPath _) \<Rightarrow> True | Inl _ \<Rightarrow> True | _ \<Rightarrow> False)"

lemma walked_files: "r \<in> set (walked_sources rx excluded entries) \<Longrightarrow> file_source r"
  by (induction rx excluded entries rule: walked_sources.induct)
    (auto simp: file_source_def split: if_splits option.splits fs_kind.splits)

lemma globbed_files: "r \<in> set (globbed_sources ie excluded entries) \<Longrightarrow> file_source r"
  by (induction ie excluded entries rule: globbed_sources.induct) (auto simp: file_source_def split: if_splits)

lemma resolved_files:
  "(\<exists>path. in_source input = FsPath path) \<or> (\<exists>pattern b. in_source input = FsGlob pattern b) \<Longrightarrow>
   list_all file_source (resolve_input ie input extensions hidden ignored excluded)"
  by (auto simp: resolve_input_def list_all_iff file_source_def [of "Inl e" for e]
      file_source_def [of "Inr (ResolvedPath p)" for p] dest: walked_files globbed_files
      split: input_source.splits sum.splits)

text \<open>
  What reading one of these sources gives: a content, an error that ends the stream, or neither where it is
  passed over.
\<close>

definition source_error :: "input_env \<Rightarrow> contents_options \<Rightarrow> error_kind + resolved_source \<Rightarrow> error_kind option" where
  "source_error ie co r =
     (case r of
        Inl e \<Rightarrow> Some e
      | Inr (ResolvedPath path) \<Rightarrow>
          (case path_content ie (co_preprocessor co) path of
             Inl e \<Rightarrow> if co_skip_missing co \<or> is_invalid_data e then None else Some e
           | Inr _ \<Rightarrow> None)
      | _ \<Rightarrow> None)"

definition source_read :: "input_env \<Rightarrow> contents_options \<Rightarrow> error_kind + resolved_source \<Rightarrow> input_content option" where
  "source_read ie co r =
     (case r of
        Inr (ResolvedPath path) \<Rightarrow> (case path_content ie (co_preprocessor co) path of Inl _ \<Rightarrow> None | Inr c \<Rightarrow> Some c)
      | _ \<Rightarrow> None)"

definition source_fine :: "input_env \<Rightarrow> contents_options \<Rightarrow> error_kind + resolved_source \<Rightarrow> bool" where
  "source_fine ie co r \<longleftrightarrow> source_error ie co r = None"

lemma file_sources_contents:
  assumes "list_all file_source results"
  shows "sources_contents ie we ur co self results st =
    Value (map Inr (List.map_filter (source_read ie co) (takeWhile (source_fine ie co) results)) @
      (case dropWhile (source_fine ie co) results of
         [] \<Rightarrow> []
       | r # _ \<Rightarrow> [Inl (GetInputContent (in_source self) (the (source_error ie co r)))]), st)"
  using assms
proof (induction results)
  case (Cons r results)
  show ?case
  proof (cases r)
    case (Inl e)
    then show ?thesis by (simp add: source_fine_def source_error_def map_filter_simps)
  next
    case (Inr source)
    with Cons.prems obtain path where path: "source = ResolvedPath path"
      by (auto simp: file_source_def split: resolved_source.splits)
    with Cons Inr show ?thesis
      by (cases "path_content ie (co_preprocessor co) path")
        (simp_all add: source_content_def source_fine_def source_error_def source_read_def map_filter_simps)
  qed
qed (simp add: map_filter_simps)

text \<open>The first failing source, by position.\<close>

lemma first_dropped:
  "(\<exists>rest. dropWhile P xs = x # rest) \<longleftrightarrow> (\<exists>before after. xs = before @ x # after \<and> (\<forall>y \<in> set before. P y) \<and> \<not> P x)"
proof
  assume "\<exists>rest. dropWhile P xs = x # rest"
  then obtain rest where rest: "dropWhile P xs = x # rest" by blast
  have "xs = takeWhile P xs @ x # rest" by (metis rest takeWhile_dropWhile_id)
  moreover have "\<not> P x" using rest by (simp add: dropWhile_eq_Cons_conv)
  ultimately show "\<exists>before after. xs = before @ x # after \<and> (\<forall>y \<in> set before. P y) \<and> \<not> P x"
    by (metis set_takeWhileD)
qed auto

lemma in_first: "x \<in> set (case xs of [] \<Rightarrow> [] | y # _ \<Rightarrow> [f y]) \<longleftrightarrow> (\<exists>y. (\<exists>rest. xs = y # rest) \<and> x = f y)"
  by (cases xs) auto

text \<open>C16: The errors of an input tell where they come from.  Its stream ends at the first error.  An error of
  the user's is there, and is then its only item, exactly if the path the user names cannot be read, also under
  \<open>skip_missing\<close>, if the standard input cannot be read, also then, or if the remote input cannot be fetched and
  \<open>skip_missing\<close> is not set.  An error met later is there exactly if among the files that a path or a glob of the
  user leads to the walk fails or, unless under \<open>skip_missing\<close>, a file cannot be read for another reason than
  that it is no text, and it is that of the first such; the contents before it are those of the files read until
  then, none left out, and without an error all of them.
\<close>

theorem input_errors_by_origin:
  assumes "get_contents ie we ur co self st = Value (items, st')"
  defines "results \<equiv> resolve_input ie self (co_extensions co) (co_skip_hidden co) (co_skip_ignored co) (co_excluded_paths co)"
  shows "(\<exists>contents last. items = map Inr contents @ last \<and> length last \<le> 1 \<and>
      (\<forall>x \<in> set last. \<exists>e. x = Inl (UserInputContent (in_source self) e) \<and> contents = [] \<or>
         x = Inl (GetInputContent (in_source self) e))) \<and>
    (\<forall>e. Inl (UserInputContent (in_source self) e) \<in> set items \<longleftrightarrow>
      (\<exists>path. in_source self = FsPath path \<and> path_readable ie path = Some e) \<or>
      in_source self = Stdin \<and> stdin_content ie (in_file_type_hint self) = Inl e \<or>
      (\<exists>url. in_source self = RemoteUrl url \<and> url_contents ie we ur url st = Value (Inl e, st') \<and> \<not> co_skip_missing co)) \<and>
    (\<forall>e. Inl (GetInputContent (in_source self) e) \<in> set items \<longleftrightarrow>
      ((\<exists>path. in_source self = FsPath path \<and> path_readable ie path = None) \<or> (\<exists>pattern b. in_source self = FsGlob pattern b)) \<and>
      (\<exists>before r after. results = before @ r # after \<and> (\<forall>q \<in> set before. source_error ie co q = None) \<and>
         source_error ie co r = Some e)) \<and>
    ((\<exists>path. in_source self = FsPath path \<and> path_readable ie path = None) \<or> (\<exists>pattern b. in_source self = FsGlob pattern b) \<longrightarrow>
      [c. Inr c \<leftarrow> items] = List.map_filter (source_read ie co) (takeWhile (\<lambda>r. source_error ie co r = None) results))"
proof (cases "(\<exists>path. in_source self = FsPath path \<and> path_readable ie path = None) \<or> (\<exists>pattern b. in_source self = FsGlob pattern b)")
  case True
  then have files: "list_all file_source results" unfolding results_def by (intro resolved_files) auto
  let ?contents = "List.map_filter (source_read ie co) (takeWhile (source_fine ie co) results)"
  define last where "last = (case dropWhile (source_fine ie co) results of [] \<Rightarrow> []
    | r # _ \<Rightarrow> [Inl (GetInputContent (in_source self) (the (source_error ie co r))) :: request_error + input_content])"
  have items: "items = map Inr ?contents @ last"
    using assms(1) True file_sources_contents [OF files, of ie we ur co self st]
    by (auto simp: get_contents_def last_def simp flip: results_def)
  have last_items: "x \<in> set last \<longleftrightarrow> (\<exists>e before r after. x = Inl (GetInputContent (in_source self) e) \<and>
      results = before @ r # after \<and> (\<forall>q \<in> set before. source_error ie co q = None) \<and> source_error ie co r = Some e)" for x
  proof -
    have "x \<in> set last \<longleftrightarrow> (\<exists>r. (\<exists>rest. dropWhile (source_fine ie co) results = r # rest) \<and>
        x = Inl (GetInputContent (in_source self) (the (source_error ie co r))))"
      unfolding last_def by (rule in_first)
    also have "\<dots> \<longleftrightarrow> (\<exists>r. (\<exists>before after. results = before @ r # after \<and> (\<forall>q \<in> set before. source_fine ie co q) \<and>
        \<not> source_fine ie co r) \<and> x = Inl (GetInputContent (in_source self) (the (source_error ie co r))))"
      by (simp only: first_dropped)
    finally show ?thesis unfolding source_fine_def by (metis option.exhaust_sel option.sel option.distinct(1))
  qed
  have fine: "(\<lambda>r. source_error ie co r = None) = source_fine ie co" by (simp add: source_fine_def fun_eq_iff)
  have "length last \<le> 1" by (simp add: last_def split: list.split)
  with items last_items have "\<exists>contents last. items = map Inr contents @ last \<and> length last \<le> 1 \<and>
      (\<forall>x \<in> set last. \<exists>e. x = Inl (UserInputContent (in_source self) e) \<and> contents = [] \<or>
         x = Inl (GetInputContent (in_source self) e))"
    by (intro exI [of _ ?contents] exI [of _ last]) blast
  moreover have "Inl (UserInputContent (in_source self) e) \<notin> set items" for e
    using last_items by (auto simp: items)
  moreover have "Inl x \<in> set items \<longleftrightarrow> Inl x \<in> set last" for x by (auto simp: items)
  moreover have "[c. Inr c \<leftarrow> items] = ?contents"
  proof -
    have "[c. Inr c \<leftarrow> last] = []" by (cases "dropWhile (source_fine ie co) results") (simp_all only: last_def list.case concat.simps list.map sum.case append.simps)
    then have "[c. Inr c \<leftarrow> map Inr cs @ last] = cs" for cs :: "input_content list"
      by (induction cs) simp_all
    then show ?thesis by (simp only: items)
  qed
  ultimately show ?thesis
    using True last_items unfolding fine by auto
next
  case False
  then consider (url) url where "in_source self = RemoteUrl url" | (stdin) "in_source self = Stdin"
    | (string) s where "in_source self = InputString s"
    | (path) path e where "in_source self = FsPath path" "path_readable ie path = Some e"
    by (cases "in_source self") auto
  then show ?thesis
  proof cases
    case url
    obtain result st1 where fetched: "url_contents ie we ur url st = Value (result, st1)"
      using url_contents_total [of ie we ur url st] by (metis eval.exhaust surj_pair)
    with assms(1) url show ?thesis
      by (cases result) (auto simp: get_contents_def split: if_splits intro: exI [of _ "[]"] exI [of _ "[projr result]"])
  next
    case stdin
    with assms(1) show ?thesis
      by (cases "stdin_content ie (in_file_type_hint self)")
        (auto simp: get_contents_def intro: exI [of _ "[]"] exI [of _ "[projr (stdin_content ie (in_file_type_hint self))]"])
  next
    case string
    with assms(1) show ?thesis
      by (auto simp: get_contents_def intro: exI [of _ "[string_content s (in_file_type_hint self)]"])
  next
    case path
    with assms(1) show ?thesis by (auto simp: get_contents_def intro: exI [of _ "[]"])
  qed
qed

text \<open>For files the hint is not used.\<close>

lemma sources_contents_hint:
  "list_all file_source results \<Longrightarrow>
   sources_contents ie we ur co (self\<lparr>in_file_type_hint := hint\<rparr>) results st = sources_contents ie we ur co self results st"
proof (induction results arbitrary: st)
  case (Cons r results)
  show ?case
  proof (cases r)
    case (Inr source)
    with Cons.prems obtain path where "source = ResolvedPath path"
      by (auto simp: file_source_def split: resolved_source.splits)
    with Cons Inr show ?thesis by (simp add: source_content_def split: sum.split)
  qed simp
qed simp

text \<open>The file type hint of an input, which is what \<open>--default-extension\<close> becomes, is not used for files:
  whatever the hint, files named by the user, met in a directory or matched by a glob, and remote inputs are
  read as the type of their name, so that a file without an extension stays plain text.  Only the standard
  input and strings take the hint.
\<close>

theorem default_extension_ignored_for_files:
  assumes "case in_source self of FsPath _ \<Rightarrow> True | FsGlob _ _ \<Rightarrow> True | RemoteUrl _ \<Rightarrow> True | _ \<Rightarrow> False"
  shows "get_contents ie we ur co (self\<lparr>in_file_type_hint := hint\<rparr>) st = get_contents ie we ur co self st \<and>
    (get_contents ie we ur co (self\<lparr>in_source := Stdin, in_file_type_hint := Some t\<rparr>) st = Value ([Inr c], st') \<longrightarrow>
       ic_file_type c = t)"
proof -
  have "sources_contents ie we ur co (self\<lparr>in_file_type_hint := hint\<rparr>)
      (resolve_input ie self (co_extensions co) (co_skip_hidden co) (co_skip_ignored co) (co_excluded_paths co)) st =
    sources_contents ie we ur co self
      (resolve_input ie self (co_extensions co) (co_skip_hidden co) (co_skip_ignored co) (co_excluded_paths co)) st"
    if "\<not> (\<exists>url. in_source self = RemoteUrl url)"
    using resolved_files [of self] assms that
    by (intro sources_contents_hint) (auto simp: list_all_iff split: input_source.splits)
  with assms show ?thesis
    by (auto simp: get_contents_def resolve_input_def stdin_content_def hinted_type_def res_bind_def Let_def
        split: input_source.splits option.split sum.splits)
qed

section \<open>Instances\<close>

text \<open>A glob that matches the two files of the sample directory, and a pattern that excludes one.\<close>

definition sample_input_env :: input_env where
  "sample_input_env = \<lparr>ie_urls = fe_urls plain_fragment_env, ie_rx = fe_rx plain_fragment_env, ie_fs = sample_fs,
     ie_glob_escape = id, ie_glob_error = Map.empty,
     ie_glob = (\<lambda>pattern case_sensitive literal_dot. Inr [Inr [''/'', ''d'', ''i.html''], Inr [''/'', ''d.html'']]),
     ie_tilde = id, ie_walk = (\<lambda>path globs hidden ignored. Inr []), ie_read_dir = Map.empty,
     ie_stdin = Inr [], ie_run = (\<lambda>command path. Inl [])\<rparr>"

definition sample_contents_options :: "string list \<Rightarrow> contents_options" where
  "sample_contents_options excluded = \<lparr>co_skip_missing = True, co_skip_hidden = True, co_skip_ignored = True,
     co_extensions = [''html''], co_excluded_paths = excluded, co_preprocessor = None\<rparr>"

definition sample_resolver :: url_resolver where
  "sample_resolver = \<lparr>ur_basic_auth_extractor = None, ur_headers = []\<rparr>"

lemma sample_glob_contents:
  "get_contents sample_input_env (sample_env 200) sample_resolver (sample_contents_options [''/d/''])
     \<lparr>in_source = FsGlob ''*'' False, in_file_type_hint = None\<rparr> st =
   Value ([Inr \<lparr>ic_source = ResolvedPath [''/'', ''d.html''],
       ic_file_type = file_type_of (fe_urls plain_fragment_env) ''/d.html'', ic_content = []\<rparr>], st)"
proof -
  have excluded: "is_excluded_path (fe_rx plain_fragment_env) [''/'', ''d'', ''i.html''] [''/d/'']"
    "\<not> is_excluded_path (fe_rx plain_fragment_env) [''/'', ''d.html''] [''/d/'']"
    by (simp_all add: is_excluded_path_def filter_is_match_def plain_fragment_env_def path_show_def path_rooted_def
        sublist_Cons_right)
  have plain: "\<not> path_is_dir sample_fs [''/'', ''d'', ''i.html'']" "\<not> path_is_dir sample_fs [''/'', ''d.html'']"
    by (simp_all add: path_is_dir_def sample_fs_def)
  show ?thesis
    by (simp add: get_contents_def resolve_input_def sample_input_env_def sample_contents_options_def excluded plain
        source_content_def path_content_def get_content_def) (simp add: sample_fs_def path_show_def path_rooted_def)
qed

theorem excluded_paths_never_read_witness:
  "\<not> sublist ''/d/'' ''/d.html''"
  using excluded_paths_never_read [OF sample_glob_contents [of "(new_pool, 0)"], of _ "[''/'', ''d.html'']"]
  by (simp add: sample_contents_options_def sample_input_env_def plain_fragment_env_def filter_is_match_def path_show_def
      path_rooted_def)

theorem input_errors_by_origin_witness:
  "let source = FsPath [''/'', ''x'']
   in \<exists>e. get_contents sample_input_env (sample_env 200) sample_resolver (sample_contents_options [])
     \<lparr>in_source = source, in_file_type_hint = None\<rparr> (new_pool, 0) =
     Value ([Inl (UserInputContent source e)], new_pool, 0)"
proof -
  let ?source = "FsPath [''/'', ''x'']"
  let ?input = "\<lparr>in_source = ?source, in_file_type_hint = None\<rparr>"
  obtain e where missing: "path_readable sample_input_env [''/'', ''x''] = Some e"
    by (simp add: path_readable_def path_is_dir_def sample_input_env_def sample_fs_def)
  then obtain items where run: "get_contents sample_input_env (sample_env 200) sample_resolver
      (sample_contents_options []) ?input (new_pool, 0) = Value (items, new_pool, 0)" and last: "\<exists>r. items = [Inl r]"
    by (simp add: get_contents_def)
  from input_errors_by_origin [OF run, THEN conjunct2, THEN conjunct1] missing
  have "Inl (UserInputContent ?source e) \<in> set items" by simp
  with last obtain e' where "items = [Inl (UserInputContent ?source e')]" by auto
  with run show ?thesis by simp
qed

theorem default_extension_ignored_for_files_witness:
  "\<exists>c. get_contents sample_input_env (sample_env 200) sample_resolver (sample_contents_options [''/d/''])
      \<lparr>in_source = FsGlob ''*'' False, in_file_type_hint = Some Markdown\<rparr> (new_pool, 0) = Value ([Inr c], new_pool, 0) \<and>
    ic_file_type c = file_type_of (fe_urls plain_fragment_env) ''/d.html''"
  using default_extension_ignored_for_files [of "\<lparr>in_source = FsGlob ''*'' False, in_file_type_hint = None\<rparr>"
      sample_input_env "sample_env 200" sample_resolver "sample_contents_options [''/d/'']" "Some Markdown" "(new_pool, 0)"]
    sample_glob_contents [of "(new_pool, 0)"] by simp

end
