(* ===== verification/Config.thy ===== *)
theory Config
  imports Options Inputs StatusSelector Retry
begin

text \<open>
  The configuration: the options of the command line and of configuration files, their defaults and how they
  are merged (\<open>lychee-bin/src/config/mod.rs\<close>), the loaders (\<open>config/loaders\<close>), and loading the whole
  configuration with the ignore files and the limit of open files (\<open>load_config\<close> of \<open>main.rs\<close>).

  Parsing the command line, TOML and JSON into a configuration is the work of clap and serde; their results
  are parameters.  The version in the default user agent is set by the build.
\<close>

section \<open>The configuration\<close>

record config =
  cf_files_from :: "path option"
  cf_verbose :: "verbosity option"
  cf_no_progress :: "bool option"
  cf_host_stats :: "bool option"
  cf_extensions :: "file_extensions option"
  cf_default_extension :: "string option"
  cf_cache :: "bool option"
  cf_max_cache_age :: "duration option"
  cf_cache_exclude_status :: "selector option"
  cf_dump :: "bool option"
  cf_dump_inputs :: "bool option"
  cf_archive :: "archive_kind option"
  cf_suggest :: "bool option"
  cf_max_redirects :: "nat option"
  cf_max_retries :: "nat option"
  cf_min_tls :: "tls_version option"
  cf_max_concurrency :: "nat option"
  cf_host_concurrency :: "nat option"
  cf_host_request_interval :: "duration option"
  cf_threads :: "nat option"
  cf_user_agent :: "string option"
  cf_insecure :: "bool option"
  cf_scheme :: "string list"
  cf_offline :: "bool option"
  cf_include :: "string list"
  cf_exclude :: "string list"
  cf_exclude_file :: "string list"
  cf_exclude_path :: "string list"
  cf_exclude_all_private :: "bool option"
  cf_exclude_private :: "bool option"
  cf_exclude_link_local :: "bool option"
  cf_exclude_loopback :: "bool option"
  cf_include_mail :: "bool option"
  cf_remap :: "string list"
  cf_fallback_extensions :: "string list"
  cf_index_files :: "string list option"
  cf_header :: "(string \<times> string) list"
  cf_accept :: "selector option"
  cf_accept_timeouts :: "bool option"
  cf_include_fragments :: "fragment_mode option"
  cf_timeout :: "nat option"
  cf_retry_wait_time :: "nat option"
  cf_method :: "string option"
  cf_base :: "base_info option"
  cf_base_url :: "base_info option"
  cf_root_dir :: "path option"
  cf_basic_auth :: "basic_auth_selector list option"
  cf_github_token :: "string option"
  cf_skip_missing :: "bool option"
  cf_no_ignore :: "bool option"
  cf_hidden :: "bool option"
  cf_include_verbatim :: "bool option"
  cf_glob_ignore_case :: "bool option"
  cf_output :: "path option"
  cf_mode :: "output_mode option"
  cf_format :: "stats_format option"
  cf_generate :: "generate_mode option"
  cf_require_https :: "bool option"
  cf_cookie_jar :: "path option"
  cf_include_wikilinks :: "bool option"
  cf_preprocess :: "preprocessor option"
  cf_hosts :: host_configs

text \<open>\<open>Config::default()\<close>: nothing is set.\<close>

definition config_default :: config where
  "config_default = \<lparr>
     cf_files_from = None, cf_verbose = None, cf_no_progress = None, cf_host_stats = None,
     cf_extensions = None, cf_default_extension = None, cf_cache = None, cf_max_cache_age = None,
     cf_cache_exclude_status = None, cf_dump = None, cf_dump_inputs = None, cf_archive = None,
     cf_suggest = None, cf_max_redirects = None, cf_max_retries = None, cf_min_tls = None,
     cf_max_concurrency = None, cf_host_concurrency = None, cf_host_request_interval = None, cf_threads = None,
     cf_user_agent = None, cf_insecure = None, cf_scheme = [], cf_offline = None, cf_include = [],
     cf_exclude = [], cf_exclude_file = [], cf_exclude_path = [], cf_exclude_all_private = None,
     cf_exclude_private = None, cf_exclude_link_local = None, cf_exclude_loopback = None,
     cf_include_mail = None, cf_remap = [], cf_fallback_extensions = [], cf_index_files = None, cf_header = [],
     cf_accept = None, cf_accept_timeouts = None, cf_include_fragments = None, cf_timeout = None,
     cf_retry_wait_time = None, cf_method = None, cf_base = None, cf_base_url = None, cf_root_dir = None,
     cf_basic_auth = None, cf_github_token = None, cf_skip_missing = None, cf_no_ignore = None,
     cf_hidden = None, cf_include_verbatim = None, cf_glob_ignore_case = None, cf_output = None,
     cf_mode = None, cf_format = None, cf_generate = None, cf_require_https = None, cf_cookie_jar = None,
     cf_include_wikilinks = None, cf_preprocess = None, cf_hosts = Map.empty\<rparr>"

text \<open>\<open>HostConfigs::merge\<close>, as what it gives for each host.\<close>

definition merge_hosts :: "host_configs \<Rightarrow> host_configs \<Rightarrow> host_configs" where
  "merge_hosts self other = (\<lambda>key.
     case (self key, other key) of
       (Some a, Some b) \<Rightarrow> Some (host_config_merge a b)
     | (Some a, None) \<Rightarrow> Some a
     | (None, b) \<Rightarrow> b)"

definition config_merge :: "config \<Rightarrow> config \<Rightarrow> config" where
  "config_merge self other = \<lparr>
     cf_files_from = option_or (cf_files_from self) (cf_files_from other),
     cf_verbose = option_or (cf_verbose self) (cf_verbose other),
     cf_no_progress = option_or (cf_no_progress self) (cf_no_progress other),
     cf_host_stats = option_or (cf_host_stats self) (cf_host_stats other),
     cf_extensions = option_or (cf_extensions self) (cf_extensions other),
     cf_default_extension = option_or (cf_default_extension self) (cf_default_extension other),
     cf_cache = option_or (cf_cache self) (cf_cache other),
     cf_max_cache_age = option_or (cf_max_cache_age self) (cf_max_cache_age other),
     cf_cache_exclude_status = option_or (cf_cache_exclude_status self) (cf_cache_exclude_status other),
     cf_dump = option_or (cf_dump self) (cf_dump other),
     cf_dump_inputs = option_or (cf_dump_inputs self) (cf_dump_inputs other),
     cf_archive = option_or (cf_archive self) (cf_archive other),
     cf_suggest = option_or (cf_suggest self) (cf_suggest other),
     cf_max_redirects = option_or (cf_max_redirects self) (cf_max_redirects other),
     cf_max_retries = option_or (cf_max_retries self) (cf_max_retries other),
     cf_min_tls = option_or (cf_min_tls self) (cf_min_tls other),
     cf_max_concurrency = option_or (cf_max_concurrency self) (cf_max_concurrency other),
     cf_host_concurrency = option_or (cf_host_concurrency self) (cf_host_concurrency other),
     cf_host_request_interval = option_or (cf_host_request_interval self) (cf_host_request_interval other),
     cf_threads = option_or (cf_threads self) (cf_threads other),
     cf_user_agent = option_or (cf_user_agent self) (cf_user_agent other),
     cf_insecure = option_or (cf_insecure self) (cf_insecure other),
     cf_scheme = cf_scheme self @ cf_scheme other, cf_offline = option_or (cf_offline self) (cf_offline other),
     cf_include = cf_include self @ cf_include other, cf_exclude = cf_exclude self @ cf_exclude other,
     cf_exclude_file = cf_exclude_file self @ cf_exclude_file other,
     cf_exclude_path = cf_exclude_path self @ cf_exclude_path other,
     cf_exclude_all_private = option_or (cf_exclude_all_private self) (cf_exclude_all_private other),
     cf_exclude_private = option_or (cf_exclude_private self) (cf_exclude_private other),
     cf_exclude_link_local = option_or (cf_exclude_link_local self) (cf_exclude_link_local other),
     cf_exclude_loopback = option_or (cf_exclude_loopback self) (cf_exclude_loopback other),
     cf_include_mail = option_or (cf_include_mail self) (cf_include_mail other),
     cf_remap = cf_remap self @ cf_remap other,
     cf_fallback_extensions = cf_fallback_extensions self @ cf_fallback_extensions other,
     cf_index_files = option_or (cf_index_files self) (cf_index_files other),
     cf_header = cf_header self @ cf_header other, cf_accept = option_or (cf_accept self) (cf_accept other),
     cf_accept_timeouts = option_or (cf_accept_timeouts self) (cf_accept_timeouts other),
     cf_include_fragments = option_or (cf_include_fragments self) (cf_include_fragments other),
     cf_timeout = option_or (cf_timeout self) (cf_timeout other),
     cf_retry_wait_time = option_or (cf_retry_wait_time self) (cf_retry_wait_time other),
     cf_method = option_or (cf_method self) (cf_method other),
     cf_base = option_or (cf_base self) (cf_base other),
     cf_base_url = option_or (cf_base_url self) (cf_base_url other),
     cf_root_dir = option_or (cf_root_dir self) (cf_root_dir other),
     cf_basic_auth = option_or (cf_basic_auth self) (cf_basic_auth other),
     cf_github_token = option_or (cf_github_token self) (cf_github_token other),
     cf_skip_missing = option_or (cf_skip_missing self) (cf_skip_missing other),
     cf_no_ignore = option_or (cf_no_ignore self) (cf_no_ignore other),
     cf_hidden = option_or (cf_hidden self) (cf_hidden other),
     cf_include_verbatim = option_or (cf_include_verbatim self) (cf_include_verbatim other),
     cf_glob_ignore_case = option_or (cf_glob_ignore_case self) (cf_glob_ignore_case other),
     cf_output = option_or (cf_output self) (cf_output other),
     cf_mode = option_or (cf_mode self) (cf_mode other),
     cf_format = option_or (cf_format self) (cf_format other),
     cf_generate = option_or (cf_generate self) (cf_generate other),
     cf_require_https = option_or (cf_require_https self) (cf_require_https other),
     cf_cookie_jar = option_or (cf_cookie_jar self) (cf_cookie_jar other),
     cf_include_wikilinks = option_or (cf_include_wikilinks self) (cf_include_wikilinks other),
     cf_preprocess = option_or (cf_preprocess self) (cf_preprocess other),
     cf_hosts = merge_hosts (cf_hosts self) (cf_hosts other)\<rparr>"

section \<open>Options with their defaults\<close>

definition unwrap_or :: "'a option \<Rightarrow> 'a \<Rightarrow> 'a" where
  "unwrap_or x d = (case x of Some a \<Rightarrow> a | None \<Rightarrow> d)"

definition cfg_timeout :: "config \<Rightarrow> duration" where
  "cfg_timeout self = from_secs (unwrap_or (cf_timeout self) 20)"

definition cfg_retry_wait_time :: "config \<Rightarrow> duration" where
  "cfg_retry_wait_time self = from_secs (unwrap_or (cf_retry_wait_time self) 1)"

definition cfg_method :: "config \<Rightarrow> string" where
  "cfg_method self = unwrap_or (cf_method self) ''get''"

definition cfg_max_cache_age :: "config \<Rightarrow> duration" where
  "cfg_max_cache_age self = unwrap_or (cf_max_cache_age self) (from_secs (60 * 60 * 24))"

definition cfg_verbose :: "config \<Rightarrow> verbosity" where
  "cfg_verbose self = unwrap_or (cf_verbose self) verbosity_default"

definition cfg_extensions :: "config \<Rightarrow> file_extensions" where
  "cfg_extensions self = unwrap_or (cf_extensions self) default_extensions"

definition cfg_archive :: "config \<Rightarrow> archive_kind" where
  "cfg_archive self = unwrap_or (cf_archive self) WaybackMachine"

definition cfg_mode :: "config \<Rightarrow> output_mode" where
  "cfg_mode self = unwrap_or (cf_mode self) ColorMode"

definition cfg_format :: "config \<Rightarrow> stats_format" where
  "cfg_format self = unwrap_or (cf_format self) Compact"

definition cfg_max_concurrency :: "config \<Rightarrow> nat" where
  "cfg_max_concurrency self = unwrap_or (cf_max_concurrency self) 128"

definition cfg_max_redirects :: "config \<Rightarrow> nat" where
  "cfg_max_redirects self = unwrap_or (cf_max_redirects self) 10"

definition cfg_max_retries :: "config \<Rightarrow> nat" where
  "cfg_max_retries self = unwrap_or (cf_max_retries self) 3"

definition cfg_cache_exclude_status :: "config \<Rightarrow> selector" where
  "cfg_cache_exclude_status self = unwrap_or (cf_cache_exclude_status self) sel_empty"

definition cfg_fragment_options :: "config \<Rightarrow> fragment_options" where
  "cfg_fragment_options self = fragment_options_of (unwrap_or (cf_include_fragments self) FragmentNone)"

definition cfg_accept :: "config \<Rightarrow> selector" where
  "cfg_accept self = unwrap_or (cf_accept self) default_accepted"

definition cfg_user_agent :: "string \<Rightarrow> config \<Rightarrow> string" where
  "cfg_user_agent default_user_agent self = unwrap_or (cf_user_agent self) default_user_agent"

definition set_max_concurrency :: "nat \<Rightarrow> config \<Rightarrow> config" where
  "set_max_concurrency concurrency self = self\<lparr>cf_max_concurrency := Some concurrency\<rparr>"

definition cfg_cache :: "config \<Rightarrow> bool" where "cfg_cache self = unwrap_or (cf_cache self) False"
definition cfg_dump :: "config \<Rightarrow> bool" where "cfg_dump self = unwrap_or (cf_dump self) False"
definition cfg_dump_inputs :: "config \<Rightarrow> bool" where "cfg_dump_inputs self = unwrap_or (cf_dump_inputs self) False"
definition cfg_exclude_all_private :: "config \<Rightarrow> bool" where "cfg_exclude_all_private self = unwrap_or (cf_exclude_all_private self) False"
definition cfg_exclude_link_local :: "config \<Rightarrow> bool" where "cfg_exclude_link_local self = unwrap_or (cf_exclude_link_local self) False"
definition cfg_exclude_loopback :: "config \<Rightarrow> bool" where "cfg_exclude_loopback self = unwrap_or (cf_exclude_loopback self) False"
definition cfg_exclude_private :: "config \<Rightarrow> bool" where "cfg_exclude_private self = unwrap_or (cf_exclude_private self) False"
definition cfg_glob_ignore_case :: "config \<Rightarrow> bool" where "cfg_glob_ignore_case self = unwrap_or (cf_glob_ignore_case self) False"
definition cfg_hidden :: "config \<Rightarrow> bool" where "cfg_hidden self = unwrap_or (cf_hidden self) False"
definition cfg_host_stats :: "config \<Rightarrow> bool" where "cfg_host_stats self = unwrap_or (cf_host_stats self) False"
definition cfg_include_mail :: "config \<Rightarrow> bool" where "cfg_include_mail self = unwrap_or (cf_include_mail self) False"
definition cfg_include_verbatim :: "config \<Rightarrow> bool" where "cfg_include_verbatim self = unwrap_or (cf_include_verbatim self) False"
definition cfg_include_wikilinks :: "config \<Rightarrow> bool" where "cfg_include_wikilinks self = unwrap_or (cf_include_wikilinks self) False"
definition cfg_insecure :: "config \<Rightarrow> bool" where "cfg_insecure self = unwrap_or (cf_insecure self) False"
definition cfg_no_ignore :: "config \<Rightarrow> bool" where "cfg_no_ignore self = unwrap_or (cf_no_ignore self) False"
definition cfg_no_progress :: "config \<Rightarrow> bool" where "cfg_no_progress self = unwrap_or (cf_no_progress self) False"
definition cfg_offline :: "config \<Rightarrow> bool" where "cfg_offline self = unwrap_or (cf_offline self) False"
definition cfg_require_https :: "config \<Rightarrow> bool" where "cfg_require_https self = unwrap_or (cf_require_https self) False"
definition cfg_skip_missing :: "config \<Rightarrow> bool" where "cfg_skip_missing self = unwrap_or (cf_skip_missing self) False"
definition cfg_suggest :: "config \<Rightarrow> bool" where "cfg_suggest self = unwrap_or (cf_suggest self) False"
definition cfg_accept_timeouts :: "config \<Rightarrow> bool" where "cfg_accept_timeouts self = unwrap_or (cf_accept_timeouts self) False"

text \<open>Collecting the pairs into a map: of those with one name the last remains.\<close>

definition cfg_headers :: "config \<Rightarrow> string \<rightharpoonup> string" where
  "cfg_headers self = map_of (rev (cf_header self))"

section \<open>Loading configuration files\<close>

text \<open>Errors of the anyhow crate: a message, an error of the program or of I/O, and a context on top of one.\<close>

datatype any_error =
    AnyText string
  | AnyKind error_kind
  | AnyIo io_error
  | AnyContext string any_error

text \<open>
  What the deserializers give for the four formats; only the sections in which a configuration can stand
  are kept of the last three.
\<close>

type_synonym cargo_section = "config option option" \<comment> \<open>its metadata, and the configuration in it\<close>

record config_parsers =
  cp_lychee :: "string \<Rightarrow> any_error + config"
  cp_cargo :: "string \<Rightarrow> any_error + (cargo_section option \<times> cargo_section option)" \<comment> \<open>package, workspace\<close>
  cp_pyproject :: "string \<Rightarrow> any_error + config option option"
  cp_package_json :: "string \<Rightarrow> any_error + config option"
  cp_debug :: "any_error \<Rightarrow> string"

datatype config_match = ConfigFound config | ConfigNotFound

datatype config_loader = LycheeTomlLoader | CargoTomlLoader | PyprojectTomlLoader | PackageJsonLoader

fun loader_filename :: "config_loader \<Rightarrow> string" where
  "loader_filename LycheeTomlLoader = ''lychee.toml''"
| "loader_filename CargoTomlLoader = ''Cargo.toml''"
| "loader_filename PyprojectTomlLoader = ''pyproject.toml''"
| "loader_filename PackageJsonLoader = ''package.json''"

definition match_of :: "config option \<Rightarrow> config_match" where
  "match_of c = (case c of Some config \<Rightarrow> ConfigFound config | None \<Rightarrow> ConfigNotFound)"

definition section_config :: "cargo_section option \<Rightarrow> config option" where
  "section_config section = Option.bind (Option.bind section id) id"

fun loader_load :: "config_parsers \<Rightarrow> config_loader \<Rightarrow> string \<Rightarrow> any_error + config_match" where
  "loader_load cp LycheeTomlLoader contents =
     res_bind (map_err (AnyContext ''Failed to parse configuration file'') (cp_lychee cp contents)) (\<lambda>config.
       Inr (ConfigFound config))"
| "loader_load cp CargoTomlLoader contents =
     res_bind (map_err (AnyContext ''Failed to parse lychee config from Cargo.toml'') (cp_cargo cp contents))
       (\<lambda>(package, workspace). Inr (match_of (option_or (section_config package) (section_config workspace))))"
| "loader_load cp PyprojectTomlLoader contents =
     res_bind (map_err (AnyContext ''Failed to parse [tool.lychee] from pyproject.toml'') (cp_pyproject cp contents))
       (\<lambda>tool. Inr (match_of (Option.bind tool id)))"
| "loader_load cp PackageJsonLoader contents =
     res_bind (map_err (AnyContext ''Failed to parse lychee config from package.json'') (cp_package_json cp contents))
       (\<lambda>lychee. Inr (match_of lychee))"

definition LOADERS :: "config_loader list" where
  "LOADERS = [LycheeTomlLoader, CargoTomlLoader, PyprojectTomlLoader, PackageJsonLoader]"

fun first_config_file :: "config_parsers \<Rightarrow> file_system \<Rightarrow> config_loader list \<Rightarrow> any_error + config option" where
  "first_config_file cp fs [] = Inr None"
| "first_config_file cp fs (loader # loaders) =
     (let path = path_components (loader_filename loader) in
      if path_is_file fs path then
        (let contents = (case fs_read fs path of Inr s \<Rightarrow> s | Inl _ \<Rightarrow> []) in
         case loader_load cp loader contents of
           Inr (ConfigFound config) \<Rightarrow> Inr (Some config)
         | Inr ConfigNotFound \<Rightarrow> first_config_file cp fs loaders
         | Inl e \<Rightarrow> Inl (AnyContext (''Cannot load configuration file: '' @ path_show path) e))
      else first_config_file cp fs loaders)"

definition default_config_file :: "config_parsers \<Rightarrow> file_system \<Rightarrow> any_error + config option" where
  "default_config_file cp fs = first_config_file cp fs LOADERS"

definition load_from_file :: "config_parsers \<Rightarrow> file_system \<Rightarrow> path \<Rightarrow> any_error + config" where
  "load_from_file cp fs path =
     res_bind (map_err (\<lambda>e. AnyContext (''Failed to read config file '' @ path_show path) (AnyIo e)) (fs_read fs path))
       (\<lambda>contents.
         let loader = (case file_name path of
               Some filename \<Rightarrow> unwrap_or (find (\<lambda>loader. filename = loader_filename loader) LOADERS) LycheeTomlLoader
             | None \<Rightarrow> LycheeTomlLoader)
         in res_bind (map_err (AnyContext (''Failed to load config from '' @ path_show path)) (loader_load cp loader contents))
           (\<lambda>m. case m of
               ConfigFound config \<Rightarrow> Inr config
             | ConfigNotFound \<Rightarrow> Inl (AnyText (''No valid lychee configuration found in '' @ path_show path))))"

definition merge_file :: "config_parsers \<Rightarrow> file_system \<Rightarrow> config \<Rightarrow> path \<Rightarrow> any_error + config" where
  "merge_file cp fs self config_file =
     res_bind (map_err (\<lambda>e. AnyText (''Cannot load configuration file `'' @ path_show config_file @ ''`: '' @ cp_debug cp e))
         (load_from_file cp fs config_file)) (\<lambda>config. Inr (config_merge self config))"

section \<open>Loading the whole configuration\<close>

record lychee_options =
  lo_raw_inputs :: "string list"
  lo_config_files :: "path list"
  lo_config :: config

text \<open>The limit is that of open files, if it is known; the subtraction saturates.\<close>

definition BASELINE_OVERHEAD :: nat where "BASELINE_OVERHEAD = 20"

definition handle_fd_limits :: "nat option \<Rightarrow> config \<Rightarrow> config" where
  "handle_fd_limits soft_limit cfg =
     (case soft_limit of
        None \<Rightarrow> cfg
      | Some soft_limit \<Rightarrow>
          (let concurrency = soft_limit - BASELINE_OVERHEAD;
               concurrency = (if concurrency = 0 then 1 else concurrency)
           in if cfg_max_concurrency cfg > concurrency then set_max_concurrency concurrency cfg else cfg))"

fun merge_config_files :: "config_parsers \<Rightarrow> file_system \<Rightarrow> path list \<Rightarrow> config \<Rightarrow> any_error + config" where
  "merge_config_files cp fs [] cfg = Inr cfg"
| "merge_config_files cp fs (file # files) cfg =
     res_bind (merge_file cp fs cfg file) (merge_config_files cp fs files)"

text \<open>Opening a file, and then reading its lines.\<close>

type_synonym open_file = "path \<Rightarrow> io_error + (io_error + string)"

fun append_exclude_files :: "open_file \<Rightarrow> path list \<Rightarrow> config \<Rightarrow> any_error + config" where
  "append_exclude_files open_at [] cfg = Inr cfg"
| "append_exclude_files open_at (path # paths) cfg =
     res_bind (map_err AnyIo (open_at path)) (\<lambda>file.
     res_bind (map_err AnyIo (read_lines file)) (\<lambda>lines.
       append_exclude_files open_at paths (cfg\<lparr>cf_exclude := cf_exclude cfg @ lines\<rparr>)))"

definition load_config ::
  "config_parsers \<Rightarrow> file_system \<Rightarrow> open_file \<Rightarrow> nat option \<Rightarrow> lychee_options \<Rightarrow> any_error + lychee_options" where
  "load_config cp fs open_at soft_limit opts =
     res_bind
       (if lo_config_files opts = []
        then res_bind (default_config_file cp fs) (\<lambda>default_config.
          Inr (case default_config of Some c \<Rightarrow> config_merge (lo_config opts) c | None \<Rightarrow> lo_config opts))
        else merge_config_files cp fs (rev (lo_config_files opts)) (lo_config opts)) (\<lambda>cfg.
     res_bind
       (case open_at (path_components ''.lycheeignore'') of
          Inl _ \<Rightarrow> Inr cfg
        | Inr lycheeignore \<Rightarrow> res_bind (map_err AnyIo (read_lines lycheeignore)) (\<lambda>lines.
            Inr (cfg\<lparr>cf_exclude := cf_exclude cfg @ lines\<rparr>))) (\<lambda>cfg.
     res_bind (append_exclude_files open_at (map path_components (cf_exclude_file cfg)) cfg) (\<lambda>cfg.
       Inr (opts\<lparr>lo_config := handle_fd_limits soft_limit cfg\<rparr>))))"

text \<open>
  The inputs of the arguments and of \<open>--files-from\<close>, which is read from the standard input for a dash; they are
  a set, listed here without repetitions.
\<close>

definition files_from :: "(io_error + string) \<Rightarrow> open_file \<Rightarrow> path \<Rightarrow> any_error + string list" where
  "files_from stdin_text open_at path =
     (if path = [''-''] then map_err AnyText (files_from_reader (map_err io_text stdin_text))
      else res_bind (map_err (\<lambda>e. AnyContext (''Cannot open --files-from file: '' @ path_show path) (AnyIo e)) (open_at path))
        (\<lambda>content. map_err AnyText (files_from_reader (map_err io_text content))))"

definition options_inputs :: "input_env \<Rightarrow> open_file \<Rightarrow> lychee_options \<Rightarrow> any_error + input list" where
  "options_inputs ie open_at opts =
     res_bind (case cf_files_from (lo_config opts) of
         None \<Rightarrow> Inr (lo_raw_inputs opts)
       | Some path \<Rightarrow>
           res_bind (map_err (AnyContext ''Cannot read inputs from --files-from'') (files_from (ie_stdin ie) open_at path)) (\<lambda>more_inputs.
             Inr (lo_raw_inputs opts @ more_inputs))) (\<lambda>all_inputs.
       let default_file_type = Option.bind (cf_default_extension (lo_config opts)) from_extension
       in map_err (\<lambda>e. AnyContext ''Cannot parse inputs from arguments'' (AnyKind e))
            (res_bind (collect_results (map (\<lambda>raw_input.
                input_new ie raw_input default_file_type (cfg_glob_ignore_case (lo_config opts))) all_inputs))
              (\<lambda>inputs. Inr (remdups inputs))))"

section \<open>How configurations merge\<close>

lemma two_element_list:
  assumes "distinct xs" "set xs = {a, b}" "a \<noteq> b"
  shows "xs = [a, b] \<or> xs = [b, a]"
proof -
  have "length xs = 2" using distinct_card [OF assms(1)] assms(2,3) by simp
  then obtain x y where "xs = [x, y]" by (auto simp: length_Suc_conv numeral_2_eq_2)
  with assms show ?thesis by auto
qed

lemma option_or_simps [simp]: "option_or None x = x" "option_or x None = x" "option_or (Some a) x = Some a"
  by (cases x; simp add: option_or_def)+

lemma option_or_assoc: "option_or (option_or a b) c = option_or a (option_or b c)"
  by (cases a) simp_all

lemma host_config_merge_assoc: "host_config_merge (host_config_merge a b) c = host_config_merge a (host_config_merge b c)"
  by (simp add: host_config_merge_def option_or_assoc)

lemma merge_hosts_assoc: "merge_hosts (merge_hosts a b) c = merge_hosts a (merge_hosts b c)"
  by (rule ext) (simp add: merge_hosts_def host_config_merge_assoc split: option.split)

text \<open>The merge of hosts is that of the loop over the entries of the other map.\<close>

lemma host_configs_merge_map:
  "distinct (map fst entries) \<Longrightarrow> host_configs_merge self entries = merge_hosts self (map_of entries)"
proof (induction entries arbitrary: self)
  case Nil
  show ?case by (rule ext) (simp add: host_configs_merge_def merge_hosts_def split: option.split)
next
  case (Cons e entries)
  obtain k v where e: "e = (k, v)" by force
  with Cons.prems have "map_of entries k = None" by (simp add: map_of_eq_None_iff)
  with Cons e show ?case
    by (intro ext) (auto simp: host_configs_merge_def merge_hosts_def Let_def split: option.split)
qed

lemma config_merge_assoc: "config_merge (config_merge a b) c = config_merge a (config_merge b c)"
  by (simp add: config_merge_def option_or_assoc merge_hosts_assoc)

lemma config_merge_default: "config_merge config_default c = c" "config_merge c config_default = c"
proof -
  have hosts: "merge_hosts Map.empty h = h" "merge_hosts h Map.empty = h" for h
    by (auto simp: merge_hosts_def split: option.split)
  show "config_merge config_default c = c" "config_merge c config_default = c"
    by (simp_all add: config_merge_def config_default_def hosts)
qed

interpretation configs: monoid config_merge config_default
  by unfold_locales (rule config_merge_assoc config_merge_default)+

text \<open>
  An option is taken from the first of some configurations that has it.  The lists are joined, and so are the
  settings for a host: each of its two single settings is the first that is given for this host.
\<close>

definition first_set :: "'a option list \<Rightarrow> 'a option" where
  "first_set xs = foldr option_or xs None"

definition of_first :: "(config \<Rightarrow> 'a option) \<Rightarrow> config \<Rightarrow> config list \<Rightarrow> bool" where
  "of_first get cfg cs \<longleftrightarrow> get cfg = first_set (map get cs)"

definition single_options_of_first :: "config \<Rightarrow> config list \<Rightarrow> bool" where
  "single_options_of_first cfg cs \<longleftrightarrow>
     of_first cf_files_from cfg cs \<and> of_first cf_verbose cfg cs \<and> of_first cf_no_progress cfg cs \<and>
     of_first cf_host_stats cfg cs \<and> of_first cf_extensions cfg cs \<and> of_first cf_default_extension cfg cs \<and>
     of_first cf_cache cfg cs \<and> of_first cf_max_cache_age cfg cs \<and> of_first cf_cache_exclude_status cfg cs \<and>
     of_first cf_dump cfg cs \<and> of_first cf_dump_inputs cfg cs \<and> of_first cf_archive cfg cs \<and>
     of_first cf_suggest cfg cs \<and> of_first cf_max_redirects cfg cs \<and> of_first cf_max_retries cfg cs \<and>
     of_first cf_min_tls cfg cs \<and> of_first cf_max_concurrency cfg cs \<and> of_first cf_host_concurrency cfg cs \<and>
     of_first cf_host_request_interval cfg cs \<and> of_first cf_threads cfg cs \<and> of_first cf_user_agent cfg cs \<and>
     of_first cf_insecure cfg cs \<and> of_first cf_offline cfg cs \<and> of_first cf_exclude_all_private cfg cs \<and>
     of_first cf_exclude_private cfg cs \<and> of_first cf_exclude_link_local cfg cs \<and>
     of_first cf_exclude_loopback cfg cs \<and> of_first cf_include_mail cfg cs \<and> of_first cf_index_files cfg cs \<and>
     of_first cf_accept cfg cs \<and> of_first cf_accept_timeouts cfg cs \<and> of_first cf_include_fragments cfg cs \<and>
     of_first cf_timeout cfg cs \<and> of_first cf_retry_wait_time cfg cs \<and> of_first cf_method cfg cs \<and>
     of_first cf_base cfg cs \<and> of_first cf_base_url cfg cs \<and> of_first cf_root_dir cfg cs \<and>
     of_first cf_basic_auth cfg cs \<and> of_first cf_github_token cfg cs \<and> of_first cf_skip_missing cfg cs \<and>
     of_first cf_no_ignore cfg cs \<and> of_first cf_hidden cfg cs \<and> of_first cf_include_verbatim cfg cs \<and>
     of_first cf_glob_ignore_case cfg cs \<and> of_first cf_output cfg cs \<and> of_first cf_mode cfg cs \<and>
     of_first cf_format cfg cs \<and> of_first cf_generate cfg cs \<and> of_first cf_require_https cfg cs \<and>
     of_first cf_cookie_jar cfg cs \<and> of_first cf_include_wikilinks cfg cs \<and> of_first cf_preprocess cfg cs"

definition host_settings :: "config list \<Rightarrow> host_key \<Rightarrow> host_config list" where
  "host_settings cs host = List.map_filter (\<lambda>c. cf_hosts c host) cs"

definition hosts_joined :: "config \<Rightarrow> config list \<Rightarrow> bool" where
  "hosts_joined cfg cs \<longleftrightarrow> (\<forall>host.
     case cf_hosts cfg host of
       None \<Rightarrow> host_settings cs host = []
     | Some hc \<Rightarrow> host_settings cs host \<noteq> [] \<and>
         hc_concurrency hc = first_set (map hc_concurrency (host_settings cs host)) \<and>
         hc_request_interval hc = first_set (map hc_request_interval (host_settings cs host)) \<and>
         hc_headers hc = concat (map hc_headers (host_settings cs host)))"

definition list_options :: "(config \<Rightarrow> string list) list" where
  "list_options = [
     cf_exclude, cf_exclude_file, cf_exclude_path, cf_include, cf_fallback_extensions, cf_remap, cf_scheme]"

lemma first_set_simps [simp]: "first_set [] = None" "first_set (x # xs) = option_or x (first_set xs)"
  by (simp_all add: first_set_def)

lemma merge_list: "get \<in> set list_options \<Longrightarrow> get (config_merge a b) = get a @ get b"
  by (auto simp: list_options_def config_merge_def)

lemma merge_headers: "cfg_headers (config_merge a b) = cfg_headers a ++ cfg_headers b"
  by (simp add: cfg_headers_def config_merge_def)

lemma merged_option:
  assumes "\<And>a b. get (config_merge a b) = option_or (get a) (get b)"
  shows "of_first get (foldl config_merge c cs) (c # cs)"
  by (induction cs arbitrary: c) (simp_all add: of_first_def assms option_or_assoc)

lemma merged_options: "single_options_of_first (foldl config_merge c cs) (c # cs)"
  unfolding single_options_of_first_def by (intro conjI merged_option; simp add: config_merge_def)

lemma host_settings_simps [simp]:
  "host_settings [] host = []"
  "host_settings (c # cs) host = (case cf_hosts c host of None \<Rightarrow> [] | Some hc \<Rightarrow> [hc]) @ host_settings cs host"
  by (simp_all add: host_settings_def List.map_filter_simps split: option.split)

lemma merged_hosts: "hosts_joined (foldl config_merge c cs) (c # cs)"
proof (induction cs arbitrary: c)
  case Nil
  show ?case by (simp add: hosts_joined_def split: option.split)
next
  case (Cons d cs)
  have hosts: "cf_hosts (config_merge c d) = merge_hosts (cf_hosts c) (cf_hosts d)" by (simp add: config_merge_def)
  let ?settings = "host_settings cs" and ?merged = "foldl config_merge c (d # cs)"
  show ?case
    unfolding hosts_joined_def
  proof (rule allI)
    fix host
    have "case cf_hosts ?merged host of
       None \<Rightarrow> host_settings (config_merge c d # cs) host = []
     | Some hc \<Rightarrow> host_settings (config_merge c d # cs) host \<noteq> [] \<and>
         hc_concurrency hc = first_set (map hc_concurrency (host_settings (config_merge c d # cs) host)) \<and>
         hc_request_interval hc = first_set (map hc_request_interval (host_settings (config_merge c d # cs) host)) \<and>
         hc_headers hc = concat (map hc_headers (host_settings (config_merge c d # cs) host))"
      using spec [OF Cons [of "config_merge c d", unfolded hosts_joined_def], of host] by simp
    then show "case cf_hosts ?merged host of
       None \<Rightarrow> host_settings (c # d # cs) host = []
     | Some hc \<Rightarrow> host_settings (c # d # cs) host \<noteq> [] \<and>
         hc_concurrency hc = first_set (map hc_concurrency (host_settings (c # d # cs) host)) \<and>
         hc_request_interval hc = first_set (map hc_request_interval (host_settings (c # d # cs) host)) \<and>
         hc_headers hc = concat (map hc_headers (host_settings (c # d # cs) host))"
      unfolding host_settings_simps hosts
      by (cases "cf_hosts ?merged host"; cases "cf_hosts c host"; cases "cf_hosts d host")
        (simp_all add: merge_hosts_def host_config_merge_def option_or_assoc)
  qed
qed

lemma merged_list: "get \<in> set list_options \<Longrightarrow> get (foldl config_merge c cs) = concat (map get (c # cs))"
  by (induction cs arbitrary: c) (simp_all add: merge_list)

lemma merged_headers: "cfg_headers (foldl config_merge c cs) = foldl (++) (cfg_headers c) (map cfg_headers cs)"
  by (induction cs arbitrary: c) (simp_all add: merge_headers)

lemma merge_config_files_loaded:
  "list_all2 (\<lambda>path c. load_from_file cp fs path = Inr c) paths cs \<Longrightarrow>
   merge_config_files cp fs paths cfg = Inr (foldl config_merge cfg cs)"
  by (induction arbitrary: cfg rule: list_all2_induct) (simp_all add: merge_file_def)

text \<open>An exclusion file that cannot be opened is an error of loading, also where there is no configuration file.\<close>

lemma append_exclude_files_fails:
  "path \<in> set paths \<Longrightarrow> open_at path = Inl e \<Longrightarrow> \<exists>e'. append_exclude_files open_at paths cfg = Inl e'"
proof (induction paths arbitrary: cfg)
  case (Cons p paths)
  show ?case
  proof (cases "open_at p")
    case (Inl e')
    then show ?thesis by (simp add: res_bind_def map_err_def)
  next
    case (Inr opened)
    with Cons.prems have "path \<in> set paths" by auto
    with Inr Cons.IH [OF _ Cons.prems(2)] show ?thesis
      by (cases "read_lines opened") (simp_all add: res_bind_def map_err_def)
  qed
qed simp

lemma missing_exclude_file_fails:
  assumes "lo_config_files opts = []" "default_config_file cp fs = Inr None"
    and "open_at (path_components ''.lycheeignore'') = Inl e" "path \<in> set (cf_exclude_file (lo_config opts))"
    and "open_at (path_components path) = Inl e'"
  shows "\<exists>err. load_config cp fs open_at soft_limit opts = Inl err"
  using append_exclude_files_fails [of "path_components path" "map path_components (cf_exclude_file (lo_config opts))" open_at e' "lo_config opts"]
    assms by (auto simp: load_config_def res_bind_def)

section \<open>Properties\<close>

text \<open>C35: Of several configuration files the later ones take precedence over the earlier ones, and the command
  line over all of them: each single option, flag or other, is that of the command line or else of the last
  file that has it, lists are joined in this order, and the settings for a host likewise, one by one.  Headers
  go the other way round: a header of the first file replaces that of the later files and of the command line.
\<close>

theorem config_files_precedence:
  assumes "list_all2 (\<lambda>path c. load_from_file cp fs path = Inr c) files cs"
  shows "\<exists>cfg. merge_config_files cp fs (rev files) cli = Inr cfg \<and>
    single_options_of_first cfg (cli # rev cs) \<and>
    (\<forall>get \<in> set list_options. get cfg = concat (map get (cli # rev cs))) \<and>
    hosts_joined cfg (cli # rev cs) \<and>
    (\<forall>c rest name. cs = c # rest \<longrightarrow> cfg_headers c name \<noteq> None \<longrightarrow> cfg_headers cfg name = cfg_headers c name)"
proof -
  have "merge_config_files cp fs (rev files) cli = Inr (foldl config_merge cli (rev cs))"
    using assms by (intro merge_config_files_loaded) simp
  moreover have "cfg_headers (foldl config_merge cli (rev cs)) name = cfg_headers c name"
    if "cs = c # rest" "cfg_headers c name \<noteq> None" for c rest name
    using that by (auto simp: merge_headers map_add_def)
  ultimately show ?thesis by (auto simp: merged_options merged_list merged_hosts)
qed

text \<open>A header of the command line has its name in lower case, one of a configuration file keeps its case; so
  both are in the merged map where they are the same header, and which of their values is sent depends on
  the order in which the map happens to be iterated.
\<close>

theorem header_of_two_cases_unpredictable:
  assumes "header_parser hc (Some arg) = Inr (name, v1)" and "cf_header cli = [(name, v1)]"
    and "cf_header file = [(name', v2)]" and "name' \<noteq> name"
    and "hd_name hc name = Inr name" "hd_name hc name' = Inr name" "hd_value hc v1 = Inr v1" "hd_value hc v2 = Inr v2"
  shows "cfg_headers (config_merge cli file) = [name \<mapsto> v1, name' \<mapsto> v2] \<and>
    (\<forall>entries. map_of entries = cfg_headers (config_merge cli file) \<and> distinct (map fst entries) \<longrightarrow>
      (entries = [(name, v1), (name', v2)] \<and> from_header_pairs hc entries [] = Inr [(name, v2)]) \<or>
      (entries = [(name', v2), (name, v1)] \<and> from_header_pairs hc entries [] = Inr [(name, v1)]))"
proof (intro conjI allI impI)
  show merged: "cfg_headers (config_merge cli file) = [name \<mapsto> v1, name' \<mapsto> v2]"
    using assms(2-4) by (simp add: merge_headers) (simp add: cfg_headers_def map_add_def fun_eq_iff)
  fix entries
  assume entries: "map_of entries = cfg_headers (config_merge cli file) \<and> distinct (map fst entries)"
  have "set entries = {(name, v1), (name', v2)}"
  proof -
    have "(k, v) \<in> set entries \<longleftrightarrow> (k = name \<and> v = v1) \<or> (k = name' \<and> v = v2)" for k v
      using entries merged assms(4) by (auto simp: map_of_eq_Some_iff [symmetric] split: if_splits)
    then show ?thesis by auto
  qed
  moreover from entries have "distinct entries" by (simp add: distinct_map)
  ultimately have "entries = [(name, v1), (name', v2)] \<or> entries = [(name', v2), (name, v1)]"
    using assms(4) two_element_list [of entries "(name, v1)" "(name', v2)"] by simp
  then show "(entries = [(name, v1), (name', v2)] \<and> from_header_pairs hc entries [] = Inr [(name, v2)]) \<or>
      (entries = [(name', v2), (name, v1)] \<and> from_header_pairs hc entries [] = Inr [(name, v1)])"
    using assms by (auto simp: insert_header_def)
qed

text \<open>The limit of open files lowers the concurrency and never raises it; with the files that are open
  anyway the checks stay below the limit, unless it is so low that only one check is left, and at least one
  is always left, which the check needs to get on.
\<close>

theorem concurrency_within_fd_limit:
  assumes "cf_max_concurrency cfg \<noteq> Some 0"
  shows "0 < cfg_max_concurrency (handle_fd_limits soft_limit cfg) \<and>
    cfg_max_concurrency (handle_fd_limits soft_limit cfg) \<le> cfg_max_concurrency cfg \<and>
    (\<forall>limit. soft_limit = Some limit \<longrightarrow>
      cfg_max_concurrency (handle_fd_limits soft_limit cfg) = 1 \<or>
      cfg_max_concurrency (handle_fd_limits soft_limit cfg) + BASELINE_OVERHEAD \<le> limit)"
proof -
  have "0 < cfg_max_concurrency cfg"
    using assms by (auto simp: cfg_max_concurrency_def unwrap_or_def split: option.split)
  moreover have "cfg_max_concurrency (set_max_concurrency c cfg) = c" for c
    by (simp add: cfg_max_concurrency_def set_max_concurrency_def unwrap_or_def)
  ultimately show ?thesis
    by (cases soft_limit) (auto simp: handle_fd_limits_def Let_def)
qed

section \<open>Instances\<close>

text \<open>Two files, of which the first one skips the progress bar and has a header.\<close>

definition sample_parsers :: config_parsers where
  "sample_parsers = \<lparr>cp_lychee = (\<lambda>contents. Inr (config_default\<lparr>cf_no_progress := Some (contents = ''a''),
       cf_header := [(''accept'', contents)]\<rparr>)),
     cp_cargo = (\<lambda>_. Inr (None, None)), cp_pyproject = (\<lambda>_. Inr None), cp_package_json = (\<lambda>_. Inr None), cp_debug = (\<lambda>_. [])\<rparr>"

definition file_config :: "string \<Rightarrow> config" where
  "file_config contents = config_default\<lparr>cf_no_progress := Some (contents = ''a''), cf_header := [(''accept'', contents)]\<rparr>"

definition config_fs :: file_system where
  "config_fs = \<lparr>fs_metadata = (\<lambda>_. Inr FsFile), fs_read = (\<lambda>p. Inr (if p = [''a.toml''] then ''a'' else ''b'')), fs_walk = (\<lambda>_. [])\<rparr>"

lemma sample_load: "load_from_file sample_parsers config_fs [name] = Inr (file_config (if name = ''a.toml'' then ''a'' else ''b''))"
  if "\<forall>loader. loader_filename loader \<noteq> name" "name \<notin> {''/'', ''.'', ''..''}"
  using that not_sym [OF spec [OF that(1)]]
  by (simp add: load_from_file_def config_fs_def file_name_def LOADERS_def unwrap_or_def sample_parsers_def file_config_def
      del: loader_filename.simps)

theorem config_files_precedence_witness:
  "\<exists>cfg. merge_config_files sample_parsers config_fs (rev [[''a.toml''], [''b.toml'']]) config_default = Inr cfg \<and>
     cfg_no_progress cfg = False \<and> cfg_headers cfg ''accept'' = Some ''a''"
proof -
  have "loader_filename loader \<noteq> ''a.toml''" "loader_filename loader \<noteq> ''b.toml''" for loader
    by (cases loader; simp)+
  then have names: "\<forall>loader. loader_filename loader \<noteq> ''a.toml''" "\<forall>loader. loader_filename loader \<noteq> ''b.toml''" by auto
  have "list_all2 (\<lambda>path c. load_from_file sample_parsers config_fs path = Inr c) [[''a.toml''], [''b.toml'']]
      [file_config ''a'', file_config ''b'']"
    by (simp add: sample_load names)
  from config_files_precedence [OF this, of config_default] obtain cfg where cfg:
    "merge_config_files sample_parsers config_fs (rev [[''a.toml''], [''b.toml'']]) config_default = Inr cfg"
    "single_options_of_first cfg [config_default, file_config ''b'', file_config ''a'']"
    "\<forall>c rest name. [file_config ''a'', file_config ''b''] = c # rest \<longrightarrow> cfg_headers c name \<noteq> None \<longrightarrow> cfg_headers cfg name = cfg_headers c name"
    by auto
  from cfg(2) have "of_first cf_no_progress cfg [config_default, file_config ''b'', file_config ''a'']"
    by (simp add: single_options_of_first_def)
  then have "cf_no_progress cfg = Some False" by (simp add: of_first_def file_config_def config_default_def)
  moreover have "cfg_headers (file_config ''a'') ''accept'' = Some ''a''" by (simp add: cfg_headers_def file_config_def)
  with cfg(3) have "cfg_headers cfg ''accept'' = Some ''a''" by simp
  ultimately show ?thesis using cfg(1) by (simp add: cfg_no_progress_def unwrap_or_def)
qed

theorem header_of_two_cases_unpredictable_witness:
  "let hc = \<lparr>hd_name = (\<lambda>n. Inr (to_lowercase n)), hd_value = Inr, hd_to_str = Some\<rparr>
   in cfg_headers (config_merge (config_default\<lparr>cf_header := [(''x'', ''1'')]\<rparr>) (config_default\<lparr>cf_header := [(''X'', ''2'')]\<rparr>)) =
     [''x'' \<mapsto> ''1'', ''X'' \<mapsto> ''2''] \<and>
     from_header_pairs hc [(''x'', ''1''), (''X'', ''2'')] [] = Inr [(''x'', ''2'')]"
proof -
  let ?hc = "\<lparr>hd_name = (\<lambda>n. Inr (to_lowercase n)), hd_value = Inr, hd_to_str = Some\<rparr>"
  let ?cli = "config_default\<lparr>cf_header := [(''x'', ''1'')]\<rparr>" and ?file = "config_default\<lparr>cf_header := [(''X'', ''2'')]\<rparr>"
  have lower: "to_lowercase ''X'' = ''x''" "to_lowercase ''x'' = ''x''"
    by code_simp+
  have "header_parser ?hc (Some ''X: 1'') = Inr (''x'', ''1'')"
    by (simp add: header_parser_def parse_single_header_def lower trim_by_def is_whitespace_def)
  note order = header_of_two_cases_unpredictable [OF this, of ?cli ?file "''X''" "''2''"]
  have "map_of [(''x'', ''1''), (''X'', ''2'')] = [''x'' \<mapsto> ''1'', ''X'' \<mapsto> ''2'']" by (auto simp: fun_eq_iff)
  moreover have "distinct (map fst [(''x'', ''1''), (''X'', ''2'')])" by simp
  ultimately show ?thesis using order(1) lower unfolding Let_def by (simp add: insert_header_def)
qed

theorem concurrency_within_fd_limit_witness:
  "cfg_max_concurrency (handle_fd_limits (Some 100) config_default) + 20 \<le> 100"
  using concurrency_within_fd_limit [of config_default "Some 100"]
  by (auto simp: config_default_def BASELINE_OVERHEAD_def handle_fd_limits_def cfg_max_concurrency_def unwrap_or_def
      set_max_concurrency_def)

end
