(* ===== verification/Collector.thy ===== *)
theory Collector
  imports Inputs Requests MarkdownLinks
begin

text \<open>
  Collecting the links of all inputs: \<open>lychee-lib/src/collector.rs\<close>.  The streams run inputs and contents
  in parallel and give their results in any order: the operation \<open>collect\_links\_from\_file\_types\<close> of the model
  takes them one after the other, and \<open>collected\<close> holds of every result with both in any order, of which
  the former is one.  The pool of hosts is part of the
  state, as the collector only shares it.
\<close>

section \<open>The collector\<close>

record collector =
  col_basic_auth_extractor :: "auth_extractor option"
  col_skip_missing_inputs :: bool
  col_skip_ignored :: bool
  col_skip_hidden :: bool
  col_include_verbatim :: bool
  col_include_wikilinks :: bool
  col_use_html5ever :: bool
  col_root_dir :: "path option"
  col_base :: base_info
  col_excluded_paths :: regex_filter
  col_headers :: "(string \<times> string) list"
  col_preprocessor :: "preprocessor option"

text \<open>\<open>Path::join\<close> and \<open>Path::strip_prefix("/")\<close> on the components of paths.\<close>

definition path_append :: "path \<Rightarrow> path \<Rightarrow> path" where
  "path_append p q =
     (if path_rooted q then q
      else if p \<noteq> [] \<and> q \<noteq> [] \<and> hd q = ''.'' then p @ tl q
      else p @ q)"

lemma path_join_append: "path_join p s = path_append p (path_components s)"
  by (simp add: path_join_def path_append_def Let_def)

definition strip_root :: "path \<Rightarrow> path" where
  "strip_root p = (if path_rooted p then tl p else p)"

text \<open>With a root directory and a local base that is a full path, the former is taken below the latter.\<close>

definition collector_roots :: "base_env \<Rightarrow> path option \<Rightarrow> base_info \<Rightarrow> path option" where
  "collector_roots be root_dir base =
     (case (root_dir, base) of
        (Some root_dir, Full origin path) \<Rightarrow>
          if url_scheme origin = ''file'' \<and> path = [] then
            (case be_to_file_path be origin of
               Some base_path \<Rightarrow> Some (path_append base_path (strip_root root_dir))
             | None \<Rightarrow> Some (strip_root root_dir))
          else Some (case be_absolute be root_dir of Some p \<Rightarrow> p | None \<Rightarrow> root_dir)
      | (Some root_dir, _) \<Rightarrow> Some (case be_absolute be root_dir of Some p \<Rightarrow> p | None \<Rightarrow> root_dir)
      | (None, _) \<Rightarrow> None)"

definition collector_new :: "base_env \<Rightarrow> path option \<Rightarrow> base_info \<Rightarrow> collector" where
  "collector_new be root_dir base =
     \<lparr>col_basic_auth_extractor = None, col_skip_missing_inputs = False, col_skip_ignored = True,
      col_skip_hidden = True, col_include_verbatim = False, col_include_wikilinks = False,
      col_use_html5ever = False, col_root_dir = collector_roots be root_dir base, col_base = base,
      col_excluded_paths = [], col_headers = [], col_preprocessor = None\<rparr>"

definition collector_default :: collector where
  "collector_default =
     \<lparr>col_basic_auth_extractor = None, col_skip_missing_inputs = False, col_skip_ignored = True,
      col_skip_hidden = True, col_include_verbatim = False, col_include_wikilinks = False,
      col_use_html5ever = False, col_root_dir = None, col_base = BaseNone,
      col_excluded_paths = [], col_headers = [], col_preprocessor = None\<rparr>"

lemma collector_new_default: "collector_new be None BaseNone = collector_default"
  by (simp add: collector_new_def collector_default_def collector_roots_def)

section \<open>Collecting links\<close>

definition collector_resolver :: "collector \<Rightarrow> url_resolver" where
  "collector_resolver self =
     \<lparr>ur_basic_auth_extractor = col_basic_auth_extractor self, ur_headers = col_headers self\<rparr>"

definition collector_extractor :: "collector \<Rightarrow> extractor" where
  "collector_extractor self =
     \<lparr>ex_use_html5ever = col_use_html5ever self, ex_include_verbatim = col_include_verbatim self,
      ex_include_wikilinks = col_include_wikilinks self\<rparr>"

definition collector_options :: "collector \<Rightarrow> file_extensions \<Rightarrow> contents_options" where
  "collector_options self extensions =
     \<lparr>co_skip_missing = col_skip_missing_inputs self, co_skip_hidden = col_skip_hidden self,
      co_skip_ignored = col_skip_ignored self, co_extensions = extensions,
      co_excluded_paths = col_excluded_paths self, co_preprocessor = col_preprocessor self\<rparr>"

text \<open>The parameters: resolving of bases, extraction, reading of inputs, and the network.\<close>

record ('c, 'w) collect_env =
  cn_base :: base_env
  cn_extract :: extract_env
  cn_inputs :: input_env
  cn_website :: "('c, 'w) website_env"

text \<open>The requests of one content; an error of the input is passed on.\<close>

definition content_requests ::
  "('c, 'w) collect_env \<Rightarrow> collector \<Rightarrow> request_error + input_content \<Rightarrow> (request_error + request) list eval" where
  "content_requests cn self content =
     (case content of
        Inl e \<Rightarrow> Value [Inl e]
      | Inr content \<Rightarrow>
          eval_bind (extractor_extract (cn_extract cn) (collector_extractor self) (ic_content content)
            (ic_file_type content)) (\<lambda>uris.
              create_requests (cn_base cn) (ie_rx (cn_inputs cn)) uris (ic_source content) (col_root_dir self)
                (col_base self) (col_basic_auth_extractor self)))"

fun contents_requests ::
  "('c, 'w) collect_env \<Rightarrow> collector \<Rightarrow> (request_error + input_content) list \<Rightarrow> (request_error + request) list eval"
where
  "contents_requests cn self [] = Value []"
| "contents_requests cn self (content # contents) =
     eval_bind (content_requests cn self content) (\<lambda>requests.
       eval_bind (contents_requests cn self contents) (\<lambda>rest. Value (requests @ rest)))"

definition input_requests ::
  "('c, 'w) collect_env \<Rightarrow> collector \<Rightarrow> file_extensions \<Rightarrow> input \<Rightarrow> 'c host_pool \<times> 'w \<Rightarrow>
   ((request_error + request) list \<times> 'c host_pool \<times> 'w) eval" where
  "input_requests cn self extensions input st =
     eval_bind (get_contents (cn_inputs cn) (cn_website cn) (collector_resolver self)
         (collector_options self extensions) input st) (\<lambda>(contents, st).
       eval_bind (contents_requests cn self contents) (\<lambda>requests. Value (requests, st)))"

fun collect_links_from_file_types ::
  "('c, 'w) collect_env \<Rightarrow> collector \<Rightarrow> file_extensions \<Rightarrow> input list \<Rightarrow> 'c host_pool \<times> 'w \<Rightarrow>
   ((request_error + request) list \<times> 'c host_pool \<times> 'w) eval" where
  "collect_links_from_file_types cn self extensions [] st = Value ([], st)"
| "collect_links_from_file_types cn self extensions (input # inputs) st =
     eval_bind (input_requests cn self extensions input st) (\<lambda>(requests, st).
       eval_bind (collect_links_from_file_types cn self extensions inputs st) (\<lambda>(rest, st).
         Value (requests @ rest, st)))"

definition collect_links ::
  "('c, 'w) collect_env \<Rightarrow> collector \<Rightarrow> input list \<Rightarrow> 'c host_pool \<times> 'w \<Rightarrow>
   ((request_error + request) list \<times> 'c host_pool \<times> 'w) eval" where
  "collect_links cn self inputs st = collect_links_from_file_types cn self default_extensions inputs st"

text \<open>
  What the stream can give.  The inputs are a set, and the first \<open>par\_then\_unordered\<close> gives their streams in any
  order, which are then read one after the other; the tasks of the second one end in any order, and the
  requests of one content are given together.  \<open>collect\_links\_from\_file\_types\<close> above is the run in which both
  keep the order.
\<close>

fun inputs_contents ::
  "('c, 'w) collect_env \<Rightarrow> collector \<Rightarrow> file_extensions \<Rightarrow> input list \<Rightarrow> 'c host_pool \<times> 'w \<Rightarrow>
   ((request_error + input_content) list \<times> 'c host_pool \<times> 'w) eval" where
  "inputs_contents cn self extensions [] st = Value ([], st)"
| "inputs_contents cn self extensions (input # inputs) st =
     eval_bind (get_contents (cn_inputs cn) (cn_website cn) (collector_resolver self)
         (collector_options self extensions) input st) (\<lambda>(contents, st).
       eval_bind (inputs_contents cn self extensions inputs st) (\<lambda>(rest, st). Value (contents @ rest, st)))"

definition collected ::
  "('c, 'w) collect_env \<Rightarrow> collector \<Rightarrow> file_extensions \<Rightarrow> input list \<Rightarrow> 'c host_pool \<times> 'w \<Rightarrow>
   (request_error + request) list \<Rightarrow> 'c host_pool \<times> 'w \<Rightarrow> bool" where
  "collected cn self extensions inputs st rs st' \<longleftrightarrow>
     (\<exists>inputs' contents contents'. mset inputs' = mset inputs \<and>
        inputs_contents cn self extensions inputs' st = Value (contents, st') \<and> mset contents' = mset contents \<and>
        contents_requests cn self contents' = Value rs)"

lemma contents_requests_append:
  "contents_requests cn self (cs @ cs') =
     eval_bind (contents_requests cn self cs) (\<lambda>rs. eval_bind (contents_requests cn self cs') (\<lambda>rs'. Value (rs @ rs')))"
proof (induction cs)
  case Nil
  show ?case by (cases "contents_requests cn self cs'") simp_all
next
  case (Cons c cs)
  then show ?case
    by (cases "content_requests cn self c"; cases "contents_requests cn self cs"; cases "contents_requests cn self cs'") simp_all
qed

lemma collect_in_order:
  "collect_links_from_file_types cn self extensions inputs st = Value (rs, st') \<Longrightarrow>
   \<exists>contents. inputs_contents cn self extensions inputs st = Value (contents, st') \<and> contents_requests cn self contents = Value rs"
proof (induction inputs arbitrary: st rs)
  case (Cons input inputs)
  then obtain rs1 st1 rs2 where one: "input_requests cn self extensions input st = Value (rs1, st1)"
    and rest: "collect_links_from_file_types cn self extensions inputs st1 = Value (rs2, st')" "rs = rs1 @ rs2"
    by (auto simp: eval_bind_def split: eval.splits)
  from one obtain contents1 where "get_contents (cn_inputs cn) (cn_website cn) (collector_resolver self)
      (collector_options self extensions) input st = Value (contents1, st1)" "contents_requests cn self contents1 = Value rs1"
    by (auto simp: input_requests_def eval_bind_def split: eval.splits)
  moreover from Cons.IH [OF rest(1)] obtain contents2 where
    "inputs_contents cn self extensions inputs st1 = Value (contents2, st')" "contents_requests cn self contents2 = Value rs2"
    by blast
  ultimately show ?case using rest(2) by (simp add: contents_requests_append)
qed simp

lemma collect_collected:
  "collect_links_from_file_types cn self extensions inputs st = Value (rs, st') \<Longrightarrow>
   collected cn self extensions inputs st rs st'"
  using collect_in_order unfolding collected_def by metis

section \<open>Local inputs\<close>

text \<open>What is not a remote input neither uses nor changes the pool and the network.\<close>

definition local_input :: "input \<Rightarrow> bool" where
  "local_input input \<longleftrightarrow> (case in_source input of RemoteUrl _ \<Rightarrow> False | _ \<Rightarrow> True)"

definition local_source :: "error_kind + resolved_source \<Rightarrow> bool" where
  "local_source r \<longleftrightarrow> (case r of Inr (ResolvedUrl _) \<Rightarrow> False | _ \<Rightarrow> True)"

lemma file_source_local: "file_source r \<Longrightarrow> local_source r"
  by (auto simp: file_source_def local_source_def split: sum.splits resolved_source.splits)

lemma resolved_local:
  assumes "local_input input"
  shows "list_all local_source (resolve_input ie input extensions hidden ignored excluded)"
proof -
  consider "in_source input = Stdin" | s where "in_source input = InputString s"
    | "(\<exists>path. in_source input = FsPath path) \<or> (\<exists>pattern b. in_source input = FsGlob pattern b)"
    using assms by (cases "in_source input") (auto simp: local_input_def)
  then show ?thesis
  proof cases
    case 3
    from resolved_files [OF this] show ?thesis by (auto simp: list_all_iff intro: file_source_local)
  qed (simp_all add: resolve_input_def local_source_def)
qed

text \<open>The contents of local sources, without the state.\<close>

fun local_content :: "input_env \<Rightarrow> contents_options \<Rightarrow> file_type option \<Rightarrow> resolved_source \<Rightarrow> error_kind + input_content" where
  "local_content ie co hint (ResolvedPath path) = path_content ie (co_preprocessor co) path"
| "local_content ie co hint ResolvedStdin = stdin_content ie hint"
| "local_content ie co hint (ResolvedString s) = Inr (string_content s hint)"
| "local_content ie co hint (ResolvedUrl url) = Inl (InvalidInput (url_str url))"

lemma source_content_local:
  "local_source (Inr source) \<Longrightarrow> source_content ie we ur co hint source st = Value (local_content ie co hint source, st)"
  by (cases source) (simp_all add: source_content_def local_source_def)

lemma sources_contents_local:
  "list_all local_source results \<Longrightarrow>
   \<exists>items. \<forall>st. sources_contents ie we ur co self results st = Value (items, st)"
proof (induction results)
  case (Cons r results)
  then obtain items where rest: "sources_contents ie we ur co self results st = Value (items, st)" for st by auto
  show ?case
  proof (cases r)
    case (Inr source)
    with Cons.prems have "local_source (Inr source)" by simp
    note content = source_content_local [OF this, where ie = ie and we = we and ur = ur and co = co]
    show ?thesis
      by (cases "local_content ie co (in_file_type_hint self) source"; cases "co_skip_missing co";
        cases "is_invalid_data (projl (local_content ie co (in_file_type_hint self) source))")
        (simp_all add: Inr content rest)
  qed simp
qed simp

lemma get_contents_local:
  assumes "local_input input"
  obtains items where "\<And>st. get_contents ie we ur co input st = Value (items, st)"
proof -
  obtain resolved where "\<And>st. sources_contents ie we ur co input (resolve_input ie input (co_extensions co)
      (co_skip_hidden co) (co_skip_ignored co) (co_excluded_paths co)) st = Value (resolved, st)"
    using sources_contents_local [OF resolved_local [OF assms]] by metis
  then have "\<exists>items. \<forall>st. get_contents ie we ur co input st = Value (items, st)"
    using assms by (cases "in_source input"; cases "stdin_content ie (in_file_type_hint input)";
      cases "path_readable ie (case in_source input of FsPath p \<Rightarrow> p | _ \<Rightarrow> [])")
      (auto simp: get_contents_def local_input_def simp del: split_paired_All split: option.split)
  with that show thesis by blast
qed

lemma input_requests_local:
  assumes "local_input input"
  shows "(\<forall>st. input_requests cn self extensions input st = Panic) \<or>
    (\<exists>rs. \<forall>st. input_requests cn self extensions input st = Value (rs, st))"
proof -
  obtain items where "\<And>st. get_contents (cn_inputs cn) (cn_website cn) (collector_resolver self)
      (collector_options self extensions) input st = Value (items, st)"
    using get_contents_local [OF assms] by blast
  then show ?thesis
    by (cases "contents_requests cn self items") (simp_all add: input_requests_def)
qed

text \<open>So each local input has its requests, and a collection is their concatenation.\<close>

lemma local_requests:
  assumes "\<forall>input \<in> set inputs. local_input input"
  obtains f where "\<forall>input \<in> set inputs. \<forall>st. input_requests cn self extensions input st =
    (case f input of None \<Rightarrow> Panic | Some rs \<Rightarrow> Value (rs, st))"
proof -
  have "\<forall>input \<in> set inputs. \<exists>r. \<forall>st. input_requests cn self extensions input st =
      (case r of None \<Rightarrow> Panic | Some rs \<Rightarrow> Value (rs, st))"
  proof
    fix input assume "input \<in> set inputs"
    with assms input_requests_local [of input cn self extensions]
    consider "\<forall>st. input_requests cn self extensions input st = Panic"
      | rs where "\<forall>st. input_requests cn self extensions input st = Value (rs, st)" by blast
    then show "\<exists>r. \<forall>st. input_requests cn self extensions input st =
        (case r of None \<Rightarrow> Panic | Some rs \<Rightarrow> Value (rs, st))"
      by cases (auto intro: exI [of _ None] exI [of _ "Some rs" for rs])
  qed
  from bchoice [OF this] that show thesis by blast
qed

lemma collect_of_requests:
  assumes "\<forall>input \<in> set inputs. \<forall>st. input_requests cn self extensions input st =
    (case f input of None \<Rightarrow> Panic | Some rs \<Rightarrow> Value (rs, st))"
  shows "collect_links_from_file_types cn self extensions inputs st =
    (if \<forall>input \<in> set inputs. f input \<noteq> None then Value (concat (map (the \<circ> f) inputs), st) else Panic)"
  using assms by (induction inputs) (auto simp del: split_paired_All split: option.split)

lemma collection_permuted:
  assumes "\<forall>input \<in> set inputs. local_input input" and "mset inputs' = mset inputs"
    and "collect_links_from_file_types cn self extensions inputs st = Value (rs, st')"
  shows "st' = st \<and> (\<exists>rs'. collect_links_from_file_types cn self extensions inputs' st = Value (rs', st) \<and>
    mset rs' = mset rs)"
proof -
  obtain f where f: "\<forall>input \<in> set inputs. \<forall>st. input_requests cn self extensions input st =
      (case f input of None \<Rightarrow> Panic | Some rs \<Rightarrow> Value (rs, st))"
    using local_requests [OF assms(1)] by blast
  have same: "set inputs' = set inputs" using assms(2) by (rule mset_eq_setD)
  from assms(3) collect_of_requests [OF f, of st]
  have "\<forall>input \<in> set inputs. f input \<noteq> None" "st' = st" "rs = concat (map (the \<circ> f) inputs)"
    by (simp_all split: if_splits)
  moreover have "mset (concat (map (the \<circ> f) inputs')) = mset (concat (map (the \<circ> f) inputs))"
    using assms(2) by (simp add: mset_concat flip: mset_map) (simp add: image_mset.compositionality flip: sum_mset_sum_list)
  ultimately show ?thesis
    using collect_of_requests [of inputs' cn self extensions f st] f same by simp
qed

section \<open>Properties\<close>

text \<open>The order in which local inputs are handled does not matter: whatever order the parallel streams
  take, the collection finds the same requests and the same errors, each as often, and neither the hosts
  nor the network are involved.
\<close>

theorem collection_order_irrelevant:
  assumes "\<forall>input \<in> set inputs. local_input input" and "mset inputs' = mset inputs"
    and "collect_links_from_file_types cn self extensions inputs st = Value (rs, st')"
  shows "st' = st \<and> (\<exists>rs'. collect_links_from_file_types cn self extensions inputs' st = Value (rs', st) \<and>
    mset rs' = mset rs)"
  by (rule collection_permuted [OF assms])

text \<open>
  Whether a list of entries is what becomes of a content: an error of the input is passed on as it is; if the
  source of the content is no base, that is the one entry; otherwise there is one for every link that the
  extractor finds, in the order of the links.
\<close>

definition accounted ::
  "('c, 'w) collect_env \<Rightarrow> collector \<Rightarrow> uri \<Rightarrow> request_error + input_content \<Rightarrow> (request_error + request) list \<Rightarrow> bool" where
  "accounted cn self error_uri content part \<longleftrightarrow>
     (case content of
        Inl e \<Rightarrow> part = [Inl e]
      | Inr c \<Rightarrow>
          \<exists>uris. extractor_extract (cn_extract cn) (collector_extractor self) (ic_content c) (ic_file_type c) = Value uris \<and>
            (case to_base_info (cn_base cn) (ic_source c) of
               Inl e \<Rightarrow> part = [Inl (InputSourceError (input_source_of (ic_source c)) e)]
             | Inr source_base \<Rightarrow>
                 \<exists>fallback. use_fs_root_as_origin (cn_base cn) (col_base self) = Value fallback \<and>
                   list_all2 (handled (cn_base cn) (ie_rx (cn_inputs cn)) (ic_source c) (col_root_dir self)
                     (or_fallback source_base fallback) (col_basic_auth_extractor self) error_uri) uris part))"

lemma content_accounted:
  assumes "content_requests cn self content = Value part"
  shows "accounted cn self error_uri content part"
proof (cases content)
  case (Inl e)
  with assms show ?thesis by (simp add: content_requests_def accounted_def)
next
  case (Inr c)
  with assms obtain uris where uris: "extractor_extract (cn_extract cn) (collector_extractor self) (ic_content c)
      (ic_file_type c) = Value uris"
    and part: "create_requests (cn_base cn) (ie_rx (cn_inputs cn)) uris (ic_source c) (col_root_dir self) (col_base self)
      (col_basic_auth_extractor self) = Value part"
    by (auto simp: content_requests_def eval_bind_def split: eval.splits)
  show ?thesis
  proof (cases "to_base_info (cn_base cn) (ic_source c)")
    case (Inl e)
    with Inr uris part show ?thesis by (simp add: accounted_def create_requests_def)
  next
    case base: (Inr source_base)
    with part obtain fallback where fallback: "use_fs_root_as_origin (cn_base cn) (col_base self) = Value fallback"
      by (auto simp: create_requests_def eval_bind_def split: eval.splits)
    from create_requests_handled [OF base fallback, of "ie_rx (cn_inputs cn)" uris "col_root_dir self"
        "col_basic_auth_extractor self" error_uri] part
    have "list_all2 (handled (cn_base cn) (ie_rx (cn_inputs cn)) (ic_source c) (col_root_dir self)
        (or_fallback source_base fallback) (col_basic_auth_extractor self) error_uri) uris part" by simp
    with Inr uris base fallback show ?thesis by (simp add: accounted_def)
  qed
qed

lemma contents_accounted:
  "contents_requests cn self contents = Value rs \<Longrightarrow>
   \<exists>parts. rs = concat parts \<and> list_all2 (accounted cn self error_uri) contents parts"
proof (induction contents arbitrary: rs)
  case (Cons c contents)
  then obtain part rest where part: "content_requests cn self c = Value part"
    and rest: "contents_requests cn self contents = Value rest" "rs = part @ rest"
    by (auto simp: eval_bind_def split: eval.splits)
  from Cons.IH [OF rest(1)] obtain parts where "rest = concat parts" "list_all2 (accounted cn self error_uri) contents parts"
    by blast
  with rest(2) content_accounted [OF part] show ?case by (intro exI [of _ "part # parts"]) simp
qed simp

text \<open>C14: Nothing the inputs hold is lost, in whatever order they and their contents are handled: the stream gives
  the entries of all contents of all inputs, those of one content together and each content's once.  An error of an
  input is passed on as it is.  A content whose source is a base gives exactly one entry for every link that the
  extractor finds in it, in their order, a request or a failed response for it; only a content whose source is no
  base gives the one error that says so.
\<close>

theorem input_links_accounted:
  assumes "collected cn self extensions inputs st rs st'"
  shows "\<exists>inputs' contents contents' parts. mset inputs' = mset inputs \<and>
    inputs_contents cn self extensions inputs' st = Value (contents, st') \<and> mset contents' = mset contents \<and>
    rs = concat parts \<and> list_all2 (accounted cn self error_uri) contents' parts"
proof -
  from assms obtain inputs' contents contents' where "mset inputs' = mset inputs"
      "inputs_contents cn self extensions inputs' st = Value (contents, st')" "mset contents' = mset contents"
    and run: "contents_requests cn self contents' = Value rs" unfolding collected_def by blast
  with contents_accounted [OF run] show ?thesis by blast
qed

section \<open>Instances\<close>

text \<open>A finder for which every plain text is one link.\<close>

definition sample_collect_env :: "(unit, nat) collect_env" where
  "sample_collect_env = \<lparr>cn_base = plain_base_env,
     cn_extract = (documents [])\<lparr>xe_find_links := (\<lambda>s. [(s, 0)])\<rparr>,
     cn_inputs = sample_input_env, cn_website = sample_env 200\<rparr>"

definition string_input :: "string \<Rightarrow> input" where
  "string_input s = \<lparr>in_source = InputString s, in_file_type_hint = None\<rparr>"

lemma sample_contents:
  "get_contents sample_input_env (sample_env 200) ur co (string_input s) st = Value ([Inr (from_string s Plaintext)], st)"
  by (simp add: get_contents_def string_input_def string_content_def hinted_type_def)

lemma sample_requests:
  "\<exists>r. \<forall>st. input_requests sample_collect_env (collector_new plain_base_env None BaseNone) extensions (string_input s) st =
     Value ([r], st)"
  by (simp add: input_requests_def sample_contents [unfolded sample_env_def] sample_collect_env_def sample_env_def
      content_requests_def from_string_def extractor_extract_def collector_extractor_def collector_new_def
      extract_plaintext_def create_requests_def to_base_info_def)

theorem collection_order_irrelevant_witness:
  "let collect = (\<lambda>inputs. collect_links_from_file_types sample_collect_env (collector_new plain_base_env None BaseNone) []
       (map string_input inputs) (new_pool, 0))
   in \<exists>rs rs'. collect [''a'', ''b''] = Value (rs, new_pool, 0) \<and> collect [''b'', ''a''] = Value (rs', new_pool, 0) \<and>
     length rs = 2 \<and> mset rs' = mset rs"
proof -
  let ?self = "collector_new plain_base_env None BaseNone"
  obtain ra rb where "input_requests sample_collect_env ?self [] (string_input ''a'') st = Value ([ra], st)"
    "input_requests sample_collect_env ?self [] (string_input ''b'') st = Value ([rb], st)" for st
    using sample_requests by metis
  then have run: "collect_links_from_file_types sample_collect_env ?self [] (map string_input [''a'', ''b'']) (new_pool, 0) =
      Value ([ra, rb], new_pool, 0)" by simp
  have perm: "mset (map string_input [''b'', ''a'']) = mset (map string_input [''a'', ''b''])"
    by (simp add: add_mset_commute)
  have "\<forall>input \<in> set (map string_input [''a'', ''b'']). local_input input"
    by (simp add: string_input_def local_input_def)
  from collection_order_irrelevant [OF this perm run] run show ?thesis unfolding Let_def by fastforce
qed

theorem input_links_accounted_witness:
  "\<exists>r. collected sample_collect_env (collector_new plain_base_env None BaseNone) [] [string_input ''a''] (new_pool, 0) [r] (new_pool, 0) \<and>
     (\<exists>raw. handled plain_base_env (ie_rx sample_input_env) (ResolvedString ''a'') None BaseNone None
       (domain_url ''error'' [] []) raw r)"
proof -
  let ?self = "collector_new plain_base_env None BaseNone"
  obtain r where "input_requests sample_collect_env ?self [] (string_input ''a'') (new_pool, 0) = Value ([r], new_pool, 0)"
    using sample_requests by blast
  then have run: "collected sample_collect_env ?self [] [string_input ''a''] (new_pool, 0) [r] (new_pool, 0)"
    by (intro collect_collected) simp
  from input_links_accounted [OF run, of "domain_url ''error'' [] []"] obtain contents' parts where
    "mset contents' = {#Inr (from_string ''a'' Plaintext)#}" "[r] = concat parts"
    and parts: "list_all2 (accounted sample_collect_env ?self (domain_url ''error'' [] [])) contents' parts"
    by (auto simp: sample_collect_env_def sample_contents)
  then have "contents' = [Inr (from_string ''a'' Plaintext)]" by simp
  with parts \<open>[r] = concat parts\<close> have "accounted sample_collect_env ?self (domain_url ''error'' [] []) (Inr (from_string ''a'' Plaintext)) [r]"
    by (auto simp: list_all2_Cons1)
  then have "\<exists>raw. handled plain_base_env (ie_rx sample_input_env) (ResolvedString ''a'') None BaseNone None
      (domain_url ''error'' [] []) raw r"
    by (auto simp: accounted_def from_string_def sample_collect_env_def to_base_info_def collector_new_def
        collector_roots_def list_all2_Cons2)
  with run show ?thesis by blast
qed

end
