(* ===== verification/Library.thy ===== *)
theory Library
  imports Client StatusSelector
begin

text \<open>
  What the library offers its callers: the conversions into a request (\<open>types/request.rs\<close>), the options of
  \<open>ClientBuilder\<close> where none is set, and the function \<open>check\<close> (\<open>client.rs\<close>).
\<close>

section \<open>Requests\<close>

definition request_of_uri :: "uri \<Rightarrow> request" where
  "request_of_uri uri = request_new uri (ResolvedUrl uri)"

definition request_of_text :: "url_crate \<Rightarrow> (string \<Rightarrow> bool) \<Rightarrow> string \<Rightarrow> error_kind + request" where
  "request_of_text uc valid_mail s =
     res_bind (uri_try_from uc valid_mail s) (\<lambda>uri. Inr (request_new uri (ResolvedString s)))"

definition with_element :: "string \<Rightarrow> request \<Rightarrow> request" where
  "with_element element self = self\<lparr>rq_element := Some element\<rparr>"

definition with_attribute :: "string \<Rightarrow> request \<Rightarrow> request" where
  "with_attribute attr self = self\<lparr>rq_attribute := Some attr\<rparr>"

definition with_span :: "raw_uri_span \<Rightarrow> request \<Rightarrow> request" where
  "with_span sp self = self\<lparr>rq_span := Some sp\<rparr>"

definition with_credentials :: "credentials \<Rightarrow> request \<Rightarrow> request" where
  "with_credentials credentials self = self\<lparr>rq_credentials := Some credentials\<rparr>"

section \<open>Defaults\<close>

definition DEFAULT_MAX_REDIRECTS :: nat where "DEFAULT_MAX_REDIRECTS = 10"
definition DEFAULT_MAX_RETRIES :: nat where "DEFAULT_MAX_RETRIES = 3"
definition DEFAULT_RETRY_WAIT_TIME_SECS :: nat where "DEFAULT_RETRY_WAIT_TIME_SECS = 1"
definition DEFAULT_TIMEOUT_SECS :: nat where "DEFAULT_TIMEOUT_SECS = 20"

text \<open>The version of the package is set by the build.\<close>

definition DEFAULT_USER_AGENT :: "string \<Rightarrow> string" where
  "DEFAULT_USER_AGENT version = ''lychee/'' @ version"

definition DEFAULT_ACCEPTED_STATUS_CODES :: "http \<Rightarrow> status_code set eval" where
  "DEFAULT_ACCEPTED_STATUS_CODES h = sel_codes h default_accepted"

definition builder_default :: "http \<Rightarrow> string \<Rightarrow> ('c, 'w) client_builder eval" where
  "builder_default h version = eval_bind (DEFAULT_ACCEPTED_STATUS_CODES h) (\<lambda>accepted. Value
     \<lparr>cb_remaps = None, cb_base = BaseNone, cb_fallback_extensions = [], cb_index_files = None,
      cb_includes = None, cb_excludes = None, cb_exclude_all_private = False, cb_exclude_private_ips = False,
      cb_exclude_link_local_ips = False, cb_exclude_loopback_ips = False, cb_include_mail = False,
      cb_max_redirects = DEFAULT_MAX_REDIRECTS, cb_min_tls_version = None, cb_allow_insecure = False,
      cb_timeout = None, cb_cookie_jar = False, cb_schemes = {}, cb_user_agent = DEFAULT_USER_AGENT version,
      cb_custom_headers = [], cb_method = ''GET'', cb_accepted = accepted, cb_max_retries = DEFAULT_MAX_RETRIES,
      cb_retry_wait_time = from_secs DEFAULT_RETRY_WAIT_TIME_SECS, cb_require_https = False,
      cb_github_token = None,
      cb_fragment_options = \<lparr>check_anchor_fragments = False, check_text_fragments = False\<rparr>,
      cb_include_wikilinks = False, cb_plugin_request_chain = [],
      cb_rate_limit_config = rate_limit_from_options None None, cb_hosts = []\<rparr>)"

section \<open>Checking\<close>

text \<open>A new client has empty caches; its pool is shared with its website checker.\<close>

definition client_start :: "'c host_pool \<Rightarrow> 'w \<Rightarrow> ('c, 'w) client_state" where
  "client_start pool w =
     \<lparr>cs_website = \<lparr>ws_pool = pool, ws_fragments = Map.empty, ws_world = w\<rparr>, cs_files = Map.empty\<rparr>"

text \<open>\<open>Client::check\<close> of what converts into a request.\<close>

definition check_converted ::
  "('c, 'w) client_env \<Rightarrow> ('c, 'w) client \<Rightarrow> nat \<Rightarrow> error_kind + request \<Rightarrow> ('c, 'w) client_state \<Rightarrow>
   ((error_kind + response) \<times> ('c, 'w) client_state) eval" where
  "check_converted ce cl elapsed request st =
     (case request of Inl e \<Rightarrow> Value (Inl e, st) | Inr request \<Rightarrow> client_check ce cl elapsed request st)"

definition lib_check ::
  "http \<Rightarrow> string \<Rightarrow> ('c, 'w) builder_env \<Rightarrow> ('c, 'w) client_env \<Rightarrow> nat \<Rightarrow> error_kind + request \<Rightarrow> 'w \<Rightarrow>
   ((error_kind + response) \<times> 'w) eval" where
  "lib_check h version bd ce elapsed request w =
     eval_bind (builder_default h version) (\<lambda>builder.
       case builder_client bd (ce_base ce) (ce_fs ce) builder of
         Inl e \<Rightarrow> Value (Inl e, w)
       | Inr (cl, pool) \<Rightarrow>
           eval_bind (check_converted ce cl elapsed request (client_start pool w)) (\<lambda>(res, st).
             Value (res, ws_world (cs_website st))))"

section \<open>Properties\<close>

lemma default_accepted_ranges:
  "default_accepted = [\<lparr>range_start = 100, range_end = 103\<rparr>, \<lparr>range_start = 200, range_end = 299\<rparr>]"
  by code_simp

lemma default_accepted_codes:
  assumes "http_documented h"
  shows "DEFAULT_ACCEPTED_STATUS_CODES h = Value ({100..103} \<union> {200..299})"
proof -
  have "valid_selector default_accepted"
    by (simp add: default_accepted_ranges valid_selector_def valid_range_def range_MIN_def range_MAX_def)
  moreover have "sel_contains default_accepted v \<longleftrightarrow> v \<in> {100..103} \<union> {200..299}" for v
    by (auto simp: default_accepted_ranges sel_contains_def range_contains_def)
  ultimately show ?thesis
    unfolding DEFAULT_ACCEPTED_STATUS_CODES_def using sel_codes_valid [OF assms] by (auto simp: set_eq_iff)
qed

lemma default_client:
  fixes bd :: "('c, 'w) builder_env"
  assumes "http_documented h" and "bd_header_error bd (DEFAULT_USER_AGENT version) = None"
    and "\<And>options. \<exists>c. bd_build bd options = Inr c"
  obtains b :: "('c, 'w) client_builder" and cl pool where "builder_default h version = Value b"
    "builder_client bd be fs b = Inr (cl, pool)" "cl_remaps cl = None" "f_include_mail (cl_filter cl) = False"
    "wc_accepted (cl_website_checker cl) = {100..103} \<union> {200..299}"
proof -
  obtain b :: "('c, 'w) client_builder" where b: "builder_default h version = Value b"
      "cb_user_agent b = DEFAULT_USER_AGENT version" "cb_github_token b = None" "cb_hosts b = []"
      "cb_include_wikilinks b = False" "cb_remaps b = None" "cb_include_mail b = False"
      "cb_accepted b = {100..103} \<union> {200..299}"
    by (simp add: builder_default_def default_accepted_codes [OF assms(1)])
  obtain c where "bd_build bd (projr (build_client bd b)) = Inr c" using assms(3) by blast
  then obtain cl pool where "builder_client bd be fs b = Inr (cl, pool)"
    using b assms(2) by (simp add: builder_client_def build_client_def default_headers_def build_host_clients_def
        github_client_of_def file_checker_new_def)
  with builder_client_fields [OF this] b that show ?thesis by (simp add: builder_filter_def)
qed

text \<open>Checking a text with the options of the library fails exactly if the text is neither a URL nor an address
  of mail.  Else there is a response for the URL as it was parsed, never remapped, whose source is the text
  itself.  Mail addresses and telephone numbers are excluded without contacting anyone.
\<close>

theorem default_check_of_text:
  fixes bd :: "('c, 'w) builder_env"
  assumes "http_documented h" and "bd_header_error bd (DEFAULT_USER_AGENT version) = None"
    and "\<And>options. \<exists>c. bd_build bd options = Inr c"
    and "lib_check h version bd ce elapsed (request_of_text uc valid_mail s) w = Value (res, w')"
  shows "case uri_try_from uc valid_mail s of
      Inl e \<Rightarrow> res = Inl e \<and> w' = w
    | Inr u \<Rightarrow> \<exists>resp. res = Inr resp \<and> rb_uri (r_body resp) = u \<and> rb_remap (r_body resp) = None \<and>
        r_source resp = InputString s \<and> (is_mail u \<or> is_tel u \<longrightarrow> r_status resp = StExcluded \<and> w' = w)"
proof -
  obtain b :: "('c, 'w) client_builder" and cl pool where b: "builder_default h version = Value b"
    and built: "builder_client bd (ce_base ce) (ce_fs ce) b = Inr (cl, pool)"
    and cl: "cl_remaps cl = None" "f_include_mail (cl_filter cl) = False"
    by (rule default_client [OF assms(1-3)])
  obtain st where run: "check_converted ce cl elapsed (request_of_text uc valid_mail s) (client_start pool w) = Value (res, st)"
      "w' = ws_world (cs_website st)"
    using assms(4) b built by (auto simp: lib_check_def eval_bind_def split: eval.splits)
  show ?thesis
  proof (cases "uri_try_from uc valid_mail s")
    case (Inl e)
    with run show ?thesis by (auto simp: check_converted_def request_of_text_def client_start_def)
  next
    case (Inr u)
    let ?request = "request_new u (ResolvedString s)"
    have remap: "remap_of ce cl u = Inr (u, None)" using cl by (simp add: remap_of_def client_remap_def)
    have check: "client_check ce cl elapsed ?request (client_start pool w) = Value (res, st)"
      using run Inr by (simp add: check_converted_def request_of_text_def)
    then obtain status redirects where res: "res = Inr (response_new u status redirects None (InputString s) None (Some elapsed))"
        "dispatch ce cl u None (client_start pool w) = Value ((status, redirects), st)"
      using client_check_Value [OF check] remap by (auto simp: request_new_def)
    have "status = StExcluded \<and> st = client_start pool w" if "is_mail u \<or> is_tel u"
    proof -
      have "client_is_excluded ce cl u"
        using that cl by (auto simp: client_is_excluded_def filter_is_excluded_def is_mail_excluded_def)
      with res(2) show ?thesis by (simp add: dispatch_excluded)
    qed
    with Inr res(1) run(2) show ?thesis by (auto simp: response_new_def client_start_def)
  qed
qed

theorem default_check_of_text_witness:
  "\<exists>resp. lib_check http_std ''0'' sample_builder_env sample_client_env 0
      (request_of_text plain_urls (\<lambda>_. True) ''tel://1/'') 7 = Value (Inr resp, 7) \<and>
    r_status resp = StExcluded \<and> r_source resp = InputString ''tel://1/''"
proof -
  let ?check = "lib_check http_std ''0'' sample_builder_env sample_client_env 0
      (request_of_text plain_urls (\<lambda>_. True) ''tel://1/'') 7"
  have documented: "http_documented http_std" and env: "bd_header_error sample_builder_env (DEFAULT_USER_AGENT ''0'') = None"
      "\<And>options. \<exists>c. bd_build sample_builder_env options = Inr c"
    by (simp_all add: http_std_documented sample_builder_env_def)
  have u: "uri_try_from plain_urls (\<lambda>_. True) ''tel://1/'' = Inr (domain_url ''tel'' ''1'' ''/'')" by code_simp
  let ?request = "request_new (domain_url ''tel'' ''1'' ''/'') (ResolvedString ''tel://1/'')"
  obtain b :: "(unit, nat) client_builder" and cl pool where built: "builder_default http_std ''0'' = Value b"
      "builder_client sample_builder_env (ce_base sample_client_env) (ce_fs sample_client_env) b = Inr (cl, pool)"
      "cl_remaps cl = None"
    by (rule default_client [OF documented env])
  then have "client_check sample_client_env cl 0 ?request st =
      Value (Inr (response_new (domain_url ''tel'' ''1'' ''/'') StExcluded None None (InputString ''tel://1/'') None (Some 0)), st)" for st
    by (simp add: client_check_def remap_of_def client_remap_def request_new_def dispatch_excluded is_tel_def)
  then obtain res w' where check: "?check = Value (res, w')"
    using built u by (simp add: lib_check_def request_of_text_def check_converted_def)
  from default_check_of_text [OF documented env check] u check show ?thesis by (auto simp: is_tel_def)
qed

end
