(* ===== verification/CheckPipeline.thy ===== *)
theory CheckPipeline
  imports ResponseStats Cache Steps
begin

text \<open>
  The tasks of a check and their channels: \<open>check\<close>, \<open>send_requests\<close>, \<open>request_channel_task\<close> and
  \<open>collect_responses\<close> of \<open>lychee-bin/src/commands/check.rs\<close>, with the \<open>WaitGroup\<close> of
  \<open>lychee-lib/src/waiter.rs\<close>.  A step is what one task does between two of its suspensions; any task
  that is not blocked may make the next one.
\<close>

section \<open>States\<close>

datatype task_state = TaskRunning | TaskFinished | TaskPanicked

datatype collector_state = Collecting response_stats | Collected "error_kind + response_stats"

datatype sender_state =
    Sending
  | Holding "request_error + request" \<comment> \<open>an item that \<open>send\<close> has not put into the channel yet, with a guard of its own\<close>
  | SendEnd "unit + unit"

fun held_items :: "sender_state \<Rightarrow> (request_error + request) list" where
  "held_items (Holding r) = [r]"
| "held_items _ = []"

text \<open>
  The items the stream has still to give, the channel of requests, the handlers that run, the answers
  that wait for room in the channel of responses, this channel, and the states of the three tasks.
  An item in a channel or a handler holds a guard, as does the item that the sender waits to send; the
  sender holds one of its own until it ends.
\<close>

record 'w pipeline =
  pl_input :: "(request_error + request) list"
  pl_requests :: "(request_error + request) list"
  pl_handlers :: "(request_error + request) list"
  pl_answers :: "(error_kind + response) list"
  pl_responses :: "(error_kind + response) list"
  pl_sender :: sender_state
  pl_task :: task_state
  pl_collector :: collector_state
  pl_world :: 'w

definition pipeline_start :: "(request_error + request) list \<Rightarrow> response_stats \<Rightarrow> 'w \<Rightarrow> 'w pipeline" where
  "pipeline_start requests stats w =
     \<lparr>pl_input = requests, pl_requests = [], pl_handlers = [], pl_answers = [], pl_responses = [],
      pl_sender = Sending, pl_task = TaskRunning, pl_collector = Collecting stats, pl_world = w\<rparr>"

text \<open>The guards that are not dropped: the receiver of the \<open>WaitGroup\<close> ends with the last of them.\<close>

definition guards :: "'w pipeline \<Rightarrow> nat" where
  "guards s = (case pl_sender s of Sending \<Rightarrow> 1 | Holding _ \<Rightarrow> 2 | SendEnd _ \<Rightarrow> 0) + length (pl_requests s) + length (pl_handlers s) +
     length (pl_answers s) + length (pl_responses s)"

definition all_finished :: "'w pipeline \<Rightarrow> bool" where
  "all_finished s \<longleftrightarrow> (case pl_sender s of SendEnd _ \<Rightarrow> True | _ \<Rightarrow> False) \<and> pl_task s \<noteq> TaskRunning \<and>
     (case pl_collector s of Collecting _ \<Rightarrow> False | Collected _ \<Rightarrow> True)"

text \<open>The items between the stream and the collector of responses.\<close>

definition under_way :: "'w pipeline \<Rightarrow> nat" where
  "under_way s = length (held_items (pl_sender s)) + length (pl_requests s) + length (pl_handlers s) +
     length (pl_answers s) + length (pl_responses s)"

section \<open>Steps\<close>

text \<open>
  The channels hold at most \<open>n\<close> items, and at most \<open>n\<close> requests are handled at once, counting those whose
  answer waits.  \<open>serve\<close> handles a request.  The receiver of responses is gone once the collector has
  ended: to send then is the panic of the \<open>expect\<close>, and the handlers and the receiver of requests go with it,
  so that the sender fails.
\<close>

inductive check_step ::
  "nat \<Rightarrow> (request_error + request \<Rightarrow> 'w \<Rightarrow> (error_kind + response) \<times> 'w) \<Rightarrow> 'w pipeline \<Rightarrow> 'w pipeline \<Rightarrow> bool"
  for n serve where
  next_item: "pl_sender s = Sending \<Longrightarrow> pl_input s = r # rest \<Longrightarrow>
    check_step n serve s (s\<lparr>pl_input := rest, pl_sender := Holding r\<rparr>)"
| send: "pl_sender s = Holding r \<Longrightarrow> pl_task s = TaskRunning \<Longrightarrow> length (pl_requests s) < n \<Longrightarrow>
    check_step n serve s (s\<lparr>pl_requests := pl_requests s @ [r], pl_sender := Sending\<rparr>)"
| send_fails: "pl_sender s = Holding r \<Longrightarrow> pl_task s \<noteq> TaskRunning \<Longrightarrow>
    check_step n serve s (s\<lparr>pl_sender := SendEnd (Inl ())\<rparr>)"
| send_ends: "pl_sender s = Sending \<Longrightarrow> pl_input s = [] \<Longrightarrow> check_step n serve s (s\<lparr>pl_sender := SendEnd (Inr ())\<rparr>)"
| take_request: "pl_task s = TaskRunning \<Longrightarrow> pl_requests s = r # rest \<Longrightarrow>
    length (pl_handlers s) + length (pl_answers s) < n \<Longrightarrow>
    check_step n serve s (s\<lparr>pl_requests := rest, pl_handlers := r # pl_handlers s\<rparr>)"
| handled: "pl_task s = TaskRunning \<Longrightarrow> pl_handlers s = before @ r # after \<Longrightarrow> serve r (pl_world s) = (answer, w) \<Longrightarrow>
    check_step n serve s (s\<lparr>pl_handlers := before @ after, pl_answers := answer # pl_answers s, pl_world := w\<rparr>)"
| respond: "pl_task s = TaskRunning \<Longrightarrow> pl_answers s = before @ answer # after \<Longrightarrow> pl_collector s = Collecting stats \<Longrightarrow>
    length (pl_responses s) < n \<Longrightarrow>
    check_step n serve s (s\<lparr>pl_answers := before @ after, pl_responses := pl_responses s @ [answer]\<rparr>)"
| respond_panics: "pl_task s = TaskRunning \<Longrightarrow> pl_answers s \<noteq> [] \<Longrightarrow> pl_collector s = Collected result \<Longrightarrow>
    check_step n serve s (s\<lparr>pl_requests := [], pl_handlers := [], pl_answers := [], pl_task := TaskPanicked\<rparr>)"
| task_ends: "pl_task s = TaskRunning \<Longrightarrow> pl_requests s = [] \<Longrightarrow> pl_handlers s = [] \<Longrightarrow> pl_answers s = [] \<Longrightarrow>
    pl_sender s = SendEnd ended \<Longrightarrow> pl_collector s = Collected result \<Longrightarrow>
    check_step n serve s (s\<lparr>pl_task := TaskFinished\<rparr>)"
| collect_response: "pl_collector s = Collecting stats \<Longrightarrow> pl_responses s = Inr response # rest \<Longrightarrow>
    check_step n serve s (s\<lparr>pl_responses := rest, pl_collector := Collecting (stats_add response stats)\<rparr>)"
| collect_error: "pl_collector s = Collecting stats \<Longrightarrow> pl_responses s = Inl e # rest \<Longrightarrow>
    check_step n serve s (s\<lparr>pl_responses := [], pl_collector := Collected (Inl e)\<rparr>)"
| collect_done: "pl_collector s = Collecting stats \<Longrightarrow> guards s = 0 \<Longrightarrow>
    check_step n serve s (s\<lparr>pl_collector := Collected (Inr stats)\<rparr>)"
| collect_closed: "pl_collector s = Collecting stats \<Longrightarrow> pl_responses s = [] \<Longrightarrow> pl_task s \<noteq> TaskRunning \<Longrightarrow>
    check_step n serve s (s\<lparr>pl_collector := Collected (Inr stats)\<rparr>)"

text \<open>
  What \<open>check\<close> makes of the results once all tasks have ended: the error of the collector first, then the
  panic of the request task, then the \<open>expect\<close> on the sender.  \<open>None\<close> is an error or a panic of these two.
\<close>

definition check_result :: "'w pipeline \<Rightarrow> (error_kind + response_stats) option" where
  "check_result s =
     (case pl_collector s of
        Collecting _ \<Rightarrow> None
      | Collected (Inl e) \<Rightarrow> Some (Inl e)
      | Collected (Inr stats) \<Rightarrow>
          if pl_task s = TaskFinished \<and> pl_sender s = SendEnd (Inr ()) then Some (Inr stats) else None)"

text \<open>The requests are handled with the cache and the client, which are the world of the handlers.\<close>

definition serve_request ::
  "'w cache_client \<Rightarrow> uri \<Rightarrow> status_code set \<Rightarrow> status_code set \<Rightarrow> u64 \<Rightarrow> (request \<Rightarrow> 'w \<Rightarrow> response \<times> 'w) \<Rightarrow>
   request_error + request \<Rightarrow> cache \<times> 'w \<Rightarrow> (error_kind + response) \<times> cache \<times> 'w" where
  "serve_request client error_uri cache_exclude_status accept timestamp check request st =
     handle client error_uri cache_exclude_status accept timestamp request check (fst st) (snd st)"

section \<open>What the steps keep\<close>

text \<open>
  Every answer is that of a request, given by the handler in some state of the world; what the collector
  has is what \<open>collect_responses\<close> makes of the answers it received; and without an error of the collector
  no request is lost.  The list \<open>as\<close> holds the requests answered with their answers, in the order received.
\<close>

definition answered ::
  "(request_error + request \<Rightarrow> 'w \<Rightarrow> (error_kind + response) \<times> 'w) \<Rightarrow> (request_error + request) \<times> (error_kind + response) \<Rightarrow> bool"
where
  "answered serve a \<longleftrightarrow> (\<exists>w. fst (serve (fst a) w) = snd a)"

definition pipeline_inv ::
  "(request_error + request \<Rightarrow> 'w \<Rightarrow> (error_kind + response) \<times> 'w) \<Rightarrow> (request_error + request) list \<Rightarrow> response_stats \<Rightarrow>
   'w pipeline \<Rightarrow> bool" where
  "pipeline_inv serve requests stats0 s \<longleftrightarrow>
     (case pl_collector s of
        Collecting stats \<Rightarrow> pl_task s = TaskRunning \<and> pl_sender s \<noteq> SendEnd (Inl ()) \<and>
          (pl_sender s = SendEnd (Inr ()) \<longrightarrow> pl_input s = []) \<and>
          (\<exists>received waiting. list_all (answered serve) (received @ waiting) \<and>
            collect_responses (map snd received) stats0 = Inr stats \<and>
            mset (map snd waiting) = mset (pl_answers s @ pl_responses s) \<and>
            mset requests = mset (map fst (received @ waiting)) + mset (held_items (pl_sender s) @ pl_input s @ pl_requests s @ pl_handlers s))
      | Collected (Inr stats) \<Rightarrow> guards s = 0 \<and> pl_task s \<noteq> TaskPanicked \<and> pl_sender s = SendEnd (Inr ()) \<and>
          (\<exists>received. list_all (answered serve) received \<and> collect_responses (map snd received) stats0 = Inr stats \<and>
            mset requests = mset (map fst received))
      | Collected (Inl e) \<Rightarrow> pl_responses s = [] \<and>
          (pl_task s = TaskRunning \<or> pl_requests s = [] \<and> pl_handlers s = [] \<and> pl_answers s = []) \<and>
          (\<exists>received r. list_all (answered serve) (received @ [(r, Inl e)]) \<and>
            collect_responses (map snd received @ [Inl e]) stats0 = Inl e \<and>
            mset (map fst received @ [r]) \<subseteq># mset requests))"

text \<open>How much is still to be done.\<close>

definition pipeline_size :: "'w pipeline \<Rightarrow> nat" where
  "pipeline_size s = 6 * length (pl_input s) + 4 * length (pl_requests s) + 3 * length (pl_handlers s) +
     2 * length (pl_answers s) + length (pl_responses s) + (case pl_sender s of Sending \<Rightarrow> 1 | Holding _ \<Rightarrow> 6 | SendEnd _ \<Rightarrow> 0) +
     of_bool (pl_task s = TaskRunning) + (case pl_collector s of Collecting _ \<Rightarrow> 1 | Collected _ \<Rightarrow> 0)"

lemma step_size: "check_step n serve s s' \<Longrightarrow> pipeline_size s' < pipeline_size s"
  by (induction rule: check_step.induct) (simp_all add: pipeline_size_def split: sender_state.split)

lemma collect_responses_append:
  "collect_responses (xs @ ys) stats = res_bind (collect_responses xs stats) (collect_responses ys)"
  by (induction xs arbitrary: stats) (auto simp: res_bind_def split: sum.split)

lemma waiting_split:
  assumes "mset (map snd waiting) = mset (answers @ r # rest)"
  obtains before q after where "waiting = before @ (q, r) # after"
    "mset (map snd (before @ after)) = mset (answers @ rest)"
proof -
  from assms have "r \<in> set (map snd waiting)" by (metis in_set_conv_decomp mset_eq_setD)
  then obtain q where "(q, r) \<in> set waiting" by auto
  then obtain before after where split: "waiting = before @ (q, r) # after" by (meson split_list)
  with assms have "mset (map snd (before @ after)) = mset (answers @ rest)" by simp
  with split that show thesis by blast
qed

text \<open>While the collector waits, every request is somewhere.\<close>

lemma collectingI:
  assumes "pl_collector s = Collecting stats" and "list_all (answered serve) (received @ waiting)"
    and "collect_responses (map snd received) stats0 = Inr stats"
    and "mset (map snd waiting) = mset (pl_answers s @ pl_responses s)"
    and "mset requests = mset (map fst (received @ waiting)) + mset (held_items (pl_sender s) @ pl_input s @ pl_requests s @ pl_handlers s)"
    and "pl_task s = TaskRunning" and "pl_sender s \<noteq> SendEnd (Inl ())"
    and "pl_sender s = SendEnd (Inr ()) \<longrightarrow> pl_input s = []"
  shows "pipeline_inv serve requests stats0 s"
  unfolding pipeline_inv_def using assms by (simp only: collector_state.case) blast

lemma inv_step_collecting:
  assumes "pipeline_inv serve requests stats0 s" "check_step n serve s s'" "pl_collector s = Collecting stats"
  shows "pipeline_inv serve requests stats0 s'"
proof -
  from assms obtain received waiting where run: "pl_task s = TaskRunning" "pl_sender s \<noteq> SendEnd (Inl ())"
      "pl_sender s = SendEnd (Inr ()) \<longrightarrow> pl_input s = []"
    and ok: "list_all (answered serve) (received @ waiting)"
    and collected: "collect_responses (map snd received) stats0 = Inr stats"
    and wait: "mset (map snd waiting) = mset (pl_answers s @ pl_responses s)"
    and all: "mset requests = mset (map fst (received @ waiting)) + mset (held_items (pl_sender s) @ pl_input s @ pl_requests s @ pl_handlers s)"
    by (auto simp: pipeline_inv_def)
  note facts = assms(3) run ok collected wait all
  from assms(2) show ?thesis
  proof cases
    case (next_item r rest)
    then show ?thesis by (intro collectingI [of _ stats serve received waiting]) (use facts in simp_all)
  next
    case (send r)
    then show ?thesis by (intro collectingI [of _ stats serve received waiting]) (use facts in simp_all)
  next
    case send_ends
    then show ?thesis by (intro collectingI [of _ stats serve received waiting]) (use facts in simp_all)
  next
    case (take_request r rest)
    then show ?thesis by (intro collectingI [of _ stats serve received waiting]) (use facts in simp_all)
  next
    case (handled before r after answer w)
    then have "answered serve (r, answer)" by (simp add: answered_def) (metis fst_conv)
    with handled ok show ?thesis
      by (intro collectingI [of _ stats serve received "(r, answer) # waiting"]) (use facts in simp_all)
  next
    case (respond before answer after stats')
    then show ?thesis by (intro collectingI [of _ stats serve received waiting]) (use facts in simp_all)
  next
    case (collect_response stats' response rest)
    obtain before q after where split: "waiting = before @ (q, Inr response) # after"
      "mset (map snd (before @ after)) = mset (pl_answers s @ rest)"
      using waiting_split wait collect_response(3) by metis
    with collect_response ok all collected show ?thesis
      by (intro collectingI [of _ "stats_add response stats" serve "received @ [(q, Inr response)]" "before @ after"])
        (use assms(3) run in \<open>simp_all add: collect_responses_append\<close>)
  next
    case (collect_error stats' e rest)
    obtain before q after where split: "waiting = before @ (q, Inl e) # after"
      "mset (map snd (before @ after)) = mset (pl_answers s @ rest)"
      using waiting_split wait collect_error(3) by metis
    have "mset (map fst received @ [q]) \<subseteq># mset requests" by (simp add: all split)
    with collect_error ok collected split show ?thesis
      by (simp add: pipeline_inv_def run, intro exI [of _ received]) (auto simp: collect_responses_append)
  next
    case (collect_done stats')
    then have none: "pl_requests s = []" "pl_handlers s = []" "pl_answers s = []" "pl_responses s = []"
      and sender: "\<exists>ended. pl_sender s = SendEnd ended"
      by (auto simp: guards_def split: sender_state.splits)
    from sender run have sent: "pl_sender s = SendEnd (Inr ())"
      by (metis sumE unit.exhaust)
    with wait all run none have "waiting = []" "mset requests = mset (map fst received)" by auto
    with collect_done ok collected sent run show ?thesis
      by (simp add: pipeline_inv_def guards_def assms(3), intro exI [of _ received]) simp
  qed (use run assms(3) in simp_all)
qed

lemma inv_step_collected:
  assumes "pipeline_inv serve requests stats0 s" "check_step n serve s s'" "pl_collector s = Collected result"
  shows "pipeline_inv serve requests stats0 s'"
proof (cases result)
  case (Inl e)
  from assms(2) show ?thesis
    by cases (use assms(1,3) Inl in \<open>auto simp: pipeline_inv_def\<close>)
next
  case (Inr stats)
  from assms(2) show ?thesis
    by cases (use assms(1,3) Inr in \<open>auto simp: pipeline_inv_def guards_def\<close>)
qed

lemma inv_step: "pipeline_inv serve requests stats0 s \<Longrightarrow> check_step n serve s s' \<Longrightarrow> pipeline_inv serve requests stats0 s'"
  using inv_step_collecting inv_step_collected by (cases "pl_collector s") blast+

lemma inv_start: "pipeline_inv serve requests stats0 (pipeline_start requests stats0 w)"
  by (rule collectingI [of _ stats0 serve "[]" "[]"]) (simp_all add: pipeline_start_def)

section \<open>Every run ends\<close>

text \<open>Some task can always go on.\<close>

lemma feed_step:
  assumes "pl_task s = TaskRunning" "pl_handlers s = []" "pl_answers s = []" "0 < n"
    and "pl_requests s \<noteq> [] \<or> (\<nexists>ended. pl_sender s = SendEnd ended)"
  shows "\<exists>s'. check_step n serve s s'"
proof (cases "pl_requests s")
  case (Cons r rest)
  with take_request [of s r rest n serve] assms show ?thesis by auto
next
  case Nil
  with assms send_ends [of s n serve] next_item [of s _ _ n serve] send [of s _ n serve] show ?thesis
    by (cases "pl_sender s"; cases "pl_input s") auto
qed

lemma collected_step:
  assumes "pl_collector s = Collected result" "pl_task s = TaskRunning" "pl_handlers s = []" "0 < n"
  shows "\<exists>s'. check_step n serve s s'"
proof (cases "pl_answers s = []")
  case True
  with feed_step [of s n serve] task_ends [of s _ result n serve] assms show ?thesis
    by (cases "pl_requests s"; cases "pl_sender s") auto
next
  case False
  with respond_panics [of s result n serve] assms show ?thesis by auto
qed

lemma collecting_step:
  assumes "pl_collector s = Collecting stats" "pl_task s = TaskRunning" "pl_handlers s = []" "0 < n"
  shows "\<exists>s'. check_step n serve s s'"
proof (cases "pl_responses s")
  case (Cons r rest)
  with collect_response [of s stats _ rest n serve] collect_error [of s stats _ rest n serve] assms show ?thesis
    by (cases r) auto
next
  case responses: Nil
  show ?thesis
  proof (cases "pl_answers s")
    case (Cons answer rest)
    with respond [of s "[]" answer rest stats n serve] responses assms show ?thesis by auto
  next
    case Nil
    show ?thesis
    proof (cases "pl_requests s \<noteq> [] \<or> (\<nexists>ended. pl_sender s = SendEnd ended)")
      case True
      with feed_step Nil assms show ?thesis by blast
    next
      case False
      with responses Nil assms have "guards s = 0" by (cases "pl_sender s") (simp_all add: guards_def)
      with collect_done [of s stats n serve] assms show ?thesis by auto
    qed
  qed
qed

lemma pipeline_progress:
  assumes "pipeline_inv serve requests stats0 s" and "\<not> all_finished s" and "0 < n"
  shows "\<exists>s'. check_step n serve s s'"
proof (cases "pl_task s = TaskRunning")
  case running: True
  show ?thesis
  proof (cases "pl_handlers s")
    case (Cons r rest)
    obtain answer w where "serve r (pl_world s) = (answer, w)" by force
    with running Cons handled [of s "[]" r rest serve answer w n] show ?thesis by auto
  next
    case Nil
    with running assms(3) collected_step collecting_step show ?thesis by (cases "pl_collector s") blast+
  qed
next
  case ended: False
  with assms(1,2) have "\<nexists>ended. pl_sender s = SendEnd ended"
    by (auto simp: pipeline_inv_def all_finished_def split: collector_state.splits)
  with ended send_fails [of s _ n serve] next_item [of s _ _ n serve] send_ends [of s n serve] show ?thesis
    by (cases "pl_sender s"; cases "pl_input s") auto
qed

interpretation pipeline: terminating_steps "check_step (Suc n) serve" "pipeline_inv serve requests stats0"
    all_finished pipeline_size for n serve requests stats0
  by unfold_locales (auto intro: inv_step pipeline_progress step_size)

text \<open>Where no handler answers with an error, a finished check has added one answer to every request.\<close>

lemma finished_run:
  assumes "(check_step (Suc n) serve)\<^sup>*\<^sup>* (pipeline_start requests stats0 w) s" and "all_finished s"
    and "\<And>r w e. r \<in> set requests \<Longrightarrow> fst (serve r w) \<noteq> Inl e"
  obtains answers where "\<forall>(r, x) \<in> set answers. \<exists>w. fst (serve r w) = Inr x"
    and "mset (map fst answers) = mset requests"
    and "check_result s = Some (Inr (fold stats_add (map snd answers) stats0))"
proof -
  have inv: "pipeline_inv serve requests stats0 s"
    by (rule pipeline.reachable_inv [OF assms(1) inv_start])
  from assms(2) obtain result where result: "pl_collector s = Collected result"
    by (auto simp: all_finished_def split: collector_state.splits)
  obtain stats where stats: "result = Inr stats"
  proof (cases result)
    case (Inl e)
    with inv result obtain r and received :: "((request_error + request) \<times> (error_kind + response)) list"
      where bad: "answered serve (r, Inl e)" "add_mset r (image_mset fst (mset received)) \<subseteq># mset requests"
      by (simp add: pipeline_inv_def) blast
    then have "r \<in> set requests" using mset_subset_eqD union_single_eq_member by (metis set_mset_mset)
    with bad(1) assms(3) show thesis by (auto simp: answered_def)
  qed
  with inv result obtain received where received: "list_all (answered serve) received"
      "collect_responses (map snd received) stats0 = Inr stats" "mset requests = mset (map fst received)"
    by (auto simp: pipeline_inv_def)
  then obtain rs where rs: "map snd received = map Inr rs" "stats = fold stats_add rs stats0"
    by (auto simp: collect_responses_cases)
  have "check_result s = Some (Inr stats)"
    using inv result stats assms(2) by (auto simp: pipeline_inv_def check_result_def all_finished_def intro: task_state.exhaust)
  moreover have "length rs = length received" using arg_cong [OF rs(1), of length] by simp
  moreover have "\<exists>w. fst (serve r w) = Inr x" if "(r, x) \<in> set (zip (map fst received) rs)" for r x
  proof -
    from that obtain i where "i < length received" "r = fst (received ! i)" "x = rs ! i"
      by (auto simp: in_set_zip)
    moreover from this \<open>length rs = length received\<close> have "snd (received ! i) = Inr x"
      using arg_cong [OF rs(1), of "\<lambda>xs. xs ! i"] by simp
    moreover have "answered serve (received ! i)" using received(1) calculation(1) by (simp add: list_all_length)
    ultimately show ?thesis by (simp add: answered_def)
  qed
  ultimately show thesis
    using that [of "zip (map fst received) rs"] rs(2) received(3) by auto
qed

section \<open>Properties\<close>

text \<open>C6: A check always terminates: whatever the number of requests and the order in which the tasks run,
  even if an input error ends the collector early, there is no endless run, and in every state that is
  reached either all three tasks have ended or one can go on, until all have.  This needs the guards of the
  \<open>WaitGroup\<close>, since the collector keeps the channel of requests open.
\<close>

theorem check_terminates:
  assumes "(check_step (Suc n) serve)\<^sup>*\<^sup>* (pipeline_start requests stats0 w) s"
  shows "(\<exists>s'. (check_step (Suc n) serve)\<^sup>*\<^sup>* s s' \<and> all_finished s') \<and>
    \<not> (\<exists>r. r 0 = s \<and> (\<forall>i. check_step (Suc n) serve (r i) (r (Suc i)))) \<and>
    ((\<nexists>s'. check_step (Suc n) serve s s') \<longrightarrow> all_finished s)"
proof -
  have inv: "pipeline_inv serve requests stats0 s"
    by (rule pipeline.reachable_inv [OF assms inv_start])
  from pipeline.reaches_final [OF inv] pipeline.no_infinite_run [where requests = requests and ?stats0.0 = stats0]
    pipeline.progress [OF inv] inv
  show ?thesis by blast
qed

text \<open>C20: The tasks of a check stay within their capacities: in every reachable state each of the two channels
  holds at most \<open>max_concurrency\<close> items, at most as many requests are being handled, those included whose
  answer waits for room, and the sender waits with at most one more, so that of the items that the stream of
  requests has given and the collector of responses has not yet added never more than three times this number
  and one are under way.  The guards that are held are exactly one for each of these and one for the sender
  while it has not ended, so that the \<open>WaitGroup\<close> ends exactly when the sender has and nothing is under way.
  What the stream itself holds is not counted here.
\<close>

theorem pipeline_within_capacity:
  assumes "(check_step n serve)\<^sup>*\<^sup>* (pipeline_start requests stats0 w) s"
  shows "length (pl_requests s) \<le> n \<and> length (pl_handlers s) + length (pl_answers s) \<le> n \<and>
    length (pl_responses s) \<le> n \<and> under_way s \<le> 3 * n + 1 \<and>
    guards s = under_way s + of_bool (\<nexists>ended. pl_sender s = SendEnd ended) \<and>
    (guards s = 0 \<longleftrightarrow> (\<exists>ended. pl_sender s = SendEnd ended) \<and> under_way s = 0)"
proof -
  have "length (pl_requests s) \<le> n \<and> length (pl_handlers s) + length (pl_answers s) \<le> n \<and> length (pl_responses s) \<le> n"
    using assms
  proof (induction rule: rtranclp_induct)
    case (step s s')
    from step.hyps(2) step.IH show ?case by cases simp_all
  qed (simp add: pipeline_start_def)
  then show ?thesis by (cases "pl_sender s") (simp_all add: guards_def under_way_def)
qed

text \<open>C5: The concurrent check refines the sequential one.  When all tasks have ended, \<open>check\<close> has a result, so
  that none of its tasks panicked or failed unless an input error is reported; and that result is what
  \<open>collect_responses\<close> makes, one after the other, of answers to the requests, each request answered exactly
  once where there is no error, and at most once before the first one.
\<close>

theorem check_refines_collecting:
  assumes "(check_step (Suc n) serve)\<^sup>*\<^sup>* (pipeline_start requests stats0 w) s" and "all_finished s"
  shows "\<exists>answers result. check_result s = Some result \<and> list_all (answered serve) answers \<and>
    collect_responses (map snd answers) stats0 = result \<and>
    (case result of Inr _ \<Rightarrow> mset (map fst answers) = mset requests
     | Inl e \<Rightarrow> mset (map fst answers) \<subseteq># mset requests \<and> snd (last answers) = Inl e)"
proof -
  have inv: "pipeline_inv serve requests stats0 s"
    by (rule pipeline.reachable_inv [OF assms(1) inv_start])
  from assms(2) obtain result where result: "pl_collector s = Collected result"
    by (auto simp: all_finished_def split: collector_state.splits)
  show ?thesis
  proof (cases result)
    case (Inl e)
    with inv result obtain received r where "list_all (answered serve) (received @ [(r, Inl e)])"
      "collect_responses (map snd received @ [Inl e]) stats0 = Inl e" "mset (map fst received @ [r]) \<subseteq># mset requests"
      by (auto simp: pipeline_inv_def)
    with result Inl show ?thesis
      by (intro exI [of _ "received @ [(r, Inl e)]"] exI [of _ "Inl e"]) (simp add: check_result_def)
  next
    case (Inr stats)
    with inv result assms(2) have "pl_task s = TaskFinished" "pl_sender s = SendEnd (Inr ())"
      by (auto simp: pipeline_inv_def all_finished_def intro: task_state.exhaust)
    with inv result Inr show ?thesis by (auto simp: pipeline_inv_def check_result_def)
  qed
qed

text \<open>Only an error of the input the user named is answered by an error.\<close>

definition user_error :: "request_error + request \<Rightarrow> error_kind option" where
  "user_error r = (case r of Inl (UserInputContent _ e) \<Rightarrow> Some e | _ \<Rightarrow> None)"

lemma serve_request_answer:
  "fst (serve_request client error_uri ces accept ts check r st) = Inl e \<Longrightarrow> user_error r = Some e"
  "fst (serve_request client error_uri ces accept ts check r st) = Inr x \<Longrightarrow> user_error r = None"
  by (cases r; cases "projl r"; auto simp: serve_request_def handle_def user_error_def split: prod.splits)+

lemma answered_serve_request:
  "answered (serve_request client error_uri ces accept ts check) (r, Inl e) \<Longrightarrow> user_error r = Some e"
  "answered (serve_request client error_uri ces accept ts check) (r, Inr x) \<Longrightarrow> user_error r = None"
  unfolding answered_def using serve_request_answer by (metis fst_conv snd_conv)+

lemma fold_stats_total: "s_total (fold stats_add rs s) = s_total s + length rs"
  by (rule fold_fields)

text \<open>A check ends with an input error exactly if one of the inputs the user named could not be read, and
  the error is then that of such an input; otherwise every request and every other error the collection
  found is counted once in the total of the statistics.
\<close>

theorem check_counts_every_request:
  assumes "(check_step (Suc n) (serve_request client error_uri ces accept ts check))\<^sup>*\<^sup>*
      (pipeline_start requests stats0 (c, w)) s"
    and "all_finished s" and "s_total stats0 = 0"
  shows "if \<forall>r \<in> set requests. user_error r = None
     then \<exists>stats. check_result s = Some (Inr stats) \<and> s_total stats = length requests
     else \<exists>r \<in> set requests. \<exists>e. user_error r = Some e \<and> check_result s = Some (Inl e)"
proof -
  let ?serve = "serve_request client error_uri ces accept ts check"
  have inv: "pipeline_inv ?serve requests stats0 s"
    by (rule pipeline.reachable_inv [OF assms(1) inv_start])
  from assms(2) obtain result where result: "pl_collector s = Collected result"
    by (auto simp: all_finished_def split: collector_state.splits)
  show ?thesis
  proof (cases result)
    case (Inl e)
    with inv result obtain r and received :: "((request_error + request) \<times> (error_kind + response)) list"
      where "answered ?serve (r, Inl e)" "add_mset r (image_mset fst (mset received)) \<subseteq># mset requests" by (simp add: pipeline_inv_def) blast
    then have "user_error r = Some e" "r \<in># mset requests"
      using answered_serve_request(1) mset_subset_eqD union_single_eq_member by metis+
    with result Inl show ?thesis by (auto simp: check_result_def)
  next
    case (Inr stats)
    with inv result obtain received where received: "list_all (answered ?serve) received"
        "collect_responses (map snd received) stats0 = Inr stats" "mset requests = mset (map fst received)"
      by (auto simp: pipeline_inv_def)
    then obtain rs where rs: "map snd received = map Inr rs" "stats = fold stats_add rs stats0"
      by (auto simp: collect_responses_cases)
    have "user_error r = None" if "r \<in> set requests" for r
    proof -
      from that received(3) obtain x where "(r, x) \<in> set received" by (metis (no_types) mset_eq_setD image_iff list.set_map prod.exhaust_sel)
      moreover from this rs(1) obtain y where "x = Inr y" by (metis image_iff list.set_map snd_conv)
      ultimately show ?thesis using received(1) answered_serve_request(2) by (fastforce simp: list_all_iff)
    qed
    moreover have "length rs = length requests"
      using arg_cong [OF rs(1), of length] arg_cong [OF received(3), of size] by simp
    moreover have "check_result s = Some (Inr stats)"
      using inv result Inr assms(2) by (auto simp: pipeline_inv_def check_result_def all_finished_def intro: task_state.exhaust)
    ultimately show ?thesis using rs(2) assms(3) by (simp add: fold_stats_total)
  qed
qed

section \<open>Instances\<close>

text \<open>One page that is fine, and one input of the user that cannot be read.\<close>

definition sample_requests :: "(request_error + request) list" where
  "sample_requests = [Inr sample_request, Inl (UserInputContent Stdin (InvalidInput ''x''))]"

definition sample_serve :: "request_error + request \<Rightarrow> cache \<times> nat \<Rightarrow> (error_kind + response) \<times> cache \<times> nat" where
  "sample_serve = serve_request plain_client (domain_url ''error'' [] []) {} {} 0 (check_with (StOk 200))"

theorem check_terminates_witness:
  "\<exists>s. (check_step 1 sample_serve)\<^sup>*\<^sup>* (pipeline_start sample_requests stats_default (Map.empty, 0)) s \<and> all_finished s"
  using check_terminates [of 0 sample_serve sample_requests stats_default "(Map.empty, 0)", OF rtranclp.rtrancl_refl] by simp

lemma sample_run:
  obtains s where "(check_step (Suc 0) sample_serve)\<^sup>*\<^sup>* (pipeline_start requests stats_default (Map.empty, 0)) s"
    "all_finished s"
  using pipeline.reaches_final [OF inv_start] by metis

theorem pipeline_within_capacity_witness:
  "\<exists>s. (check_step 1 sample_serve)\<^sup>*\<^sup>* (pipeline_start sample_requests stats_default (Map.empty, 0)) s \<and>
     all_finished s \<and> under_way s \<le> 4"
proof -
  obtain s where run: "(check_step (Suc 0) sample_serve)\<^sup>*\<^sup>* (pipeline_start sample_requests stats_default (Map.empty, 0)) s"
    and fin: "all_finished s" using sample_run .
  from pipeline_within_capacity [OF run] fin run show ?thesis by (intro exI [of _ s]) simp
qed

theorem check_refines_collecting_witness:
  "\<exists>s answers. (check_step 1 sample_serve)\<^sup>*\<^sup>* (pipeline_start [Inr sample_request] stats_default (Map.empty, 0)) s \<and>
     all_finished s \<and> check_result s = Some (collect_responses (map snd answers) stats_default) \<and>
     mset (map fst answers) = mset [Inr sample_request] \<and> list_all (answered sample_serve) answers"
proof -
  obtain s where run: "(check_step (Suc 0) sample_serve)\<^sup>*\<^sup>* (pipeline_start [Inr sample_request] stats_default (Map.empty, 0)) s"
    and fin: "all_finished s" using sample_run .
  from check_refines_collecting [OF run fin] obtain answers result where answers:
    "check_result s = Some result" "list_all (answered sample_serve) answers"
    "collect_responses (map snd answers) stats_default = result"
    "case result of Inr _ \<Rightarrow> mset (map fst answers) = mset [Inr sample_request]
     | Inl e \<Rightarrow> mset (map fst answers) \<subseteq># mset [Inr sample_request] \<and> snd (last answers) = Inl e" by blast
  have "mset (map fst answers) = mset [Inr sample_request]"
  proof (cases result)
    case (Inl e)
    with answers(3,4) have last: "answers \<noteq> []" "snd (last answers) = Inl e"
      and sub: "mset (map fst answers) \<subseteq># mset [Inr sample_request]" by auto
    from set_mset_mono [OF sub] last_in_set [OF last(1)] have "fst (last answers) = Inr sample_request" by auto
    with last have "last answers = (Inr sample_request, Inl e)" "last answers \<in> set answers" by (auto simp: prod_eq_iff)
    with answers(2) have "user_error (Inr sample_request) = Some e"
      unfolding sample_serve_def by (metis answered_serve_request(1) list_all_iff)
    then show ?thesis by (simp add: user_error_def)
  qed (use answers in simp)
  with answers fin run show ?thesis by auto
qed

theorem check_counts_every_request_witness:
  "\<exists>s. (check_step 1 sample_serve)\<^sup>*\<^sup>* (pipeline_start sample_requests stats_default (Map.empty, 0)) s \<and>
     all_finished s \<and> check_result s = Some (Inl (InvalidInput ''x''))"
proof -
  obtain s where run: "(check_step (Suc 0) sample_serve)\<^sup>*\<^sup>* (pipeline_start sample_requests stats_default (Map.empty, 0)) s"
    and fin: "all_finished s" using sample_run .
  have "s_total stats_default = 0" by (simp add: stats_default_def)
  from check_counts_every_request [OF run [unfolded sample_serve_def] fin this]
  have "check_result s = Some (Inl (InvalidInput ''x''))" by (auto simp: sample_requests_def user_error_def)
  with run fin show ?thesis by auto
qed

end
