(* ===== verification/ErrorTexts.thy ===== *)
theory ErrorTexts
  imports Inputs Spans Response
begin

text \<open>
  What errors and statuses are printed as: the explanations of network errors
  (\<open>lychee-lib/src/utils/reqwest.rs\<close>), the \<open>Display\<close> implementations and \<open>details\<close> of
  \<open>lychee-lib/src/types/error.rs\<close>, \<open>request\_error.rs\<close>, \<open>status.rs\<close>, \<open>cache.rs\<close> and \<open>response.rs\<close>; and
  the \<open>Hash\<close> implementations that have to agree with the equality of errors.
\<close>

section \<open>Texts of other crates\<close>

text \<open>
  The http crate's reason of a code and its \<open>Display\<close> of one, and how the url and glob crates print
  their errors.
\<close>

record texts =
  tx_reason :: "status_code \<Rightarrow> string option"
  tx_code :: "status_code \<Rightarrow> string"
  tx_url_error :: "url_parse_error \<Rightarrow> string"
  tx_glob_error :: "string \<Rightarrow> nat \<Rightarrow> string"

definition quoted :: "string \<Rightarrow> string" where
  "quoted s = CHR 0x27 # s @ [CHR 0x27]"

text \<open>The standard library's \<open>Debug\<close> of a string, on the characters of Latin-1.\<close>

definition hex_digit :: "nat \<Rightarrow> char" where
  "hex_digit n = char_of (if n < 10 then 48 + n else 87 + n)"

definition debug_char :: "char \<Rightarrow> string" where
  "debug_char c =
     (let n = of_char c :: nat in
      if n = 0 then [CHR 0x5C, CHR ''0'']
      else if n = 9 then [CHR 0x5C, CHR ''t'']
      else if n = 10 then [CHR 0x5C, CHR ''n'']
      else if n = 13 then [CHR 0x5C, CHR ''r'']
      else if n = 34 \<or> n = 92 then [CHR 0x5C, c]
      else if n < 16 then [CHR 0x5C, CHR ''u'', CHR 0x7B, hex_digit n, CHR 0x7D]
      else if n < 32 \<or> 127 \<le> n \<and> n \<le> 160 \<or> n = 173
      then [CHR 0x5C, CHR ''u'', CHR 0x7B, hex_digit (n div 16), hex_digit (n mod 16), CHR 0x7D]
      else [c])"

definition debug_string :: "string \<Rightarrow> string" where
  "debug_string s = CHR 0x22 # concat (map debug_char s) @ [CHR 0x22]"

definition debug_option :: "string option \<Rightarrow> string" where
  "debug_option s = (case s of None \<Rightarrow> ''None'' | Some s \<Rightarrow> ''Some('' @ debug_string s @ '')'')"

section \<open>Network errors explained\<close>

text \<open>\<open>ErrorRules::match\_error\<close>: the message of the first rule with a pattern in the text, else the fallback.\<close>

type_synonym error_rule = "string list \<times> string"

definition rule_matches :: "string \<Rightarrow> error_rule \<Rightarrow> bool" where
  "rule_matches msg rule \<longleftrightarrow> (\<exists>pattern \<in> set (fst rule). sublist pattern msg)"

definition match_error :: "error_rule list \<Rightarrow> string option \<Rightarrow> string \<Rightarrow> string" where
  "match_error rules fallback msg =
     (case find (rule_matches msg) rules of
        Some rule \<Rightarrow> snd rule
      | None \<Rightarrow> (case fallback of Some text \<Rightarrow> text | None \<Rightarrow> ''Unhandled error: '' @ msg))"

definition TIMED_OUT_TEXT :: string where
  "TIMED_OUT_TEXT = ''Request timed out. Try increasing timeout or check server status''"

definition CONNECTION_FAILED_TEXT :: string where
  "CONNECTION_FAILED_TEXT = ''Connection failed. Check network connectivity and firewall settings''"

definition analyze_certificate_error :: "string \<Rightarrow> string" where
  "analyze_certificate_error msg = match_error
     [([''expired'', ''NotValidAtThisTime'', ''certificate has expired'', ''certificate is not valid on''],
       ''SSL certificate expired. Site needs to renew certificate''),
      ([''hostname'', ''NotValidForName''], ''SSL certificate hostname mismatch. Check URL spelling''),
      ([''self signed'', ''UnknownIssuer'', ''not trusted''],
       ''SSL certificate not trusted. Use --insecure if site is trusted''),
      ([''verify failed''], ''SSL certificate verification failed. Check certificate validity'')]
     (Some ''SSL certificate error. Check certificate validity'') msg"

definition analyze_io_other_error :: "io_error \<Rightarrow> string" where
  "analyze_io_other_error e =
     (case io_inner e of
        None \<Rightarrow> CONNECTION_FAILED_TEXT
      | Some inner \<Rightarrow>
          if sublist ''certificate'' inner then analyze_certificate_error inner
          else match_error
            [([''failed to lookup address'', ''nodename nor servname''],
              ''DNS resolution failed. Check hostname and DNS settings''),
             ([''Temporary failure in name resolution''], ''DNS temporarily unavailable. Try again later''),
             ([''handshake''], ''TLS handshake failed. Check SSL/TLS configuration'')]
            (Some (''Network error: '' @ inner)) inner)"

text \<open>
  A kind without an arm is printed by \<open>Debug\<close>; the names of the kinds that do have a constructor here
  and no arm are written out.
\<close>

definition io_kind_name :: "io_kind \<Rightarrow> string" where
  "io_kind_name kind =
     (case kind of
        ConnectionReset \<Rightarrow> ''ConnectionReset'' | ConnectionAborted \<Rightarrow> ''ConnectionAborted''
      | IsADirectory \<Rightarrow> ''IsADirectory'' | UnlistedIo name \<Rightarrow> name | _ \<Rightarrow> '''')"

definition analyze_io_error :: "io_error \<Rightarrow> string" where
  "analyze_io_error e =
     (case io_kind_of e of
        ConnectionRefused \<Rightarrow> ''Connection refused - server may be down or port blocked''
      | TimedOut \<Rightarrow> TIMED_OUT_TEXT
      | NotFound \<Rightarrow> ''DNS resolution failed - check hostname spelling''
      | PermissionDenied \<Rightarrow> ''Permission denied - check firewall or proxy settings''
      | OtherIo \<Rightarrow> analyze_io_other_error e
      | NetworkUnreachable \<Rightarrow> ''Network unreachable. Check internet connection or VPN settings''
      | AddrNotAvailable \<Rightarrow> ''Address not available. Check network interface configuration''
      | AddrInUse \<Rightarrow> ''Address already in use. Port conflict or service already running''
      | BrokenPipe \<Rightarrow> ''Connection broken. Server closed connection unexpectedly''
      | InvalidData \<Rightarrow> ''Invalid response data. Server sent malformed response''
      | UnexpectedEof \<Rightarrow> ''Connection closed unexpectedly. Server terminated early''
      | Interrupted \<Rightarrow> ''Request interrupted. Try again or check for system issues''
      | UnsupportedIo \<Rightarrow> ''Operation not supported. Check protocol or server capabilities''
      | kind \<Rightarrow>
          if io_kind_name kind = ''Uncategorized'' then CONNECTION_FAILED_TEXT
          else ''I/O error ('' @ io_kind_name kind @ ''). Check network connectivity and server status'')"

definition analyze_hyper_error :: "hyper_error \<Rightarrow> string" where
  "analyze_hyper_error e =
     (if hy_parse e then
        (if hy_parse_status e then ''Invalid HTTP status code from server''
         else ''Invalid HTTP response format. Server may be misconfigured'')
      else if hy_timeout e then TIMED_OUT_TEXT
      else if hy_user e then
        (if hy_body_write_aborted e then ''Request body upload was aborted''
         else ''Invalid request format. Check request parameters'')
      else if hy_canceled e then ''Request was canceled''
      else if hy_closed e then ''Connection was closed unexpectedly''
      else if hy_incomplete e then ''Connection closed before response completed''
      else match_error
        [([''connection error''], CONNECTION_FAILED_TEXT),
         ([''http2 error''], ''HTTP/2 protocol error. Server may not support HTTP/2 properly''),
         ([''channel closed''], ''HTTP connection channel closed unexpectedly''),
         ([''operation was canceled''], ''HTTP operation was canceled before completion''),
         ([''message head is too large''], ''HTTP headers too large. Server response headers exceed limits''),
         ([''invalid content-length''], ''Invalid Content-Length header from server'')]
        (Some (''HTTP protocol error: '' @ hy_text e)) (hy_text e))"

definition analyze_url_parse_error :: "texts \<Rightarrow> url_parse_error \<Rightarrow> string" where
  "analyze_url_parse_error tx e =
     (case e of
        EmptyHost \<Rightarrow> ''Invalid URL: empty hostname''
      | InvalidDomainCharacter \<Rightarrow> ''Invalid URL: invalid characters in domain''
      | InvalidPort \<Rightarrow> ''Invalid URL: invalid port number''
      | RelativeUrlWithoutBase \<Rightarrow> ''Invalid URL: relative URL without base''
      | OtherParseError _ \<Rightarrow> ''Invalid URL format: '' @ tx_url_error tx e)"

definition generic_rules :: "error_rule list" where
  "generic_rules =
     [([''protocol version''],
       ''TLS protocol version mismatch. The client and server cannot agree on a TLS version. This is often due '' @
       ''to outdated system TLS libraries or the server TLS settings.''),
      ([''handshake'', ''TLS'', ''SSL''], ''TLS handshake failed. Check SSL/TLS configuration''),
      ([''name resolution'', ''hostname''], ''DNS resolution failed. Check hostname and DNS settings''),
      ([''Connection refused'', ''connection refused''],
       ''Connection refused. Server is not accepting connections (check if service is running)''),
      ([''Connection reset'', ''connection reset''],
       ''Connection reset by server. Server forcibly closed connection''),
      ([''No route to host'', ''no route''],
       ''No route to host. Check network routing or firewall configuration''),
      ([''Network is unreachable'', ''network unreachable''],
       ''Network unreachable. Check internet connection or VPN settings''),
      ([''timed out'', ''timeout''], TIMED_OUT_TEXT)]"

definition analyze_generic_error_string :: "string \<Rightarrow> string option" where
  "analyze_generic_error_string msg =
     (if sublist ''certificate'' msg then Some (analyze_certificate_error msg)
      else if sublist ''protocol'' msg \<and> sublist ''not supported'' msg
      then Some ''Protocol not supported. Check URL scheme (http/https)''
      else let result = match_error generic_rules None msg in
           if prefix ''Unhandled error:'' result then None else Some result)"

text \<open>The loop over the sources of the error, and what it says of one of them.\<close>

fun analyze_error_source_chain :: "texts \<Rightarrow> error_source list \<Rightarrow> string option" where
  "analyze_error_source_chain tx [] = None"
| "analyze_error_source_chain tx (IoSource e # rest) = Some (analyze_io_error e)"
| "analyze_error_source_chain tx (HyperSource e # rest) = Some (analyze_hyper_error e)"
| "analyze_error_source_chain tx (UrlSource e # rest) = Some (analyze_url_parse_error tx e)"
| "analyze_error_source_chain tx (OtherSource msg # rest) =
     (case analyze_generic_error_string msg of
        Some text \<Rightarrow> Some text
      | None \<Rightarrow> analyze_error_source_chain tx rest)"

definition analyze_basic_reqwest_error :: "texts \<Rightarrow> reqwest_error \<Rightarrow> string option" where
  "analyze_basic_reqwest_error tx e =
     (if re_timeout e then Some TIMED_OUT_TEXT
      else if re_redirect e then Some ''Too many redirects - check for redirect loops''
      else (case re_status e of
              Some status \<Rightarrow>
                let reason = (case tx_reason tx status of Some r \<Rightarrow> r | None \<Rightarrow> ''Unknown'') in
                Some (''HTTP '' @ tx_code tx status @ '': '' @ reason @ '' - check URL and server status'')
            | None \<Rightarrow> None))"

definition fallback_reqwest_analysis :: "reqwest_error \<Rightarrow> string" where
  "fallback_reqwest_analysis e =
     (if re_connect e then CONNECTION_FAILED_TEXT
      else if re_request e then ''Request failed. Check URL format and parameters''
      else if re_decode e then ''Response decoding failed. Server returned invalid data''
      else ''Request failed: '' @ re_text e)"

definition analyze_error_chain :: "texts \<Rightarrow> reqwest_error \<Rightarrow> string" where
  "analyze_error_chain tx e =
     (case analyze_basic_reqwest_error tx e of
        Some text \<Rightarrow> text
      | None \<Rightarrow>
          (case analyze_error_source_chain tx (re_sources e) of
             Some text \<Rightarrow> text
           | None \<Rightarrow> fallback_reqwest_analysis e))"

section \<open>Errors\<close>

definition range_error_show :: "status_range_error \<Rightarrow> string" where
  "range_error_show e =
     (case e of
        NoRangePattern \<Rightarrow> ''no range pattern found''
      | ParseIntError _ \<Rightarrow> ''failed to parse str as integer''
      | InvalidRangeIndices \<Rightarrow> ''invalid range indices, only start < end supported''
      | InvalidStatusCodeValue \<Rightarrow>
          ''values must represent valid status codes between '' @ show_nat (unat range_MIN) @ '' and '' @
          show_nat (unat range_MAX) @ '' (inclusive)'')"

fun selector_error_show :: "selector_error \<Rightarrow> string" where
  "selector_error_show StatusSelector.InvalidInput = ''invalid/empty input''"
| "selector_error_show (RangeError e) = ''failed to parse range: '' @ range_error_show e"

text \<open>The texts of \<open>thiserror\<close>'s \<open>Display\<close>, variant by variant.\<close>

primrec err_show :: "texts \<Rightarrow> error_kind \<Rightarrow> string" where
  "err_show tx (NetworkRequest e) = ''Network error: '' @ analyze_error_chain tx e @ '' ('' @ re_text e @ '')''"
| "err_show tx (ReadResponseBody e) = ''Failed to read response body: '' @ re_text e"
| "err_show tx (BuildRequestClient e) = ''Failed to create HTTP request client: '' @ re_text e"
| "err_show tx (GithubRequest e) = ''Network error while using GitHub client''"
| "err_show tx (RuntimeJoin e) = ''Task failed to execute to completion: '' @ e"
| "err_show tx (ReadFileInput e path) = ''Cannot read input content from file '' @ quoted (path_show path)"
| "err_show tx (ReadInputUrlStatusCode c) =
     ''Cannot read input content from URL: status code '' @ tx_code tx c @
     ''. To check links in error pages, download and check locally instead.''"
| "err_show tx (ReadStdinInput e) = ''Cannot read content from stdin: '' @ io_text e"
| "err_show tx (Utf8 e) =
     ''Encountered invalid UTF-8 sequence, while trying to interpret bytes UTF-8 string: '' @ e"
| "err_show tx (BuildGithubClient e) = ''Failed to create GitHub client''"
| "err_show tx (InvalidGithubUrl s) = ''GitHub URL is invalid: '' @ s"
| "err_show tx EmptyUrl = ''Empty URL found but a URL must not be empty''"
| "err_show tx (ParseUrl e s) = ''Cannot parse '' @ quoted s @ '' into a URL: '' @ tx_url_error tx e"
| "err_show tx (RootRelativeLinkWithoutRoot s) = ''Cannot resolve root-relative link '' @ quoted s"
| "err_show tx (InvalidFilePath u) = ''File not found. Check if file exists and path is correct''"
| "err_show tx (InvalidFragment u) = ''Cannot find fragment''"
| "err_show tx (InvalidIndexFile files) = ''Cannot find index file within directory''"
| "err_show tx (InvalidUrlFromPath path) = ''Cannot convert path to URL: '' @ quoted (path_show path)"
| "err_show tx (UnreachableEmailAddress u reason) = ''Unreachable mail address '' @ url_str u"
| "err_show tx (InvalidHeader e) = ''Invalid HTTP header: '' @ e"
| "err_show tx (InvalidBase b e) = ''Invalid base URL or directory: '' @ quoted b @ ''. '' @ e"
| "err_show tx (UnsupportedUriType s) = ''Unsupported URI type: '' @ quoted s"
| "err_show tx (InvalidUrlRemap s) = ''Invalid remap pattern: '' @ s"
| "err_show tx (error_kind.InvalidInput s) =
     ''Input '' @ quoted s @ '' not found as file and not a valid URL. '' @
     ''Use full URL (e.g., https://example.com) or check file path.''"
| "err_show tx (DirTraversal e) = ''Cannot traverse input directory: '' @ e"
| "err_show tx (InvalidGlobPattern msg pos) = ''Invalid glob pattern: '' @ tx_glob_error tx msg pos"
| "err_show tx MissingGitHubToken = ''GitHub token required''"
| "err_show tx (InsecureURL u) = ''Insecure HTTP URL used, where '' @ quoted (url_str u) @ '' can be used instead''"
| "err_show tx (Channel e) = ''Internal communication error, cannot send/receive message over channel: '' @ e"
| "err_show tx InvalidUrlHost = ''URL is missing a hostname''"
| "err_show tx (InvalidURI u) = ''The given URI is invalid, check URI syntax: '' @ url_str u"
| "err_show tx (InvalidStatusCode c) = ''Invalid status code: '' @ show_nat (unat c)"
| "err_show tx (RejectedStatusCode c) =
     ''Rejected status code: '' @ show_nat (unat c) @ '' '' @
     (case tx_reason tx c of Some r \<Rightarrow> r | None \<Rightarrow> ''Unknown status code'') @
     '' (configurable with '' @ [CHR 0x22] @ ''accept'' @ [CHR 0x22] @ '' option)''"
| "err_show tx (Regex e) = ''Regular expression error: '' @ e @ ''. Check regex syntax''"
| "err_show tx (BasicAuthExtractorError e) = ''Basic authentication extraction error: '' @ e"
| "err_show tx (Cookies e) = ''Cookie handling error: '' @ e"
| "err_show tx (StatusCodeSelectorError e) = ''Unable to parse status code selector: '' @ selector_error_show e"
| "err_show tx (PreprocessorError command reason) =
     ''Preprocessor command '' @ quoted command @ '' failed with '' @ quoted reason"
| "err_show tx (WikilinkNotFound u path) = ''Wikilink '' @ url_str u @ '' not found at '' @ path_show path"
| "err_show tx (WikilinkInvalidBase e) = ''Invalid base URL for WikiLink checking: '' @ e"

text \<open>\<open>ErrorKind::details\<close>.  The variants of its last arm print themselves.\<close>

definition file_error_details :: "io_error \<Rightarrow> path \<Rightarrow> string" where
  "file_error_details e path =
     (case io_kind_of e of
        NotFound \<Rightarrow> ''Check if file path is correct''
      | PermissionDenied \<Rightarrow> ''Permission denied: '' @ quoted (path_show path) @ ''. Check file permissions''
      | IsADirectory \<Rightarrow> ''Path is a directory, not a file: '' @ quoted (path_show path) @ ''. Check file path''
      | _ \<Rightarrow> ''File read error for '' @ quoted (path_show path) @ '': '' @ io_text e)"

definition index_file_details :: "string list \<Rightarrow> string" where
  "index_file_details files =
     (case files of
        [] \<Rightarrow> ''Directory links are rejected because index_files is empty''
      | [name] \<Rightarrow> ''An index file ('' @ name @ '') is required''
      | _ \<Rightarrow> ''An index file ('' @ join '', '' (butlast files) @ '', or '' @ last files @ '') is required'')"

definition err_details :: "texts \<Rightarrow> error_kind \<Rightarrow> string" where
  "err_details tx kind =
     (let self = err_show tx kind in
      case kind of
        NetworkRequest e \<Rightarrow> analyze_error_chain tx e
      | GithubRequest e \<Rightarrow> self @ '': '' @ (case oc_kind e of OctoGitHub message \<Rightarrow> message | _ \<Rightarrow> oc_text e)
      | ReadFileInput e path \<Rightarrow> file_error_details e path
      | ReadInputUrlStatusCode _ \<Rightarrow> []
      | ParseUrl e _ \<Rightarrow> self @
          (if e = RelativeUrlWithoutBase
           then '': This relative link was found inside an input source that has no base location'' else [])
      | RootRelativeLinkWithoutRoot _ \<Rightarrow>
          self @ '': To resolve root-relative links in local files, provide a root dir''
      | BuildRequestClient _ \<Rightarrow> self @ '': Check system configuration''
      | BuildGithubClient e \<Rightarrow> self @ '': '' @ oc_text e @ ''. Check token and network connectivity''
      | InvalidGithubUrl _ \<Rightarrow> self @ ''. Check URL syntax''
      | InvalidUrlFromPath _ \<Rightarrow> self @ ''. Check path format''
      | UnreachableEmailAddress _ reason \<Rightarrow> reason
      | InvalidHeader _ \<Rightarrow> self @ ''. Check header format''
      | UnsupportedUriType _ \<Rightarrow> self @ ''. Only http, https, file, and mailto are supported''
      | InvalidUrlRemap _ \<Rightarrow> self @ ''. Check remap syntax''
      | DirTraversal _ \<Rightarrow> self @ ''. Check directory permissions''
      | InvalidGlobPattern _ _ \<Rightarrow> self @ ''. Check pattern syntax''
      | MissingGitHubToken \<Rightarrow> self @ ''. Use --github-token flag or GITHUB_TOKEN environment variable''
      | InvalidStatusCode _ \<Rightarrow> self @ ''. Must be in the range 100-999''
      | BasicAuthExtractorError _ \<Rightarrow> self @ ''. '' @ ''Check credentials format''
      | Cookies _ \<Rightarrow> self @ ''. Check cookie file format''
      | StatusCodeSelectorError _ \<Rightarrow> self @ ''. Check '' @ quoted ''accept'' @ '' and '' @
          quoted ''cache_exclude_status'' @ '' configuration''
      | InvalidIndexFile files \<Rightarrow> self @ '': '' @ index_file_details files
      | _ \<Rightarrow> self)"

definition raw_uri_show :: "raw_uri \<Rightarrow> string" where
  "raw_uri_show raw = debug_string (raw_text raw) @ '' (Attribute: '' @ debug_option (raw_attribute raw) @ '')''"

fun request_error_show :: "texts \<Rightarrow> request_error \<Rightarrow> string" where
  "request_error_show tx (CreateRequestItem raw _ e) = ''Error building URL for '' @ raw_uri_show raw @ '': '' @ err_show tx e"
| "request_error_show tx (GetInputContent src e) = ''Error reading input '' @ quoted (source_show src) @ '': '' @ err_show tx e"
| "request_error_show tx (UserInputContent src e) =
     ''Error reading user input '' @ quoted (source_show src) @ '': '' @ err_show tx e"
| "request_error_show tx (InputSourceError src e) =
     ''Error processing input '' @ quoted (source_show src) @ '': '' @ err_show tx e"

section \<open>Statuses\<close>

fun cache_status_show :: "cache_status \<Rightarrow> string" where
  "cache_status_show (CacheOk _) = ''OK (cached)''"
| "cache_status_show (CacheError _) = ''Error (cached)''"
| "cache_status_show CacheExcluded = ''Excluded (cached)''"
| "cache_status_show CacheUnsupported = ''Unsupported (cached)''"

fun status_show :: "texts \<Rightarrow> status \<Rightarrow> string" where
  "status_show tx (StOk code) = tx_code tx code"
| "status_show tx (StUnknownStatusCode code) = ''Unknown status ('' @ tx_code tx code @ '')''"
| "status_show tx (StUnknownMailStatus _) = ''Unknown mail status''"
| "status_show tx (StTimeout (Some code)) = ''Timeout ('' @ tx_code tx code @ '')''"
| "status_show tx (StTimeout None) = ''Timeout''"
| "status_show tx (StUnsupported e) = ''Unsupported: '' @ err_show tx e"
| "status_show tx (StError e) = err_show tx e"
| "status_show tx (StRequestError e) = request_error_show tx e"
| "status_show tx (StCached status) = cache_status_show status"
| "status_show tx StExcluded = ''Excluded''"

fun status_details :: "texts \<Rightarrow> status \<Rightarrow> string" where
  "status_details tx (StOk code) = tx_code tx code"
| "status_details tx (StError e) = err_details tx e"
| "status_details tx (StRequestError e) = err_details tx (request_error_kind e)"
| "status_details tx (StUnknownMailStatus reason) = reason"
| "status_details tx (StTimeout _) = ''Request timed out''"
| "status_details tx StExcluded = ''This is due to your '' @ quoted ''exclude'' @ '' values''"
| "status_details tx status = status_show tx status"

text \<open>
  The JSON of a status: its text, and its code or else its details.
\<close>

definition status_serialize :: "texts \<Rightarrow> status \<Rightarrow> string \<times> (status_code + string)" where
  "status_serialize tx status =
     (status_show tx status,
      case status_code_of status of Some code \<Rightarrow> Inl code | None \<Rightarrow> Inr (status_details tx status))"

definition remap_show :: "remap \<Rightarrow> string" where
  "remap_show r = url_str (remap_original r) @ '' --> '' @ url_str (remap_new r)"

definition span_suffix :: "raw_uri_span option \<Rightarrow> string" where
  "span_suffix sp = (case sp of Some sp \<Rightarrow> '' (at '' @ span_show sp @ '')'' | None \<Rightarrow> [])"

definition body_show :: "texts \<Rightarrow> response_body \<Rightarrow> string" where
  "body_show tx body =
     (let start = url_str (rb_uri body) @ span_suffix (rb_span body) in
      if rb_status body = StOk 200 \<and> rb_redirects body = None \<and> rb_remap body = None then start
      else start @ '' | '' @ status_details tx (rb_status body) @
        (case rb_remap body of Some remap \<Rightarrow> '' | Remaps: '' @ remap_show remap | None \<Rightarrow> []) @
        (case rb_redirects body of
           Some redirects \<Rightarrow>
             let count = redirects_count redirects;
                 noun = (if count = 1 then ''redirect'' else ''redirects'') in
             '' | Followed '' @ show_nat count @ '' '' @ noun @ ''. Redirects: '' @ redirects_show redirects
         | None \<Rightarrow> []))"

section \<open>Hashes\<close>

text \<open>What an implementation of \<open>Hash\<close> feeds to the hasher, in order.\<close>

datatype (plugins only: code size) hashed =
    HText string | HNumber nat | HCode status_code | HIoKind io_kind | HPath path | HUrl url | HTexts "string list"
  | HSource input_source | HResolved resolved_source | HVariant string

text \<open>\<open>impl Hash for ErrorKind\<close>, arm by arm.\<close>

primrec err_hash :: "texts \<Rightarrow> error_kind \<Rightarrow> hashed list" where
  "err_hash tx (RuntimeJoin e) = [HText e]"
| "err_hash tx (ReadFileInput e path) = [HIoKind (io_kind_of e), HPath path]"
| "err_hash tx (ReadInputUrlStatusCode c) = [HCode c]"
| "err_hash tx (ReadStdinInput e) = [HIoKind (io_kind_of e)]"
| "err_hash tx (NetworkRequest e) = [HText (re_text e)]"
| "err_hash tx (ReadResponseBody e) = [HText (re_text e)]"
| "err_hash tx (BuildRequestClient e) = [HText (re_text e)]"
| "err_hash tx (BuildGithubClient e) = [HText (oc_text e)]"
| "err_hash tx (GithubRequest e) = [HText (oc_text e)]"
| "err_hash tx (InvalidGithubUrl s) = [HText s]"
| "err_hash tx (DirTraversal e) = [HText e]"
| "err_hash tx (error_kind.InvalidInput s) = [HText s]"
| "err_hash tx EmptyUrl = [HText ''Empty URL'']"
| "err_hash tx (ParseUrl e s) = [HText (tx_url_error tx e), HText s]"
| "err_hash tx (RootRelativeLinkWithoutRoot s) = [HText s]"
| "err_hash tx (InvalidURI u) = [HUrl u]"
| "err_hash tx (InvalidUrlFromPath path) = [HPath path]"
| "err_hash tx (Utf8 e) = [HText e]"
| "err_hash tx (InvalidFilePath u) = [HUrl u]"
| "err_hash tx (InvalidFragment u) = [HUrl u]"
| "err_hash tx (InvalidIndexFile files) = [HTexts files]"
| "err_hash tx (UnreachableEmailAddress u reason) = [HUrl u]"
| "err_hash tx (InsecureURL u) = [HUrl u]"
| "err_hash tx (InvalidBase b e) = [HText b, HText e]"
| "err_hash tx (UnsupportedUriType s) = [HText s]"
| "err_hash tx (InvalidUrlRemap s) = [HText s]"
| "err_hash tx (InvalidHeader e) = [HText e]"
| "err_hash tx (InvalidGlobPattern msg pos) = [HText (tx_glob_error tx msg pos)]"
| "err_hash tx (InvalidStatusCode c) = [HNumber (unat c)]"
| "err_hash tx (RejectedStatusCode c) = [HCode c]"
| "err_hash tx (Channel e) = [HText e]"
| "err_hash tx MissingGitHubToken = [HVariant ''MissingGitHubToken'']"
| "err_hash tx InvalidUrlHost = [HVariant ''InvalidUrlHost'']"
| "err_hash tx (Regex e) = [HText e]"
| "err_hash tx (BasicAuthExtractorError e) = [HText e]"
| "err_hash tx (Cookies e) = [HText e]"
| "err_hash tx (StatusCodeSelectorError e) = [HText (selector_error_show e)]"
| "err_hash tx (PreprocessorError command reason) = [HText command, HText reason]"
| "err_hash tx (WikilinkNotFound u path) = [HUrl u, HPath path]"
| "err_hash tx (WikilinkInvalidBase e) = [HText e]"

text \<open>The derived implementations: the variant, then the fields.\<close>

definition hash_option :: "('a \<Rightarrow> hashed list) \<Rightarrow> 'a option \<Rightarrow> hashed list" where
  "hash_option h x = (case x of None \<Rightarrow> [HVariant ''None''] | Some x \<Rightarrow> HVariant ''Some'' # h x)"

definition span_hash :: "raw_uri_span \<Rightarrow> hashed list" where
  "span_hash sp = HNumber (span_line sp) # hash_option (\<lambda>n. [HNumber n]) (span_column sp)"

fun request_error_hash :: "texts \<Rightarrow> request_error \<Rightarrow> hashed list" where
  "request_error_hash tx (CreateRequestItem raw src e) =
     [HVariant ''CreateRequestItem'', HText (raw_text raw)] @ hash_option (\<lambda>s. [HText s]) (raw_element raw) @
     hash_option (\<lambda>s. [HText s]) (raw_attribute raw) @ span_hash (raw_span raw) @ [HResolved src] @ err_hash tx e"
| "request_error_hash tx (GetInputContent src e) = [HVariant ''GetInputContent'', HSource src] @ err_hash tx e"
| "request_error_hash tx (UserInputContent src e) = [HVariant ''UserInputContent'', HSource src] @ err_hash tx e"
| "request_error_hash tx (InputSourceError src e) = [HVariant ''InputSourceError'', HSource src] @ err_hash tx e"

fun cache_status_hash :: "cache_status \<Rightarrow> hashed list" where
  "cache_status_hash (CacheOk c) = [HVariant ''Ok'', HCode c]"
| "cache_status_hash (CacheError c) = HVariant ''Error'' # hash_option (\<lambda>c. [HCode c]) c"
| "cache_status_hash CacheExcluded = [HVariant ''Excluded'']"
| "cache_status_hash CacheUnsupported = [HVariant ''Unsupported'']"

fun status_hash :: "texts \<Rightarrow> status \<Rightarrow> hashed list" where
  "status_hash tx (StOk c) = [HVariant ''Ok'', HCode c]"
| "status_hash tx (StError e) = HVariant ''Error'' # err_hash tx e"
| "status_hash tx (StRequestError e) = HVariant ''RequestError'' # request_error_hash tx e"
| "status_hash tx (StTimeout c) = HVariant ''Timeout'' # hash_option (\<lambda>c. [HCode c]) c"
| "status_hash tx (StUnknownStatusCode c) = [HVariant ''UnknownStatusCode'', HCode c]"
| "status_hash tx (StUnknownMailStatus s) = [HVariant ''UnknownMailStatus'', HText s]"
| "status_hash tx StExcluded = [HVariant ''Excluded'']"
| "status_hash tx (StUnsupported e) = HVariant ''Unsupported'' # err_hash tx e"
| "status_hash tx (StCached c) = HVariant ''Cached'' # cache_status_hash c"

definition redirects_hash :: "redirects \<Rightarrow> hashed list" where
  "redirects_hash r = [HUrl (rds_origin r), HNumber (length (rds_redirects r))] @
     concat (map (\<lambda>x. [HUrl (rd_url x), HCode (rd_code x)]) (rds_redirects r))"

definition body_hash :: "texts \<Rightarrow> response_body \<Rightarrow> hashed list" where
  "body_hash tx body = [HUrl (rb_uri body)] @ status_hash tx (rb_status body) @
     hash_option redirects_hash (rb_redirects body) @
     hash_option (\<lambda>r. [HUrl (remap_original r), HUrl (remap_new r)]) (rb_remap body) @
     hash_option span_hash (rb_span body) @ hash_option (\<lambda>d. [HNumber d]) (rb_duration body)"

text \<open>
  The comparison of errors ignores the payload of two variants whose text is always the same: that of
  http for a header value it cannot take, and that of tokio for a closed channel.
\<close>

fun constant_texts :: "error_kind \<Rightarrow> bool" where
  "constant_texts (InvalidHeader e) = (e = ''failed to parse header value'')"
| "constant_texts (Channel e) = (e = ''channel closed'')"
| "constant_texts _ = True"

lemma err_hash_eq: "err_eq a b \<Longrightarrow> constant_texts a \<Longrightarrow> constant_texts b \<Longrightarrow> err_hash tx a = err_hash tx b"
  by (cases a; cases b) (simp_all add: err_eq_def)

fun status_error :: "status \<Rightarrow> error_kind option" where
  "status_error (StError e) = Some e"
| "status_error (StUnsupported e) = Some e"
| "status_error (StRequestError e) = Some (request_error_kind e)"
| "status_error _ = None"

lemma request_error_hash_eq:
  "request_error_eq a b \<Longrightarrow> constant_texts (request_error_kind a) \<Longrightarrow> constant_texts (request_error_kind b) \<Longrightarrow>
   request_error_hash tx a = request_error_hash tx b"
  by (cases a; cases b) (auto intro: err_hash_eq)

lemma status_hash_eq:
  assumes "status_eq a b" "pred_option constant_texts (status_error a)" "pred_option constant_texts (status_error b)"
  shows "status_hash tx a = status_hash tx b"
  using assms by (cases a; cases b) (auto simp: status_eq_def intro: err_hash_eq request_error_hash_eq)

text \<open>C38: Bodies of responses that compare as equal feed the same to a hasher, which the hash sets of the
  statistics need to find a body that is already there; this although errors are compared by their
  texts, or not at all for a header and a channel, whose texts are constants of other crates.
\<close>

theorem equal_bodies_hash_alike:
  assumes "body_eq a b"
    and "pred_option constant_texts (status_error (rb_status a))"
    and "pred_option constant_texts (status_error (rb_status b))"
  shows "body_hash tx a = body_hash tx b"
  using assms status_hash_eq by (simp add: body_eq_def body_hash_def)

definition sample_texts :: texts where
  "sample_texts = \<lparr>tx_reason = (\<lambda>c. if c = 200 then Some ''OK'' else if c = 404 then Some ''Not Found'' else None),
     tx_code = (\<lambda>c. show_nat (unat c)), tx_url_error = (\<lambda>_. ''relative URL without a base''),
     tx_glob_error = (\<lambda>msg pos. msg)\<rparr>"

definition sample_body :: "status \<Rightarrow> response_body" where
  "sample_body status = \<lparr>rb_uri = domain_url ''https'' ''a.b'' ''/'', rb_status = status, rb_redirects = None,
     rb_remap = None, rb_span = Some \<lparr>span_line = 3, span_column = Some 7\<rparr>, rb_duration = None\<rparr>"

theorem equal_bodies_hash_alike_witness:
  "body_hash sample_texts (sample_body (StError (UnreachableEmailAddress (domain_url ''mailto'' [] []) ''x''))) =
   body_hash sample_texts (sample_body (StError (UnreachableEmailAddress (domain_url ''mailto'' [] []) ''y'')))"
  by (rule equal_bodies_hash_alike) (simp_all add: body_eq_def sample_body_def status_eq_def err_eq_def)

lemma body_show_examples:
  "body_show sample_texts (sample_body (StOk 200)) = ''https://a.b/ (at 3:7)''"
  "body_show sample_texts (sample_body (StTimeout None)) = ''https://a.b/ (at 3:7) | Request timed out''"
  "body_show sample_texts (sample_body (StError (InvalidIndexFile [''a'', ''b'', ''c'']))) =
     ''https://a.b/ (at 3:7) | Cannot find index file within directory: An index file (a, b, or c) is required''"
  by code_simp+

end
