(* ===== verification/Archive.thy ===== *)
theory Archive
  imports ResponseStats UriFilter Retry
begin

text \<open>
  Suggestions of archived copies for the links that failed: the end of \<open>lychee-bin/src/commands/check.rs\<close>,
  \<open>lychee-lib/src/archive\<close> and \<open>lychee-bin/src/formatters/suggestion.rs\<close>.

  The Wayback API is a parameter: what it answers to the query string, as the closest snapshot of the
  response.  Only this field of the response is read.
\<close>

section \<open>Asking the archive\<close>

type_synonym wayback_api = "string \<Rightarrow> duration \<Rightarrow> reqwest_error + url option"

definition get_archive_snapshot :: "wayback_api \<Rightarrow> url \<Rightarrow> duration \<Rightarrow> reqwest_error + url option" where
  "get_archive_snapshot api url timeout =
     (let url = url_str url;
          stripped = (if url \<noteq> [] \<and> last url = CHR ''/'' then butlast url else url)
      in api (''url='' @ stripped) timeout)"

text \<open>The status of a snapshot is a text in the response; one that is no status code makes the response an error.\<close>

definition snapshot_status :: "http \<Rightarrow> string \<Rightarrow> status_code option" where
  "snapshot_status h value' = (case parse_u16 value' of Inl _ \<Rightarrow> None | Inr n \<Rightarrow> from_u16 h n)"

definition suggestion_show :: "suggestion \<Rightarrow> string" where
  "suggestion_show sg = url_str (sg_original sg) @ '' --> '' @ url_str (sg_suggestion sg)"

section \<open>The failed links of a run\<close>

text \<open>\<open>order\<close> is the order in which the map of errors is iterated.\<close>

definition failed_url :: "url_crate \<Rightarrow> uri \<Rightarrow> url option" where
  "failed_url uc u =
     (if is_data u \<or> is_mail u \<or> is_file u then None
      else (case uc_parse uc (url_str u) of Inr url \<Rightarrow> Some url | Inl _ \<Rightarrow> None))"

definition get_failed_urls :: "url_crate \<Rightarrow> input_source list \<Rightarrow> response_stats \<Rightarrow> (input_source \<times> url) list" where
  "get_failed_urls uc order stats =
     concat (map (\<lambda>source. case s_error_map stats source of
         None \<Rightarrow> []
       | Some bodies \<Rightarrow> List.map_filter (\<lambda>body. map_option (Pair source) (failed_url uc (rb_uri body))) bodies) order)"

definition suggest_for :: "wayback_api \<Rightarrow> duration \<Rightarrow> input_source \<times> url \<Rightarrow> response_stats \<Rightarrow> response_stats" where
  "suggest_for api timeout failed stats =
     (let (input, url) = failed in
      case get_archive_snapshot api url timeout of
        Inr (Some suggestion) \<Rightarrow> stats\<lparr>s_suggestion_map :=
          map_insert (=) input \<lparr>sg_original = url, sg_suggestion = suggestion\<rparr> (s_suggestion_map stats)\<rparr>
      | _ \<Rightarrow> stats)"

definition suggest_archived_links ::
  "url_crate \<Rightarrow> wayback_api \<Rightarrow> duration \<Rightarrow> input_source list \<Rightarrow> response_stats \<Rightarrow> response_stats" where
  "suggest_archived_links uc api timeout order stats =
     fold (suggest_for api timeout) (get_failed_urls uc order stats) stats"

section \<open>What is suggested\<close>

lemma set_map_filter: "set (List.map_filter f xs) = {y. \<exists>x \<in> set xs. f x = Some y}"
  by (auto simp: map_filter_def) force

lemma failed_urls_mem:
  "(source, url) \<in> set (get_failed_urls uc order stats) \<longleftrightarrow> source \<in> set order \<and>
     (\<exists>bodies. s_error_map stats source = Some bodies \<and> (\<exists>body \<in> set bodies. failed_url uc (rb_uri body) = Some url))"
proof -
  have "x \<in> set (case s_error_map stats k of None \<Rightarrow> []
      | Some bodies \<Rightarrow> List.map_filter (\<lambda>body. map_option (Pair k) (failed_url uc (rb_uri body))) bodies) \<longleftrightarrow>
    fst x = k \<and> (\<exists>bodies. s_error_map stats k = Some bodies \<and>
      (\<exists>body \<in> set bodies. failed_url uc (rb_uri body) = Some (snd x)))" for x k
    by (cases x; cases "s_error_map stats k") (auto simp: set_map_filter)
  then show ?thesis by (auto simp: get_failed_urls_def)
qed

definition suggestions :: "response_stats \<Rightarrow> (input_source \<times> suggestion) set" where
  "suggestions stats = {(source, sg). \<exists>sgs. s_suggestion_map stats source = Some sgs \<and> sg \<in> set sgs}"

lemma set_insert_eq: "set (set_insert (=) x xs) = insert x (set xs)"
  by (auto simp: set_insert_def)

lemma suggestions_insert:
  "suggestions (stats\<lparr>s_suggestion_map := map_insert (=) input sg (s_suggestion_map stats)\<rparr>) =
     insert (input, sg) (suggestions stats)"
  by (auto simp: suggestions_def map_insert_def set_insert_eq split: option.splits if_splits)

definition suggested :: "wayback_api \<Rightarrow> duration \<Rightarrow> input_source \<times> url \<Rightarrow> (input_source \<times> suggestion) set" where
  "suggested api timeout failed = {(fst failed, \<lparr>sg_original = snd failed, sg_suggestion = copy\<rparr>) | copy.
     get_archive_snapshot api (snd failed) timeout = Inr (Some copy)}"

lemma suggestions_suggest_for:
  "suggestions (suggest_for api timeout failed stats) = suggested api timeout failed \<union> suggestions stats"
  by (cases failed; cases "get_archive_snapshot api (snd failed) timeout"; cases "projr (get_archive_snapshot api (snd failed) timeout)")
    (auto simp: suggest_for_def suggested_def suggestions_insert)

lemma suggestions_fold:
  "suggestions (fold (suggest_for api timeout) fs stats) = (\<Union>f \<in> set fs. suggested api timeout f) \<union> suggestions stats"
  by (induction fs arbitrary: stats) (auto simp: suggestions_suggest_for)

lemma suggest_for_keeps: "suggest_for api timeout failed stats = stats\<lparr>s_suggestion_map := s_suggestion_map (suggest_for api timeout failed stats)\<rparr>"
  by (auto simp: suggest_for_def split: prod.split sum.split option.split)

lemma suggest_fold_keeps:
  "check_exit_code at (fold (suggest_for api timeout) fs stats) = check_exit_code at stats \<and>
   s_error_map (fold (suggest_for api timeout) fs stats) = s_error_map stats"
proof (induction fs arbitrary: stats)
  case (Cons f fs)
  have "check_exit_code at (suggest_for api timeout f stats) = check_exit_code at stats"
    "s_error_map (suggest_for api timeout f stats) = s_error_map stats"
    by (subst suggest_for_keeps, simp add: check_exit_code_def stats_is_success_def
        stats_is_success_ignoring_timeouts_def)+
  with Cons show ?case by simp
qed simp

text \<open>Suggestions are made for exactly the failed links the archive has a copy of.  Links that timed out,
  local files, mail addresses and data URLs get none; a link that failed in several inputs gets one in each;
  in which order the answers come does not matter, and neither the errors nor the exit code change.
\<close>

theorem suggestions_for_failed_links:
  assumes "set order = dom (s_error_map stats)" and "s_suggestion_map stats = Map.empty"
  shows "suggestions (suggest_archived_links uc api timeout order stats) =
      {(source, \<lparr>sg_original = url, sg_suggestion = copy\<rparr>) | source url copy.
         (\<exists>bodies. s_error_map stats source = Some bodies \<and> (\<exists>body \<in> set bodies. failed_url uc (rb_uri body) = Some url)) \<and>
         get_archive_snapshot api url timeout = Inr (Some copy)} \<and>
    check_exit_code at (suggest_archived_links uc api timeout order stats) = check_exit_code at stats \<and>
    s_error_map (suggest_archived_links uc api timeout order stats) = s_error_map stats"
proof -
  have "suggestions stats = {}" by (simp add: suggestions_def assms(2))
  then have "suggestions (suggest_archived_links uc api timeout order stats) =
      (\<Union>f \<in> set (get_failed_urls uc order stats). suggested api timeout f)"
    by (simp add: suggest_archived_links_def suggestions_fold)
  also have "\<dots> = {(source, \<lparr>sg_original = url, sg_suggestion = copy\<rparr>) | source url copy.
      (source, url) \<in> set (get_failed_urls uc order stats) \<and> get_archive_snapshot api url timeout = Inr (Some copy)}"
    by (auto simp: suggested_def)
  finally show ?thesis
    using assms(1) suggest_fold_keeps by (auto simp: failed_urls_mem suggest_archived_links_def)
qed

theorem suggestions_for_failed_links_witness:
  "let u = domain_url ''https'' ''a.org'' ''/x/'';
     uc = \<lparr>uc_parse = (\<lambda>s. Inr u), uc_join = (\<lambda>u s. Inr u), uc_set_scheme = (\<lambda>s u. Some u), uc_set_fragment = (\<lambda>f u. u)\<rparr>;
     api = (\<lambda>query timeout. Inr (if query = ''url=https://a.org/x'' then Some (domain_url ''https'' ''b.org'' ''/'') else None));
     stats = stats_add (response_new u (StError (InvalidInput [])) None None Stdin None None) stats_default
   in suggestions (suggest_archived_links uc api 1 [Stdin] stats) =
     {(Stdin, \<lparr>sg_original = u, sg_suggestion = domain_url ''https'' ''b.org'' ''/''\<rparr>)}"
proof -
  let ?u = "domain_url ''https'' ''a.org'' ''/x/''"
  let ?copy = "domain_url ''https'' ''b.org'' ''/''"
  let ?uc = "\<lparr>uc_parse = (\<lambda>s. Inr ?u), uc_join = (\<lambda>u s. Inr u), uc_set_scheme = (\<lambda>s u. Some u), uc_set_fragment = (\<lambda>f u. u)\<rparr>"
  let ?api = "\<lambda>query timeout. Inr (if query = ''url=https://a.org/x'' then Some ?copy else None)"
  let ?body = "\<lparr>rb_uri = ?u, rb_status = StError (InvalidInput []), rb_redirects = None, rb_remap = None,
    rb_span = None, rb_duration = None\<rparr>"
  let ?stats = "stats_add (response_new ?u (StError (InvalidInput [])) None None Stdin None None) stats_default"
  have stats: "s_error_map ?stats = [Stdin \<mapsto> [?body]]" "s_suggestion_map ?stats = Map.empty"
    by (simp_all add: stats_add_def response_new_def add_response_status_def stats_default_def Let_def
        map_insert_def set_insert_def)
  have "get_archive_snapshot ?api ?u 1 = Inr (Some ?copy)" "failed_url ?uc ?u = Some ?u"
    by (simp_all add: get_archive_snapshot_def failed_url_def is_data_def is_mail_def is_file_def domain_url_def)
  moreover have "set [Stdin] = dom (s_error_map ?stats)" by (simp add: stats)
  ultimately show ?thesis
    using suggestions_for_failed_links [OF _ stats(2), of "[Stdin]" ?uc ?api 1] stats unfolding Let_def by auto
qed

end
