(* ===== verification/Reports.thy ===== *)
theory Reports
  imports ErrorTexts Archive Options "HOL-Library.List_Lexorder" "HOL-Library.Char_ord"
begin

text \<open>
  What a run prints: \<open>lychee-bin/src/formatters\<close> and \<open>lychee-bin/src/progress.rs\<close>.  The statistics
  of hosts are in HostReports and the JSON report in Json.  The crates for tables, for the duration of a run and
  for the comparison of strings with numbers are parameters.
\<close>

section \<open>Printed text\<close>

text \<open>The symbols in the reports are outside the characters of HOL; each is one character of its own.\<close>

datatype symbol =
    Memo | Magnifier | Chain_Links | CheckMark | Hourglass | Shuffle | Ghost | Question | NoEntry | Stop | Warning | Cross
  | Information | Chart | Bar | Rule

datatype glyph = Glyph char | Symbol symbol

type_synonym glyphs = "glyph list"

definition glyphs_of :: "string \<Rightarrow> glyphs" where
  "glyphs_of s = map Glyph s"

definition newline :: glyphs where
  "newline = [Glyph (CHR 0x0A)]"

lemma glyphs_inject [simp]: "glyphs_of a = glyphs_of b \<longleftrightarrow> a = b"
  by (auto simp: glyphs_of_def inj_map_eq_map inj_def)

lemma glyphs_append: "glyphs_of (a @ b) = glyphs_of a @ glyphs_of b"
  by (simp add: glyphs_of_def)

text \<open>The styles of \<open>color.rs\<close>; applying one is the console crate's.\<close>

datatype foreground = NoColor | Color256 nat | Yellow | Blue

record style =
  st_color :: foreground
  st_bold :: bool
  st_bright :: bool
  st_dim :: bool

definition style_new :: style where
  "style_new = \<lparr>st_color = NoColor, st_bold = False, st_bright = False, st_dim = False\<rparr>"

definition NORMAL :: style where "NORMAL = style_new"
definition DIM :: style where "DIM = style_new\<lparr>st_dim := True\<rparr>"
definition GREEN :: style where "GREEN = style_new\<lparr>st_color := Color256 2, st_bold := True, st_bright := True\<rparr>"
definition BOLD_GREEN :: style where
  "BOLD_GREEN = style_new\<lparr>st_color := Color256 82, st_bold := True, st_bright := True\<rparr>"
definition YELLOW :: style where "YELLOW = style_new\<lparr>st_color := Yellow, st_bright := True\<rparr>"
definition BOLD_YELLOW :: style where
  "BOLD_YELLOW = style_new\<lparr>st_color := Yellow, st_bright := True, st_bold := True\<rparr>"
definition PINK :: style where "PINK = style_new\<lparr>st_color := Color256 197\<rparr>"
definition BOLD_PINK :: style where "BOLD_PINK = style_new\<lparr>st_color := Color256 197, st_bold := True\<rparr>"
definition BLUE :: style where "BLUE = style_new\<lparr>st_color := Blue, st_bright := True\<rparr>"

text \<open>\<open>color\_for\_level\<close>, with the log crate's order of the levels.\<close>

fun color_for_level :: "log_level \<Rightarrow> style" where
  "color_for_level LevelError = BOLD_PINK"
| "color_for_level LevelWarn = BOLD_YELLOW"
| "color_for_level LevelInfo = BLUE"
| "color_for_level LevelDebug = BLUE"
| "color_for_level LevelTrace = DIM"

text \<open>
  The environment of a report: whether the terminal supports colours, how a style is applied, the order of
  \<open>numeric\_sort::cmp\<close>, the order in which a hash map gives its keys, and humantime's text of milliseconds.
\<close>

record report_env =
  rp_texts :: texts
  rp_color :: bool
  rp_paint :: "style \<Rightarrow> glyphs \<Rightarrow> glyphs"
  rp_numeric_le :: "string \<Rightarrow> string \<Rightarrow> bool"
  rp_order :: "input_source list \<Rightarrow> input_source list"
  rp_duration :: "nat \<Rightarrow> string"

section \<open>One response\<close>

fun status_color :: "status \<Rightarrow> style" where
  "status_color (StOk _) = GREEN"
| "status_color (StCached (CacheOk _)) = GREEN"
| "status_color StExcluded = DIM"
| "status_color (StUnsupported _) = DIM"
| "status_color (StCached CacheExcluded) = DIM"
| "status_color (StCached CacheUnsupported) = DIM"
| "status_color (StUnknownStatusCode _) = YELLOW"
| "status_color (StUnknownMailStatus _) = YELLOW"
| "status_color (StTimeout _) = YELLOW"
| "status_color (StError _) = PINK"
| "status_color (StRequestError _) = PINK"
| "status_color (StCached (CacheError _)) = PINK"

definition MAX_RESPONSE_OUTPUT_WIDTH :: nat where "MAX_RESPONSE_OUTPUT_WIDTH = 8"

definition format_status :: "status \<Rightarrow> string" where
  "format_status status =
     (let text = code_as_string status; padding = MAX_RESPONSE_OUTPUT_WIDTH - (length text + 2)
      in replicate padding (CHR '' '') @ ''['' @ text @ '']'')"

fun emoji_for_status :: "status \<Rightarrow> symbol" where
  "emoji_for_status (StOk _) = CheckMark"
| "emoji_for_status (StCached (CacheOk _)) = CheckMark"
| "emoji_for_status StExcluded = Ghost"
| "emoji_for_status (StUnsupported _) = NoEntry"
| "emoji_for_status (StCached CacheExcluded) = NoEntry"
| "emoji_for_status (StCached CacheUnsupported) = NoEntry"
| "emoji_for_status (StUnknownStatusCode _) = Warning"
| "emoji_for_status (StUnknownMailStatus _) = Warning"
| "emoji_for_status (StTimeout _) = Warning"
| "emoji_for_status (StError _) = Cross"
| "emoji_for_status (StRequestError _) = Cross"
| "emoji_for_status (StCached (CacheError _)) = Cross"

datatype response_formatter = PlainFormatter | ColorFormatter | EmojiFormatter | TaskFormatter

fun format_response :: "report_env \<Rightarrow> response_formatter \<Rightarrow> response_body \<Rightarrow> glyphs" where
  "format_response re PlainFormatter body =
     glyphs_of (''['' @ code_as_string (rb_status body) @ ''] '' @ body_show (rp_texts re) body)"
| "format_response re ColorFormatter body =
     rp_paint re (status_color (rb_status body)) (glyphs_of (format_status (rb_status body))) @
     glyphs_of ('' '' @ body_show (rp_texts re) body)"
| "format_response re EmojiFormatter body =
     Symbol (emoji_for_status (rb_status body)) # glyphs_of ('' '' @ body_show (rp_texts re) body)"
| "format_response re TaskFormatter body =
     glyphs_of (''- [ ] ['' @ code_as_string (rb_status body) @ ''] '' @ body_show (rp_texts re) body)"

definition get_response_formatter :: "report_env \<Rightarrow> output_mode \<Rightarrow> response_formatter" where
  "get_response_formatter re mode =
     (if \<not> rp_color re then (if mode = TaskMode then TaskFormatter else PlainFormatter)
      else (case mode of
              PlainMode \<Rightarrow> PlainFormatter | ColorMode \<Rightarrow> ColorFormatter | EmojiMode \<Rightarrow> EmojiFormatter
            | TaskMode \<Rightarrow> TaskFormatter))"

definition get_progress_formatter :: "report_env \<Rightarrow> output_mode \<Rightarrow> response_formatter" where
  "get_progress_formatter re mode = get_response_formatter re (if mode = TaskMode then ColorMode else mode)"

text \<open>\<open>Duration\<close> of \<open>duration.rs\<close>.\<close>

definition duration_show :: "u64 \<Rightarrow> string" where
  "duration_show elapsed =
     (let n = unat elapsed; days = n div 86400; hours = n mod 86400 div 3600; minutes = n mod 3600 div 60;
          seconds = n mod 60 in
      if days > 0 then show_nat days @ ''d '' @ show_nat hours @ ''h '' @ show_nat minutes @ ''m '' @ show_nat seconds @ ''s''
      else if hours > 0 then show_nat hours @ ''h '' @ show_nat minutes @ ''m '' @ show_nat seconds @ ''s''
      else if minutes > 0 then show_nat minutes @ ''m '' @ show_nat seconds @ ''s''
      else show_nat seconds @ ''s'')"

section \<open>Sorting\<close>

text \<open>
  \<open>sort\_stats\_iter\<close>: the values of equal keys are joined, then keys and values are sorted by their texts,
  without regard to case first.  A map or a set that is iterated is the list of what the iteration gives.
\<close>

definition cached_key :: "string \<Rightarrow> string \<times> string" where
  "cached_key s = (to_lowercase s, s)"

fun extend_entry :: "'k \<times> 'v list \<Rightarrow> ('k \<times> 'v list) list \<Rightarrow> ('k \<times> 'v list) list" where
  "extend_entry (k, vs) [] = [(k, vs)]"
| "extend_entry (k, vs) ((k', vs') # rest) =
     (if k = k' then (k', vs' @ vs) # rest else (k', vs') # extend_entry (k, vs) rest)"

definition in_order :: "('k list \<Rightarrow> 'k list) \<Rightarrow> ('k \<times> 'v list) list \<Rightarrow> ('k \<times> 'v list) list" where
  "in_order order entries = map (\<lambda>k. (k, the (map_of entries k))) (order (map fst entries))"

definition sort_stats_iter ::
  "('k list \<Rightarrow> 'k list) \<Rightarrow> ('k \<Rightarrow> string) \<Rightarrow> ('v \<Rightarrow> string) \<Rightarrow> ('k \<times> 'v list) list \<Rightarrow> ('k \<times> 'v list) list" where
  "sort_stats_iter order show_k show_v it =
     (let entries = in_order order (fold extend_entry it []);
          entries = sort_key (\<lambda>e. cached_key (show_k (fst e))) entries
      in map (\<lambda>(k, vs). (k, sort_key (\<lambda>v. cached_key (show_v v)) vs)) entries)"

text \<open>\<open>sort\_by\<close> is stable; \<open>le\<close> says that the comparison is not \<open>Greater\<close>.\<close>

definition insort_by :: "('a \<Rightarrow> 'a \<Rightarrow> bool) \<Rightarrow> 'a \<Rightarrow> 'a list \<Rightarrow> 'a list" where
  "insort_by le x xs = takeWhile (\<lambda>y. le y x) xs @ x # dropWhile (\<lambda>y. le y x) xs"

definition sort_by :: "('a \<Rightarrow> 'a \<Rightarrow> bool) \<Rightarrow> 'a list \<Rightarrow> 'a list" where
  "sort_by le xs = foldl (\<lambda>acc x. insort_by le x acc) [] xs"

definition numeric_sorted :: "report_env \<Rightarrow> ('a \<Rightarrow> string) \<Rightarrow> 'a list \<Rightarrow> 'a list" where
  "numeric_sorted re show_v = sort_by (\<lambda>a b. rp_numeric_le re (to_lowercase (show_v a)) (to_lowercase (show_v b)))"

section \<open>The compact report\<close>

definition get_response_line :: "report_env \<Rightarrow> output_mode \<Rightarrow> response_body \<Rightarrow> glyphs" where
  "get_response_line re mode = format_response re (get_response_formatter re mode)"

definition failures :: "report_env \<Rightarrow> (input_source \<times> response_body list) list \<Rightarrow>
  (input_source \<times> response_body list) list \<Rightarrow> (input_source \<times> response_body list) list" where
  "failures re errors timeouts =
     sort_stats_iter (rp_order re) source_show (body_show (rp_texts re)) (errors @ timeouts)"

definition write_responses :: "report_env \<Rightarrow> output_mode \<Rightarrow> response_body list \<Rightarrow> glyphs" where
  "write_responses re mode responses = concat (map (\<lambda>r. get_response_line re mode r @ newline) responses)"

definition write_suggestions :: "report_env \<Rightarrow> response_stats \<Rightarrow> input_source \<Rightarrow> glyphs" where
  "write_suggestions re stats source =
     (case s_suggestion_map stats source of
        None \<Rightarrow> []
      | Some sugs \<Rightarrow> newline @ [Symbol Information] @ glyphs_of '' Suggestions'' @ newline @
          concat (map (\<lambda>s. glyphs_of (suggestion_show s) @ newline)
            (numeric_sorted re suggestion_show sugs)))"

definition write_if_any :: "report_env \<Rightarrow> nat \<Rightarrow> symbol \<Rightarrow> string \<Rightarrow> style \<Rightarrow> glyphs" where
  "write_if_any re n icon text st =
     (if n > 0 then rp_paint re st (glyphs_of '' '' @ [Symbol icon] @ glyphs_of ('' '' @ show_nat n @ '' '' @ text)) else [])"

definition issues_line :: "report_env \<Rightarrow> nat \<Rightarrow> glyphs" where
  "issues_line re issues =
     (if issues > 0
      then let input = (if issues = 1 then ''input'' else ''inputs'') in
        rp_paint re BOLD_PINK (glyphs_of (''Issues found in '' @ show_nat issues @ '' '' @ input @ ''. Find details below.'') @
          newline @ newline)
      else [])"

definition compact_block ::
  "report_env \<Rightarrow> output_mode \<Rightarrow> response_stats \<Rightarrow> input_source \<times> response_body list \<Rightarrow> glyphs" where
  "compact_block re mode stats entry =
     (let (source, responses) = entry in
      rp_paint re BOLD_YELLOW (glyphs_of (''['' @ source_show source @ '']:'') @ newline) @
      write_responses re mode responses @ write_suggestions re stats source @ newline)"

definition compact_totals :: "report_env \<Rightarrow> response_stats \<Rightarrow> glyphs" where
  "compact_totals re stats =
     rp_paint re NORMAL (Symbol Magnifier # glyphs_of ('' '' @ show_nat (s_total stats) @ '' Total'')) @
     rp_paint re DIM (glyphs_of ('' (in '' @ rp_duration re (s_duration stats) @ '')'')) @
     rp_paint re NORMAL (glyphs_of '' '' @ Symbol Chain_Links # glyphs_of ('' '' @ show_nat (s_unique stats) @ '' Unique'')) @
     rp_paint re BOLD_GREEN (glyphs_of '' '' @ Symbol CheckMark # glyphs_of ('' '' @ show_nat (s_successful stats) @ '' OK'')) @
     (let err_str = (if s_errors stats = 1 then ''Error'' else ''Errors'') in
      rp_paint re BOLD_PINK (glyphs_of '' '' @ Symbol Stop # glyphs_of ('' '' @ show_nat (s_errors stats) @ '' '' @ err_str))) @
     write_if_any re (s_unknown stats) Question ''Unknown'' BOLD_PINK @
     write_if_any re (s_excludes stats) Ghost ''Excluded'' BOLD_YELLOW @
     write_if_any re (s_timeouts stats) Hourglass ''Timeouts'' BOLD_YELLOW @
     write_if_any re (s_unsupported stats) NoEntry ''Unsupported'' BOLD_YELLOW @
     write_if_any re (s_redirects stats) Shuffle ''Redirects'' BOLD_YELLOW"

text \<open>\<open>errors\<close> and \<open>timeouts\<close> are what the iteration of the two maps of the statistics gives.\<close>

definition compact_response_stats ::
  "report_env \<Rightarrow> output_mode \<Rightarrow> response_stats \<Rightarrow> (input_source \<times> response_body list) list \<Rightarrow>
   (input_source \<times> response_body list) list \<Rightarrow> glyphs" where
  "compact_response_stats re mode stats errors timeouts =
     issues_line re (length (errors @ timeouts)) @
     concat (map (compact_block re mode stats) (failures re errors timeouts)) @
     compact_totals re stats"

section \<open>The detailed report\<close>

definition WIDTH :: nat where "WIDTH = 20"

definition write_stat :: "glyphs \<Rightarrow> nat \<Rightarrow> bool \<Rightarrow> glyphs" where
  "write_stat title stat nl =
     (let spacing = WIDTH - length title; digits = show_nat stat in
      title @ glyphs_of (replicate (spacing - length digits) (CHR ''.'') @ digits) @ (if nl then newline else []))"

definition stat_title :: "symbol \<Rightarrow> string \<Rightarrow> glyphs" where
  "stat_title icon text = Symbol icon # glyphs_of ('' '' @ text)"

definition write_stats :: "report_env \<Rightarrow> string \<Rightarrow> input_source \<Rightarrow> ('a \<Rightarrow> string) \<Rightarrow> 'a list option \<Rightarrow> glyphs" where
  "write_stats re title source show_v items =
     (case items of
        None \<Rightarrow> []
      | Some items \<Rightarrow> newline @ newline @ glyphs_of (title @ '' in '' @ source_show source) @ newline @
          concat (map (\<lambda>i. glyphs_of (show_v i) @ newline) (numeric_sorted re show_v items)))"

definition detailed_block ::
  "report_env \<Rightarrow> output_mode \<Rightarrow> response_stats \<Rightarrow> input_source \<times> response_body list \<Rightarrow> glyphs" where
  "detailed_block re mode stats entry =
     (let (source, responses) = entry in
      newline @ newline @ glyphs_of (''Errors in '' @ source_show source) @
      concat (map (\<lambda>r. newline @ get_response_line re mode r) responses) @
      write_stats re ''Suggestions'' source suggestion_show (s_suggestion_map stats source) @
      write_stats re ''Redirects'' source redirects_show (s_redirect_map stats source))"

definition detailed_summary :: "response_stats \<Rightarrow> glyphs" where
  "detailed_summary stats =
     stat_title Memo ''Summary'' @ newline @ glyphs_of (replicate (WIDTH + 1) (CHR ''-'')) @ newline @
     write_stat (stat_title Magnifier ''Total'') (s_total stats) True @
     write_stat (stat_title Chain_Links ''Unique'') (s_unique stats) True @
     write_stat (stat_title CheckMark ''Successful'') (s_successful stats) True @
     write_stat (stat_title Hourglass ''Timeouts'') (s_timeouts stats) True @
     write_stat (stat_title Shuffle ''Redirected'') (s_redirects stats) True @
     write_stat (stat_title Ghost ''Excluded'') (s_excludes stats) True @
     write_stat (stat_title Question ''Unknown'') (s_unknown stats) True @
     write_stat (stat_title Stop ''Errors'') (s_errors stats) True @
     write_stat (stat_title NoEntry ''Unsupported'') (s_errors stats) False"

definition detailed_response_stats ::
  "report_env \<Rightarrow> output_mode \<Rightarrow> response_stats \<Rightarrow> (input_source \<times> response_body list) list \<Rightarrow>
   (input_source \<times> response_body list) list \<Rightarrow> glyphs" where
  "detailed_response_stats re mode stats errors timeouts =
     detailed_summary stats @ concat (map (detailed_block re mode stats) (failures re errors timeouts))"

section \<open>The Markdown report\<close>

text \<open>The rows of the table; the tabled crate lays them out.\<close>

definition stats_table :: "response_stats \<Rightarrow> (glyphs \<times> nat) list" where
  "stats_table stats =
     [(stat_title Magnifier ''Total'', s_total stats),
      (stat_title Chain_Links ''Unique'', s_unique stats),
      (stat_title CheckMark ''Successful'', s_successful stats),
      (stat_title Hourglass ''Timeouts'', s_timeouts stats),
      (stat_title Shuffle ''Redirected'', s_redirects stats),
      (stat_title Ghost ''Excluded'', s_excludes stats),
      (stat_title Question ''Unknown'', s_unknown stats),
      (stat_title Stop ''Errors'', s_errors stats),
      (stat_title NoEntry ''Unsupported'', s_unsupported stats)]"

definition markdown_response :: "texts \<Rightarrow> response_body \<Rightarrow> string" where
  "markdown_response tx body =
     (let formatted = ''* ['' @ code_as_string (rb_status body) @ ''] <'' @ url_str (rb_uri body) @ ''>'';
          formatted = formatted @ span_suffix (rb_span body)
      in if rb_status body = StOk 200 then formatted
         else formatted @ '' | '' @ status_details tx (rb_status body))"

definition write_stats_per_input ::
  "report_env \<Rightarrow> string \<Rightarrow> ('a \<Rightarrow> string) \<Rightarrow> ('a \<Rightarrow> string) \<Rightarrow> (input_source \<times> 'a list) list \<Rightarrow> glyphs" where
  "write_stats_per_input re name show_v write entries =
     (if entries = [] then []
      else newline @ glyphs_of (''## '' @ name @ '' per input'') @ newline @
        concat (map (\<lambda>(source, items). newline @ glyphs_of (''### '' @ name @ '' in '' @ source_show source) @ newline @ newline @
            concat (map (\<lambda>i. glyphs_of (write i) @ newline) items))
          (sort_stats_iter (rp_order re) source_show show_v entries)))"

definition markdown_response_stats ::
  "report_env \<Rightarrow> ((glyphs \<times> nat) list \<Rightarrow> glyphs) \<Rightarrow> response_stats \<Rightarrow> (input_source \<times> response_body list) list \<Rightarrow>
   (input_source \<times> response_body list) list \<Rightarrow> (input_source \<times> redirects list) list \<Rightarrow>
   (input_source \<times> suggestion list) list \<Rightarrow> glyphs" where
  "markdown_response_stats re table stats errors timeouts redirs sugs =
     (let tx = rp_texts re in
      glyphs_of ''# Summary'' @ newline @ newline @ table (stats_table stats) @ newline @
      write_stats_per_input re ''Errors'' (body_show tx) (markdown_response tx) errors @
      write_stats_per_input re ''Timeouts'' (body_show tx) (markdown_response tx) timeouts @
      write_stats_per_input re ''Redirects'' redirects_show (\<lambda>r. ''* '' @ redirects_show r) redirs @
      write_stats_per_input re ''Suggestions'' suggestion_show (\<lambda>s. ''* '' @ suggestion_show s) sugs)"

section \<open>The JUnit report\<close>

datatype case_status = FailureCase string | SkippedCase string | SuccessCase

record test_case =
  tc_name :: string
  tc_status :: case_status
  tc_time :: "nat option"
  tc_file :: string
  tc_line :: "nat option"
  tc_system_out :: string

text \<open>A message has no effect on a successful case.\<close>

fun set_message :: "string \<Rightarrow> case_status \<Rightarrow> case_status" where
  "set_message msg (FailureCase _) = FailureCase msg"
| "set_message msg (SkippedCase _) = SkippedCase msg"
| "set_message msg SuccessCase = SuccessCase"

definition junit_testcases_group ::
  "texts \<Rightarrow> (input_source \<times> response_body list) list \<Rightarrow> case_status \<Rightarrow> string \<Rightarrow> test_case list" where
  "junit_testcases_group tx entries status reason =
     concat (map (\<lambda>(source, bodies). map (\<lambda>response.
         \<lparr>tc_name = reason @ '' '' @ url_str (rb_uri response), tc_status = set_message (body_show tx response) status,
          tc_time = rb_duration response, tc_file = source_show source, tc_line = map_option span_line (rb_span response),
          tc_system_out = body_show tx response\<rparr>) bodies) entries)"

definition junit_testcases ::
  "texts \<Rightarrow> (input_source \<times> response_body list) list \<Rightarrow> (input_source \<times> response_body list) list \<Rightarrow>
   (input_source \<times> response_body list) list \<Rightarrow> test_case list" where
  "junit_testcases tx errors excluded successes =
     junit_testcases_group tx errors (FailureCase []) ''Failed'' @
     junit_testcases_group tx excluded (SkippedCase []) ''Excluded'' @
     junit_testcases_group tx successes SuccessCase ''Successful''"

section \<open>What is iterated\<close>

text \<open>What iterating the maps of the statistics gives.\<close>

record iterations =
  it_errors :: "(input_source \<times> response_body list) list"
  it_timeouts :: "(input_source \<times> response_body list) list"
  it_excluded :: "(input_source \<times> response_body list) list"
  it_successes :: "(input_source \<times> response_body list) list"
  it_redirects :: "(input_source \<times> redirects list) list"
  it_suggestions :: "(input_source \<times> suggestion list) list"

section \<open>Progress\<close>

text \<open>A bar has a length, a position and a message; its drawing is indicatif's.\<close>

record bar =
  bar_length :: u64
  bar_position :: u64
  bar_message :: glyphs

record progress =
  pr_bar :: "bar option"
  pr_level :: log_level
  pr_formatter :: response_formatter

definition progress_new :: "report_env \<Rightarrow> string \<Rightarrow> bool \<Rightarrow> log_level \<Rightarrow> output_mode \<Rightarrow> progress" where
  "progress_new re message hide_bar level mode =
     (let detailed = level_value LevelInfo \<le> level_value level in
      \<lparr>pr_bar = (if hide_bar \<or> detailed then None
        else Some \<lparr>bar_length = 0, bar_position = 0, bar_message = glyphs_of message\<rparr>),
       pr_level = level, pr_formatter = get_progress_formatter re mode\<rparr>)"

text \<open>What \<open>update\<close> prints to the standard error, and the bar after it.\<close>

definition print_progress :: "progress \<Rightarrow> (response_body \<times> glyphs) option \<Rightarrow> glyphs list" where
  "print_progress p message =
     (if level_value (pr_level p) < level_value LevelInfo then []
      else (case message of
              None \<Rightarrow> []
            | Some (response, message) \<Rightarrow>
                let should_show_success = level_value LevelInfo < level_value (pr_level p) in
                if \<not> is_success (rb_status response) \<or> should_show_success then [message] else []))"

definition progress_update :: "report_env \<Rightarrow> progress \<Rightarrow> response_body option \<Rightarrow> glyphs list \<times> progress" where
  "progress_update re p response =
     (let message = map_option (\<lambda>r. (r, format_response re (pr_formatter p) r)) response in
      (print_progress p message,
       p\<lparr>pr_bar := map_option (\<lambda>b. b\<lparr>bar_position := bar_position b + 1,
          bar_message := (case message of Some (_, m) \<Rightarrow> m | None \<Rightarrow> bar_message b)\<rparr>) (pr_bar p)\<rparr>))"

definition set_length :: "u64 \<Rightarrow> progress \<Rightarrow> progress" where
  "set_length n p = p\<lparr>pr_bar := map_option (\<lambda>b. b\<lparr>bar_length := n\<rparr>) (pr_bar p)\<rparr>"

definition inc_length :: "u64 \<Rightarrow> progress \<Rightarrow> progress" where
  "inc_length n p = p\<lparr>pr_bar := map_option (\<lambda>b. b\<lparr>bar_length := bar_length b + n\<rparr>) (pr_bar p)\<rparr>"

text \<open>At \<open>info\<close> exactly the responses that are no success are printed, above it all, below it none.\<close>

lemma progress_prints:
  "fst (progress_update re p (Some r)) =
     (if level_value (pr_level p) > 2 \<or> level_value (pr_level p) = 2 \<and> \<not> is_success (rb_status r)
      then [format_response re (pr_formatter p) r] else [])"
  by (cases "pr_level p") (simp_all add: progress_update_def print_progress_def)

section \<open>Warnings after a check\<close>

definition github_warning :: "response_stats \<Rightarrow> bool \<Rightarrow> bool" where
  "github_warning stats token \<longleftrightarrow>
     (\<exists>bodies \<in> ran (s_error_map stats). \<exists>body \<in> set bodies. url_host (rb_uri body) = Some (HostDomain ''github.com'')) \<and> \<not> token"

definition redirect_warning :: "response_stats \<Rightarrow> log_level \<Rightarrow> string option" where
  "redirect_warning stats level =
     (let redirs = s_redirects stats in
      if redirs > 0 \<and> level_value level < level_value LevelInfo
      then let noun = (if redirs = 1 then ''redirect'' else ''redirects'') in
        Some (''lychee detected '' @ show_nat redirs @ '' '' @ noun @
          ''. You might want to consider replacing redirecting URLs with the resolved URLs. '' @
          ''Run lychee in verbose mode (-v/--verbose) to see details about the redirections.'')
      else None)"

section \<open>Lines of the log\<close>

fun level_show :: "log_level \<Rightarrow> string" where
  "level_show LevelError = ''ERROR''"
| "level_show LevelWarn = ''WARN''"
| "level_show LevelInfo = ''INFO''"
| "level_show LevelDebug = ''DEBUG''"
| "level_show LevelTrace = ''TRACE''"

text \<open>The filters are these levels and \<open>OFF\<close>.\<close>

definition max_level_text_width :: nat where
  "max_level_text_width = Max (set (map (\<lambda>s. length s + 2)
     (''OFF'' # map level_show [LevelError, LevelWarn, LevelInfo, LevelDebug, LevelTrace])))"

definition log_line :: "report_env \<Rightarrow> output_mode \<Rightarrow> log_level \<Rightarrow> string \<Rightarrow> glyphs" where
  "log_line re mode level args =
     (let text = level_show level in
      if is_plain mode then glyphs_of (''['' @ text @ ''] '' @ args) @ newline
      else if is_emoji mode
      then rp_paint re (color_for_level level) (glyphs_of (''['' @ text @ '']'')) @ glyphs_of ('' '' @ args) @ newline
      else
        let padding = MAX_RESPONSE_OUTPUT_WIDTH - max_level_text_width;
            level_padding = max_level_text_width - (length text + 2);
            prefix = replicate level_padding (CHR '' '') @ ''['' @ text @ '']'' in
        glyphs_of (replicate padding (CHR '' '')) @ rp_paint re (color_for_level level) (glyphs_of prefix) @
        glyphs_of ('' '' @ args) @ newline)"



section \<open>What is sorted\<close>

definition values_of :: "'k \<Rightarrow> ('k \<times> 'v list) list \<Rightarrow> 'v list" where
  "values_of k entries = concat (map snd (filter (\<lambda>e. fst e = k) entries))"

lemma values_of_simps [simp]:
  "values_of k [] = []" "values_of k ((k', vs) # es) = (if k' = k then vs @ values_of k es else values_of k es)"
  "values_of k (xs @ ys) = values_of k xs @ values_of k ys"
  by (simp_all add: values_of_def)

lemma values_of_absent: "k \<notin> fst ` set es \<Longrightarrow> values_of k es = []"
  by (induction es) auto

lemma values_of_distinct: "distinct (map fst es) \<Longrightarrow> (k, vs) \<in> set es \<Longrightarrow> values_of k es = vs"
  by (induction es) (force simp: values_of_absent)+

lemma values_extend: "mset (values_of k (extend_entry (k', vs) acc)) = mset (values_of k acc) + (if k' = k then mset vs else {#})"
  by (induction "(k', vs)" acc rule: extend_entry.induct) auto

lemma keys_extend:
  "set (map fst (extend_entry (k, vs) acc)) = insert k (set (map fst acc))"
  "distinct (map fst acc) \<Longrightarrow> distinct (map fst (extend_entry (k, vs) acc))"
proof -
  show keys: "set (map fst (extend_entry (k, vs) acc)) = insert k (set (map fst acc))" for acc :: "('a \<times> 'b list) list"
    by (induction "(k, vs)" acc rule: extend_entry.induct) auto
  show "distinct (map fst acc) \<Longrightarrow> distinct (map fst (extend_entry (k, vs) acc))"
  proof (induction "(k, vs)" acc rule: extend_entry.induct)
    case (2 k' vs' rest)
    with keys [of rest] show ?case by auto
  qed simp
qed

lemma fold_extend:
  "mset (values_of k (fold extend_entry it acc)) = mset (values_of k acc) + mset (values_of k it)"
  "set (map fst (fold extend_entry it acc)) = set (map fst acc) \<union> set (map fst it)"
  "distinct (map fst acc) \<Longrightarrow> distinct (map fst (fold extend_entry it acc))"
proof (induction it arbitrary: acc)
  case (Cons e it)
  obtain k' vs where e: "e = (k', vs)" by (cases e)
  { case 1 show ?case using Cons.IH(1) by (simp add: e values_extend) }
  { case 2 show ?case using Cons.IH(2) keys_extend(1) [of k' vs acc] by (auto simp: e) }
  { case 3 show ?case unfolding e fold.simps comp_apply by (rule Cons.IH(3), rule keys_extend(2), rule 3) }
qed simp_all

lemma in_order_perm:
  assumes "mset (order (map fst es)) = mset (map fst es)" and "distinct (map fst es)"
  shows "mset (in_order order es) = mset es"
proof -
  have "mset (in_order order es) = image_mset (\<lambda>k. (k, the (map_of es k))) (mset (order (map fst es)))"
    by (simp add: in_order_def)
  also have "\<dots> = image_mset (\<lambda>k. (k, the (map_of es k))) (mset (map fst es))" by (simp only: assms(1))
  also have "\<dots> = image_mset id (mset es)"
    unfolding mset_map image_mset.compositionality
    by (rule image_mset_cong) (use assms(2) in auto)
  finally show ?thesis by simp
qed

definition permutes :: "('k list \<Rightarrow> 'k list) \<Rightarrow> bool" where
  "permutes order \<longleftrightarrow> (\<forall>ks. mset (order ks) = mset ks)"

lemma sort_stats_iter_keys:
  assumes "permutes order"
  shows "distinct (map fst (sort_stats_iter order sk sv it))"
    and "fst ` set (sort_stats_iter order sk sv it) = fst ` set it"
    and "sorted (map (\<lambda>e. cached_key (sk (fst e))) (sort_stats_iter order sk sv it))"
    and "(k, vs) \<in> set (sort_stats_iter order sk sv it) \<Longrightarrow> mset vs = mset (values_of k it)"
    and "(k, vs) \<in> set (sort_stats_iter order sk sv it) \<Longrightarrow> sorted (map (\<lambda>v. cached_key (sv v)) vs)"
proof -
  define es where "es = fold extend_entry it []"
  have es: "distinct (map fst es)" "fst ` set es = fst ` set it"
    using fold_extend(2) [of it "[]"] fold_extend(3) [of "[]" it] by (simp_all add: es_def)
  define sorted_es where "sorted_es = sort_key (\<lambda>e. cached_key (sk (fst e))) (in_order order es)"
  have perm: "mset sorted_es = mset es"
    using in_order_perm [of order es] assms es(1) by (simp add: sorted_es_def permutes_def)
  have R: "sort_stats_iter order sk sv it = map (\<lambda>(k, vs). (k, sort_key (\<lambda>v. cached_key (sv v)) vs)) sorted_es"
    by (simp add: sort_stats_iter_def es_def sorted_es_def Let_def)
  have keys: "map fst (sort_stats_iter order sk sv it) = map fst sorted_es"
    by (simp add: R case_prod_beta comp_def)
  have "mset (map fst sorted_es) = mset (map fst es)" by (simp add: perm)
  then show "distinct (map fst (sort_stats_iter order sk sv it))"
    using es(1) unfolding keys by (metis mset_eq_imp_distinct_iff)
  from arg_cong [OF keys, of set] mset_eq_setD [OF perm] es(2)
  show "fst ` set (sort_stats_iter order sk sv it) = fst ` set it" by simp
  have "sorted (map (\<lambda>e. cached_key (sk (fst e))) sorted_es)" by (simp add: sorted_es_def)
  then show "sorted (map (\<lambda>e. cached_key (sk (fst e))) (sort_stats_iter order sk sv it))"
    by (simp add: R case_prod_beta comp_def)
  show "mset vs = mset (values_of k it)" "sorted (map (\<lambda>v. cached_key (sv v)) vs)"
    if "(k, vs) \<in> set (sort_stats_iter order sk sv it)"
  proof -
    from that obtain vs' where vs: "(k, vs') \<in> set sorted_es" "vs = sort_key (\<lambda>v. cached_key (sv v)) vs'" by (auto simp: R)
    then have "(k, vs') \<in> set es" using mset_eq_setD [OF perm] by simp
    from values_of_distinct [OF es(1) this] fold_extend(1) [of k it "[]"] vs(2)
    show "mset vs = mset (values_of k it)" by (simp add: es_def)
    show "sorted (map (\<lambda>v. cached_key (sv v)) vs)" by (simp add: vs(2))
  qed
qed

lemma cached_key_inject [simp]: "cached_key a = cached_key b \<longleftrightarrow> a = b"
  by (auto simp: cached_key_def)

lemma sorted_by_text_unique:
  assumes "mset xs = mset ys" "inj_on f (set xs)"
    and "sorted (map (\<lambda>x. cached_key (f x)) xs)" "sorted (map (\<lambda>x. cached_key (f x)) ys)"
  shows "xs = ys"
proof -
  have "map (\<lambda>x. cached_key (f x)) xs = map (\<lambda>x. cached_key (f x)) ys"
  proof -
    have "mset (map (\<lambda>x. cached_key (f x)) xs) = mset (map (\<lambda>x. cached_key (f x)) ys)" using assms(1) by simp
    with assms(3,4) show ?thesis by (metis properties_for_sort)
  qed
  from arg_cong [OF this, of "map snd"] have "map f xs = map f ys" by (simp add: cached_key_def comp_def)
  with assms(1,2) show ?thesis by (metis inj_on_map_eq_map mset_eq_setD sup.idem)
qed

text \<open>The sorted entries depend on what is iterated only, not on the order.\<close>

lemma sort_stats_iter_unique:
  assumes "permutes order" "permutes order'"
    and "fst ` set it = fst ` set it'" "\<And>k. mset (values_of k it) = mset (values_of k it')"
    and "inj_on sk (fst ` set it)" "\<And>k. inj_on sv (set (values_of k it))"
  shows "sort_stats_iter order sk sv it = sort_stats_iter order' sk sv it'"
proof -
  let ?R = "sort_stats_iter order sk sv it" and ?R' = "sort_stats_iter order' sk sv it'"
  note R = sort_stats_iter_keys [OF assms(1), where sk = sk and sv = sv and it = it]
    and R' = sort_stats_iter_keys [OF assms(2), where sk = sk and sv = sv and it = it']
  have keys: "map fst ?R = map fst ?R'"
  proof (rule sorted_by_text_unique [of _ _ sk])
    show "mset (map fst ?R) = mset (map fst ?R')" using R(1,2) R'(1,2) assms(3) by (metis set_eq_iff_mset_eq_distinct list.set_map)
    show "inj_on sk (set (map fst ?R))" using R(2) assms(5) by simp
  qed (use R(3) R'(3) in \<open>simp_all add: comp_def\<close>)
  have vals: "vs = vs'" if "(k, vs) \<in> set ?R" "(k, vs') \<in> set ?R'" for k vs vs'
    using sorted_by_text_unique [of vs vs' sv] R(4,5) [OF that(1)] R'(4,5) [OF that(2)] assms(4,6) [of k]
    by (metis mset_eq_setD)
  show ?thesis
  proof (rule nth_equalityI)
    show len: "length ?R = length ?R'" using arg_cong [OF keys, of length] by simp
    fix i assume "i < length ?R"
    with len have "fst (?R ! i) = fst (?R' ! i)" using arg_cong [OF keys, of "\<lambda>xs. xs ! i"] by simp
    moreover have "?R ! i \<in> set ?R" "?R' ! i \<in> set ?R'" using \<open>i < length ?R\<close> len by simp_all
    ultimately show "?R ! i = ?R' ! i" using vals by (metis prod.collapse)
  qed
qed

section \<open>Properties\<close>

definition enumerates :: "('k \<rightharpoonup> 'v list) \<Rightarrow> ('k \<times> 'v list) list \<Rightarrow> bool" where
  "enumerates m it \<longleftrightarrow> distinct (map fst it) \<and> fst ` set it = dom m \<and>
     (\<forall>(k, vs) \<in> set it. mset vs = mset (the (m k)))"

definition kept :: "('k \<rightharpoonup> 'v list) \<Rightarrow> 'k \<Rightarrow> 'v multiset" where
  "kept m k = (case m k of Some vs \<Rightarrow> mset vs | None \<Rightarrow> {#})"

lemma enumerates_values: "enumerates m it \<Longrightarrow> mset (values_of k it) = kept m k"
proof (cases "k \<in> dom m")
  case True
  assume m: "enumerates m it"
  with True obtain vs where vs: "(k, vs) \<in> set it" by (force simp: enumerates_def)
  with m values_of_distinct [of it k vs] True show ?thesis by (auto simp: enumerates_def kept_def)
next
  case False
  assume "enumerates m it"
  with False values_of_absent [of k it] show ?thesis by (auto simp: enumerates_def kept_def split: option.split)
qed

lemma failures_spec:
  assumes "permutes (rp_order re)" "enumerates e errors" "enumerates t timeouts"
  shows "distinct (map fst (failures re errors timeouts))"
    and "fst ` set (failures re errors timeouts) = dom e \<union> dom t"
    and "(k, vs) \<in> set (failures re errors timeouts) \<Longrightarrow> mset vs = kept e k + kept t k"
proof -
  note keys = sort_stats_iter_keys [OF assms(1), where sk = source_show and sv = "body_show (rp_texts re)"
      and it = "errors @ timeouts", folded failures_def]
  show "distinct (map fst (failures re errors timeouts))" by (rule keys(1))
  show "fst ` set (failures re errors timeouts) = dom e \<union> dom t"
    using keys(2) assms(2,3) by (simp add: enumerates_def image_Un)
  show "mset vs = kept e k + kept t k" if "(k, vs) \<in> set (failures re errors timeouts)"
    using keys(4) [OF that] enumerates_values [OF assms(2), of k] enumerates_values [OF assms(3), of k] by simp
qed

text \<open>C33: The compact and the detailed report have one block for every input with a failed or timed out link
  and no other, and a block has one line for each such response of the input, whatever the order in which
  the hash maps are iterated: no failure of a run is left out or printed twice.
\<close>

theorem report_lists_each_failure_once:
  assumes "permutes (rp_order re)"
    and "enumerates (s_error_map stats) errors" and "enumerates (s_timeout_map stats) timeouts"
  shows "\<exists>blocks. distinct (map fst blocks) \<and> fst ` set blocks = dom (s_error_map stats) \<union> dom (s_timeout_map stats) \<and>
    (\<forall>(source, responses) \<in> set blocks. mset responses = kept (s_error_map stats) source + kept (s_timeout_map stats) source) \<and>
    compact_response_stats re mode stats errors timeouts =
      issues_line re (length errors + length timeouts) @ concat (map (compact_block re mode stats) blocks) @ compact_totals re stats \<and>
    detailed_response_stats re mode stats errors timeouts =
      detailed_summary stats @ concat (map (detailed_block re mode stats) blocks)"
  using failures_spec [OF assms]
  by (intro exI [of _ "failures re errors timeouts"])
    (simp add: compact_response_stats_def detailed_response_stats_def case_prod_beta)

text \<open>The number of inputs in the first line of the compact report counts an input with both failed and
  timed out links twice: it is the number of blocks below it plus that of such inputs.
\<close>

theorem issues_line_counts_inputs_twice:
  assumes "permutes (rp_order re)"
    and "enumerates (s_error_map stats) errors" and "enumerates (s_timeout_map stats) timeouts"
  shows "\<exists>blocks. length blocks = card (dom (s_error_map stats) \<union> dom (s_timeout_map stats)) \<and>
    compact_response_stats re mode stats errors timeouts =
      issues_line re (length blocks + card (dom (s_error_map stats) \<inter> dom (s_timeout_map stats))) @
      concat (map (compact_block re mode stats) blocks) @ compact_totals re stats"
proof -
  let ?F = "failures re errors timeouts" and ?e = "dom (s_error_map stats)" and ?t = "dom (s_timeout_map stats)"
  have card: "length it = card (dom m)" if "enumerates m it" for m :: "input_source \<rightharpoonup> response_body list" and it
    using that distinct_card [of "map fst it"] by (simp add: enumerates_def)
  have fin: "finite ?e" "finite ?t" using assms(2,3) by (auto simp: enumerates_def dest: sym)
  have "length ?F = card (?e \<union> ?t)"
    using failures_spec(1,2) [OF assms] distinct_card [of "map fst ?F"] by simp
  moreover from this have "length (errors @ timeouts) = length ?F + card (?e \<inter> ?t)"
    using card [OF assms(2)] card [OF assms(3)] card_Un_Int [OF fin] by simp
  ultimately show ?thesis
    by (intro exI [of _ ?F]) (simp add: compact_response_stats_def)
qed

lemma order_ignored:
  "compact_block (re\<lparr>rp_order := order\<rparr>) mode = compact_block re mode"
  "compact_totals (re\<lparr>rp_order := order\<rparr>) = compact_totals re"
  "issues_line (re\<lparr>rp_order := order\<rparr>) = issues_line re"
  "detailed_block (re\<lparr>rp_order := order\<rparr>) mode = detailed_block re mode"
proof -
  have line: "get_response_line (re\<lparr>rp_order := order\<rparr>) mode body = get_response_line re mode body" for body
    by (cases "get_response_formatter re mode") (simp_all add: get_response_line_def get_response_formatter_def)
  have sorted: "numeric_sorted (re\<lparr>rp_order := order\<rparr>) suggestion_show = numeric_sorted re suggestion_show"
    "numeric_sorted (re\<lparr>rp_order := order\<rparr>) redirects_show = numeric_sorted re redirects_show"
    by (simp_all add: numeric_sorted_def fun_eq_iff)
  show "compact_block (re\<lparr>rp_order := order\<rparr>) mode = compact_block re mode"
    by (simp add: fun_eq_iff compact_block_def write_responses_def write_suggestions_def line sorted split: option.split)
  show "compact_totals (re\<lparr>rp_order := order\<rparr>) = compact_totals re"
    by (simp add: fun_eq_iff compact_totals_def write_if_any_def)
  show "issues_line (re\<lparr>rp_order := order\<rparr>) = issues_line re"
    by (simp add: fun_eq_iff issues_line_def)
  show "detailed_block (re\<lparr>rp_order := order\<rparr>) mode = detailed_block re mode"
    by (simp add: fun_eq_iff detailed_block_def write_stats_def line sorted split: option.split)
qed

lemma failures_order:
  assumes "permutes (rp_order re)" "permutes order"
    and "enumerates e errors" "enumerates t timeouts" "enumerates e errors'" "enumerates t timeouts'"
    and "inj_on source_show (dom e \<union> dom t)" "\<And>k. inj_on (body_show (rp_texts re)) (set_mset (kept e k + kept t k))"
  shows "failures (re\<lparr>rp_order := order\<rparr>) errors' timeouts' = failures re errors timeouts"
proof -
  have vals: "mset (values_of k (xs @ ys)) = kept e k + kept t k" if "enumerates e xs" "enumerates t ys" for k xs ys
    using enumerates_values [OF that(1), of k] enumerates_values [OF that(2), of k] by simp
  have keys: "fst ` set (xs @ ys) = dom e \<union> dom t" if "enumerates e xs" "enumerates t ys" for xs ys
    using that by (auto simp: enumerates_def image_Un)
  have "sort_stats_iter (rp_order re) source_show (body_show (rp_texts re)) (errors @ timeouts) =
    sort_stats_iter order source_show (body_show (rp_texts re)) (errors' @ timeouts')"
  proof (rule sort_stats_iter_unique [OF assms(1,2)])
    show "inj_on (body_show (rp_texts re)) (set (values_of k (errors @ timeouts)))" for k
      using assms(8) [of k] by (simp flip: vals [OF assms(3,4)])
  qed (use keys vals assms in auto)
  then show ?thesis by (simp add: failures_def)
qed

text \<open>The compact and the detailed report are the same text for every order in which the hash maps of
  errors and of timeouts, their sets and the map that joins them are iterated, as long as no two inputs and
  no two failures of one input are printed alike.
\<close>

theorem report_text_fixed:
  assumes "permutes (rp_order re)" and "permutes order"
    and "enumerates (s_error_map stats) errors" and "enumerates (s_timeout_map stats) timeouts"
    and "enumerates (s_error_map stats) errors'" and "enumerates (s_timeout_map stats) timeouts'"
    and "inj_on source_show (dom (s_error_map stats) \<union> dom (s_timeout_map stats))"
    and "\<And>source. inj_on (body_show (rp_texts re)) (set_mset (kept (s_error_map stats) source + kept (s_timeout_map stats) source))"
  shows "compact_response_stats (re\<lparr>rp_order := order\<rparr>) mode stats errors' timeouts' =
      compact_response_stats re mode stats errors timeouts \<and>
    detailed_response_stats (re\<lparr>rp_order := order\<rparr>) mode stats errors' timeouts' =
      detailed_response_stats re mode stats errors timeouts"
proof -
  have len: "length it = card (dom m)" if "enumerates m it" for m :: "input_source \<rightharpoonup> response_body list" and it
    using that distinct_card [of "map fst it"] by (simp add: enumerates_def)
  have "length (errors' @ timeouts') = length (errors @ timeouts)"
    using assms(3-6) by (simp add: len)
  with failures_order [OF assms(1-6) assms(7,8)] show ?thesis
    by (simp add: compact_response_stats_def detailed_response_stats_def order_ignored)
qed

text \<open>The detailed report does not depend on the number of unsupported links: the row with this title
  repeats the number of errors, where the Markdown report has the right one.
\<close>

theorem detailed_unsupported_is_errors:
  "detailed_response_stats re mode (stats\<lparr>s_unsupported := n\<rparr>) errors timeouts =
     detailed_response_stats re mode stats errors timeouts \<and>
   (\<exists>rows. detailed_summary stats = rows @ write_stat (stat_title NoEntry ''Unsupported'') (s_errors stats) False) \<and>
   last (stats_table stats) = (stat_title NoEntry ''Unsupported'', s_unsupported stats)"
proof -
  have "detailed_block re mode (stats\<lparr>s_unsupported := n\<rparr>) = detailed_block re mode stats"
    by (simp add: fun_eq_iff detailed_block_def)
  moreover have "\<exists>rows. detailed_summary stats = rows @ write_stat (stat_title NoEntry ''Unsupported'') (s_errors stats) False"
    unfolding detailed_summary_def append_assoc [symmetric] by blast
  ultimately show ?thesis
    by (simp add: detailed_response_stats_def detailed_summary_def stats_table_def)
qed

section \<open>Instances\<close>

text \<open>Two inputs: one with a broken and a slow link, and one with a slow link only.\<close>

definition printing :: report_env where
  "printing = \<lparr>rp_texts = sample_texts, rp_color = False, rp_paint = (\<lambda>_. id), rp_numeric_le = (\<le>), rp_order = rev,
     rp_duration = (\<lambda>n. show_nat n @ ''ms'')\<rparr>"

definition broken_links :: "(input_source \<times> response_body list) list" where
  "broken_links = [(InputString ''a'', [sample_body (StError (RejectedStatusCode 404))])]"

definition slow_links :: "(input_source \<times> response_body list) list" where
  "slow_links = [(InputString ''a'', [sample_body (StTimeout None)]), (Stdin, [sample_body (StTimeout None)])]"

definition printed_stats :: response_stats where
  "printed_stats = stats_default\<lparr>s_error_map := map_of broken_links, s_timeout_map := map_of slow_links,
     s_total := 4, s_errors := 1, s_timeouts := 2, s_unsupported := 1\<rparr>"

lemma printed_stats_maps [simp]:
  "s_error_map printed_stats = map_of broken_links" "s_timeout_map printed_stats = map_of slow_links"
  by (simp_all add: printed_stats_def)

lemma permutes_orders: "permutes rev" "permutes id" "permutes (rp_order printing)"
  by (simp_all add: permutes_def printing_def)

lemma enumerates_map_of: "distinct (map fst es) \<Longrightarrow> mset it = mset es \<Longrightarrow> enumerates (map_of es) it"
proof -
  assume es: "distinct (map fst es)" and "mset it = mset es"
  then have "set it = set es" "distinct (map fst it)" by (metis mset_eq_setD, metis mset_map mset_eq_imp_distinct_iff)
  with es show ?thesis by (auto simp: enumerates_def dom_map_of_conv_image_fst)
qed

lemma printed_links:
  "enumerates (map_of broken_links) broken_links" "enumerates (map_of slow_links) slow_links"
  "enumerates (map_of slow_links) (rev slow_links)"
  by (rule enumerates_map_of; simp add: broken_links_def slow_links_def)+

theorem report_lists_each_failure_once_witness:
  "\<exists>blocks. fst ` set blocks = {InputString ''a'', Stdin} \<and> length blocks = 2 \<and>
     compact_response_stats printing PlainMode printed_stats broken_links slow_links =
       issues_line printing 3 @ concat (map (compact_block printing PlainMode printed_stats) blocks) @ compact_totals printing printed_stats"
proof -
  have doms: "dom (map_of broken_links) \<union> dom (map_of slow_links) = {InputString ''a'', Stdin}"
    by (auto simp: broken_links_def slow_links_def)
  from report_lists_each_failure_once [of printing printed_stats broken_links slow_links PlainMode,
      OF permutes_orders(3)] printed_links(1,2)
  obtain blocks where blocks: "distinct (map fst blocks)" "fst ` set blocks = {InputString ''a'', Stdin}"
    "compact_response_stats printing PlainMode printed_stats broken_links slow_links =
       issues_line printing (length broken_links + length slow_links) @
       concat (map (compact_block printing PlainMode printed_stats) blocks) @ compact_totals printing printed_stats"
    by (auto simp: doms)
  moreover have "length blocks = 2" using distinct_card [OF blocks(1)] blocks(2) by simp
  ultimately show ?thesis by (intro exI [of _ blocks]) (simp add: broken_links_def slow_links_def numeral_3_eq_3)
qed

theorem issues_line_counts_inputs_twice_witness:
  "\<exists>blocks. length blocks = 2 \<and> compact_response_stats printing PlainMode printed_stats broken_links slow_links =
     issues_line printing 3 @ concat (map (compact_block printing PlainMode printed_stats) blocks) @ compact_totals printing printed_stats"
proof -
  have "dom (map_of broken_links) \<union> dom (map_of slow_links) = {InputString ''a'', Stdin}"
    "dom (map_of broken_links) \<inter> dom (map_of slow_links) = {InputString ''a''}"
    by (auto simp: broken_links_def slow_links_def)
  with issues_line_counts_inputs_twice [of printing printed_stats broken_links slow_links PlainMode, OF permutes_orders(3)]
    printed_links(1,2)
  show ?thesis by (auto simp: numeral_2_eq_2 numeral_3_eq_3)
qed

theorem report_text_fixed_witness:
  "compact_response_stats (printing\<lparr>rp_order := id\<rparr>) PlainMode printed_stats broken_links (rev slow_links) =
   compact_response_stats printing PlainMode printed_stats broken_links slow_links"
proof -
  have kept: "set_mset (kept (map_of broken_links) source + kept (map_of slow_links) source) \<subseteq>
      {sample_body (StError (RejectedStatusCode 404)), sample_body (StTimeout None)}" for source
    by (auto simp: kept_def broken_links_def slow_links_def split: if_splits)
  have texts: "body_show sample_texts (sample_body (StError (RejectedStatusCode 404))) \<noteq>
      body_show sample_texts (sample_body (StTimeout None))" by code_simp
  have "inj_on (body_show (rp_texts printing)) (set_mset (kept (s_error_map printed_stats) source + kept (s_timeout_map printed_stats) source))"
    for source
    by (rule inj_on_subset [OF _ kept [of source, folded printed_stats_maps]]) (use texts in \<open>auto simp: printing_def\<close>)
  moreover have "inj_on source_show (dom (s_error_map printed_stats) \<union> dom (s_timeout_map printed_stats))"
    by (auto simp: inj_on_def broken_links_def slow_links_def split: if_splits)
  ultimately show ?thesis
    by (intro conjunct1 [OF report_text_fixed] permutes_orders) (simp_all only: printed_stats_maps printed_links)
qed

end
