(* ===== verification/Cookies.thy ===== *)
theory Cookies
  imports ErrorTexts
begin

text \<open>
  The cookie jar: \<open>lychee-lib/src/types/cookies.rs\<close> and \<open>load\_cookie\_jar\<close> of \<open>lychee-bin/src/main.rs\<close>.  The
  cookie store and the reading of its two file formats are other crates'; the file system and what is
  written to it are the state \<open>'w\<close>.
\<close>

section \<open>Loading and saving\<close>

text \<open>
  Opening a file gives its content, or an I/O error; a store is read from the content in the new format or
  the legacy one.
\<close>

record ('c, 'w) cookie_env =
  ck_open :: "'w \<Rightarrow> path \<Rightarrow> io_error + string"
  ck_create_dir_all :: "path \<Rightarrow> 'w \<Rightarrow> (io_error + unit) \<times> 'w"
  ck_create :: "path \<Rightarrow> 'w \<Rightarrow> (io_error + unit) \<times> 'w"
  ck_load :: "string \<Rightarrow> string + 'c"
  ck_load_legacy :: "string \<Rightarrow> string + 'c"
  ck_save :: "'c \<Rightarrow> path \<Rightarrow> 'w \<Rightarrow> (string + unit) \<times> 'w"
  ck_default :: 'c

text \<open>The store is behind a lock, which is the error of locking it once a thread has panicked with it.\<close>

record 'c cookie_jar =
  cj_path :: path
  cj_inner :: "string + 'c"

text \<open>An I/O error becomes an \<open>ErrorKind\<close> by the only \<open>From\<close> there is, that of the standard input.\<close>

definition cookie_jar_load :: "('c, 'w) cookie_env \<Rightarrow> 'w \<Rightarrow> path \<Rightarrow> error_kind + 'c cookie_jar" where
  "cookie_jar_load ck w path =
     (case ck_open ck w path of
        Inr reader \<Rightarrow>
          (case ck_load ck reader of
             Inr store \<Rightarrow> Inr \<lparr>cj_path = path, cj_inner = Inr store\<rparr>
           | Inl _ \<Rightarrow>
               res_bind (map_err ReadStdinInput (ck_open ck w path)) (\<lambda>reader.
               res_bind (map_err (\<lambda>e. Cookies (''Failed to load cookies: '' @ e)) (ck_load_legacy ck reader)) (\<lambda>store.
                 Inr \<lparr>cj_path = path, cj_inner = Inr store\<rparr>)))
      | Inl e \<Rightarrow>
          if io_kind_of e = NotFound then Inr \<lparr>cj_path = path, cj_inner = Inr (ck_default ck)\<rparr>
          else Inl (ReadStdinInput e))"

text \<open>\<open>Path::parent\<close>\<close>

definition path_parent :: "path \<Rightarrow> path option" where
  "path_parent path = (if path = [] \<or> path = [''/''] then None else Some (butlast path))"

definition cookie_jar_save :: "('c, 'w) cookie_env \<Rightarrow> 'c cookie_jar \<Rightarrow> 'w \<Rightarrow> (error_kind + unit) \<times> 'w" where
  "cookie_jar_save ck jar w =
     (let path = cj_path jar;
          (dirs, w) = (case path_parent path of Some parent \<Rightarrow> ck_create_dir_all ck parent w | None \<Rightarrow> (Inr (), w)) in
      case dirs of
        Inl e \<Rightarrow> (Inl (ReadStdinInput e), w)
      | Inr _ \<Rightarrow>
          (let (created, w) = ck_create ck path w in
           case created of
             Inl e \<Rightarrow> (Inl (ReadStdinInput e), w)
           | Inr _ \<Rightarrow>
               (case cj_inner jar of
                  Inl e \<Rightarrow> (Inl (Cookies (''Failed to lock cookie store: '' @ e)), w)
                | Inr store \<Rightarrow>
                    (let (saved, w) = ck_save ck store path w in
                     (map_err (\<lambda>e. Cookies (''Failed to save cookies: '' @ e)) saved, w)))))"

definition cookie_jar_eq :: "'c cookie_jar \<Rightarrow> 'c cookie_jar \<Rightarrow> bool" where
  "cookie_jar_eq a b \<longleftrightarrow> cj_path a = cj_path b"

definition load_cookie_jar :: "('c, 'w) cookie_env \<Rightarrow> 'w \<Rightarrow> path option \<Rightarrow> error_kind + 'c cookie_jar option" where
  "load_cookie_jar ck w path =
     (case path of None \<Rightarrow> Inr None | Some path \<Rightarrow> res_bind (cookie_jar_load ck w path) (\<lambda>jar. Inr (Some jar)))"

section \<open>Properties\<close>

text \<open>A cookie jar that was saved without an error is loaded again from its path with the same store, if
  reading the new format gives what was written; and a missing file is an empty jar.
\<close>

theorem cookie_jar_round_trip:
  assumes "\<And>store path w w'. ck_save ck store path w = (Inr (), w') \<Longrightarrow>
      \<exists>content. ck_open ck w' path = Inr content \<and> ck_load ck content = Inr store"
    and "cookie_jar_save ck jar w = (Inr (), w')"
  shows "cookie_jar_load ck w' (cj_path jar) = Inr jar"
proof -
  from assms(2) obtain store w1 where store: "cj_inner jar = Inr store" "ck_save ck store (cj_path jar) w1 = (Inr (), w')"
    by (auto simp: cookie_jar_save_def map_err_def Let_def split: prod.splits sum.splits)
  from assms(1) [OF this(2)] store(1) show ?thesis
    by (cases jar) (auto simp: cookie_jar_load_def)
qed

text \<open>A cookie file that exists but cannot be opened is reported as an error of the standard input, which
  has nothing to do with it: this is the conversion that the I/O errors of the jar go through, also when it
  is saved.
\<close>

theorem cookie_errors_blame_stdin:
  assumes "ck_open ck w path = Inl e" and "io_kind_of e \<noteq> NotFound"
  shows "\<exists>error. load_cookie_jar ck w (Some path) = Inl error \<and>
    err_details tx error = ''Cannot read content from stdin: '' @ io_text e"
  using assms by (simp add: load_cookie_jar_def cookie_jar_load_def err_details_def res_bind_def)

section \<open>Instances\<close>

text \<open>A file system of one file, which may be unreadable.\<close>

definition one_file :: "(string, io_error + string) cookie_env" where
  "one_file = \<lparr>ck_open = (\<lambda>w path. w), ck_create_dir_all = (\<lambda>path w. (Inr (), w)), ck_create = (\<lambda>path w. (Inr (), Inr [])),
     ck_load = Inr, ck_load_legacy = Inr, ck_save = (\<lambda>store path w. (Inr (), Inr store)), ck_default = []\<rparr>"

theorem cookie_jar_round_trip_witness:
  "cookie_jar_load one_file (snd (cookie_jar_save one_file \<lparr>cj_path = [''c'', ''jar''], cj_inner = Inr ''x''\<rparr> (Inr [])))
     [''c'', ''jar''] = Inr \<lparr>cj_path = [''c'', ''jar''], cj_inner = Inr ''x''\<rparr>"
proof -
  let ?jar = "\<lparr>cj_path = [''c'', ''jar''], cj_inner = Inr ''x''\<rparr>"
  have saved: "cookie_jar_save one_file ?jar (Inr []) = (Inr (), Inr ''x'')"
    by (simp add: cookie_jar_save_def one_file_def path_parent_def)
  from cookie_jar_round_trip [OF _ saved] saved show ?thesis by (simp add: one_file_def)
qed

theorem cookie_errors_blame_stdin_witness:
  "\<exists>error. load_cookie_jar one_file (Inl \<lparr>io_kind_of = PermissionDenied, io_text = ''denied'', io_inner = None\<rparr>) (Some [''jar'']) =
     Inl error \<and> err_details sample_texts error = ''Cannot read content from stdin: denied''"
  using cookie_errors_blame_stdin [of one_file "Inl \<lparr>io_kind_of = PermissionDenied, io_text = ''denied'', io_inner = None\<rparr>" "[''jar'']"
      "\<lparr>io_kind_of = PermissionDenied, io_text = ''denied'', io_inner = None\<rparr>" sample_texts]
  by (simp add: one_file_def)

end
