(* ===== verification/Program.thy ===== *)
theory Program
  imports Config Collector Library CheckPipeline Reports Cookies
begin

text \<open>
  The program: the client of a configuration (\<open>lychee-bin/src/client.rs\<close>), the commands \<open>dump\<close> and
  \<open>dump_inputs\<close> (\<open>commands/dump.rs\<close>, \<open>commands/dump_inputs.rs\<close>), and \<open>run_main\<close> and \<open>run\<close> of \<open>main.rs\<close>.
\<close>

section \<open>The client\<close>

text \<open>
  The crates: parsing a request method, the orders in which the maps of headers and of hosts are iterated,
  and the user agent, which has the version that the build sets.
\<close>

record ('c, 'w) program_env =
  pe_base :: base_env
  pe_builder :: "('c, 'w) builder_env"
  pe_fs :: file_system
  pe_rx :: regex_crate
  pe_http :: http
  pe_headers :: header_crate
  pe_method :: "string \<Rightarrow> string + string"
  pe_header_order :: "(string \<rightharpoonup> string) \<Rightarrow> (string \<times> string) list"
  pe_host_order :: "host_configs \<Rightarrow> (host_key \<times> host_config) list"
  pe_user_agent :: string

text \<open>\<open>str::to_uppercase\<close>, for the characters whose upper case is in the modelled range.\<close>

definition upper_char :: "char \<Rightarrow> char" where
  "upper_char c = (let n = (of_char c :: nat) in
     if (97 \<le> n \<and> n \<le> 122) \<or> (224 \<le> n \<and> n \<le> 254 \<and> n \<noteq> 247) then char_of (n - 32) else c)"

definition to_uppercase :: "string \<Rightarrow> string" where
  "to_uppercase s = map upper_char s"

definition parse_remaps :: "regex_crate \<Rightarrow> string list \<Rightarrow> any_error + remaps" where
  "parse_remaps rx remaps =
     map_err (\<lambda>e. AnyContext (''Remaps must be of the form '' @ [CHR 0x27] @ ''<pattern> <uri>'' @ [CHR 0x27] @
       '' (separated by whitespace)'') (AnyKind e)) (remaps_try_from rx remaps)"

definition offline_schemes :: "config \<Rightarrow> string set" where
  "offline_schemes cfg = (if cfg_offline cfg then {''file''} else set (cf_scheme cfg))"

fun reqwest_tls_of :: "tls_version \<Rightarrow> reqwest_tls" where
  "reqwest_tls_of V1_0 = TLS_1_0"
| "reqwest_tls_of V1_1 = TLS_1_1"
| "reqwest_tls_of V1_2 = TLS_1_2"
| "reqwest_tls_of V1_3 = TLS_1_3"

text \<open>The accepted status codes are collected after the regular expressions and before the headers.\<close>

definition create_builder ::
  "('c, 'w) program_env \<Rightarrow> bool \<Rightarrow> config \<Rightarrow> (any_error + ('c, 'w) client_builder) eval" where
  "create_builder pe cookie_jar cfg =
     (case res_bind (map_err AnyText (pe_method pe (to_uppercase (cfg_method cfg)))) (\<lambda>request_method.
           res_bind (parse_remaps (pe_rx pe) (cf_remap cfg)) (\<lambda>remaps.
           res_bind (map_err AnyText (regex_filter_new (pe_rx pe) (cf_include cfg))) (\<lambda>includes.
           res_bind (map_err AnyText (regex_filter_new (pe_rx pe) (cf_exclude cfg))) (\<lambda>excludes.
             Inr (request_method, remaps, includes, excludes))))) of
        Inl e \<Rightarrow> Value (Inl e)
      | Inr (request_method, remaps, includes, excludes) \<Rightarrow>
          eval_bind (sel_codes (pe_http pe) (cfg_accept cfg)) (\<lambda>accepted. Value (
            res_bind (map_err AnyText (from_header_pairs (pe_headers pe) (pe_header_order pe (cfg_headers cfg)) [])) (\<lambda>headers.
              Inr \<lparr>cb_remaps = Some remaps, cb_base = unwrap_or (cf_base_url cfg) BaseNone,
                cb_fallback_extensions = cf_fallback_extensions cfg, cb_index_files = cf_index_files cfg,
                cb_includes = Some includes, cb_excludes = Some excludes,
                cb_exclude_all_private = cfg_exclude_all_private cfg, cb_exclude_private_ips = cfg_exclude_private cfg,
                cb_exclude_link_local_ips = cfg_exclude_link_local cfg, cb_exclude_loopback_ips = cfg_exclude_loopback cfg,
                cb_include_mail = cfg_include_mail cfg, cb_max_redirects = cfg_max_redirects cfg,
                cb_min_tls_version = map_option reqwest_tls_of (cf_min_tls cfg), cb_allow_insecure = cfg_insecure cfg,
                cb_timeout = Some (cfg_timeout cfg), cb_cookie_jar = cookie_jar, cb_schemes = offline_schemes cfg,
                cb_user_agent = cfg_user_agent (pe_user_agent pe) cfg, cb_custom_headers = headers,
                cb_method = request_method, cb_accepted = accepted,
                cb_max_retries = cfg_max_retries cfg, cb_retry_wait_time = cfg_retry_wait_time cfg,
                cb_require_https = cfg_require_https cfg, cb_github_token = cf_github_token cfg,
                cb_fragment_options = cfg_fragment_options cfg, cb_include_wikilinks = cfg_include_wikilinks cfg,
                cb_plugin_request_chain = [],
                cb_rate_limit_config = rate_limit_from_options (cf_host_concurrency cfg) (cf_host_request_interval cfg),
                cb_hosts = pe_host_order pe (cf_hosts cfg)\<rparr>))))"

definition create ::
  "('c, 'w) program_env \<Rightarrow> bool \<Rightarrow> config \<Rightarrow> (any_error + ('c, 'w) client \<times> 'c host_pool) eval" where
  "create pe cookie_jar cfg =
     eval_bind (create_builder pe cookie_jar cfg) (\<lambda>builder. Value (
       res_bind builder (\<lambda>builder. map_err (\<lambda>e. AnyContext ''Failed to create request client'' (AnyKind e))
         (builder_client (pe_builder pe) (pe_base pe) (pe_fs pe) builder))))"

section \<open>The commands that only print\<close>

text \<open>
  The outcome of writing a line is a parameter, as it depends on the output; \<open>out\<close> are the lines written.
  \<open>request_show\<close> is the \<open>Display\<close> of a request.
\<close>

definition request_show :: "request \<Rightarrow> string" where
  "request_show r = url_str (rq_uri r) @ '' ('' @ resolved_show (rq_source r) @ '')''"

definition verbose_info :: "verbosity \<Rightarrow> bool" where
  "verbose_info v \<longleftrightarrow> log_level_of v \<notin> {LevelError, LevelWarn}"

definition dump_line :: "verbosity \<Rightarrow> request \<Rightarrow> bool \<Rightarrow> string option" where
  "dump_line verbosity request excluded =
     (if is_data (rq_uri request) \<and> \<not> verbose_info verbosity then None
      else let shown = (if verbose_info verbosity then request_show request else url_str (rq_uri request))
        in Some (if excluded then shown @ '' [excluded]'' else shown))"

type_synonym writer = "string list \<Rightarrow> string \<Rightarrow> io_error option"

text \<open>
  Creating the output file, opening it for appending, and the standard output.  An I/O error becomes an
  \<open>ErrorKind\<close> by the only \<open>From\<close> there is, that of the standard input.
\<close>

record writers =
  wr_create :: "path \<Rightarrow> io_error option"
  wr_append :: "path \<Rightarrow> io_error + writer"
  wr_stdout :: writer

definition create_writer :: "writers \<Rightarrow> path option \<Rightarrow> error_kind + writer" where
  "create_writer ws output =
     (case output of Some path \<Rightarrow> map_err ReadStdinInput (wr_append ws path) | None \<Rightarrow> Inr (wr_stdout ws))"

definition open_output :: "writers \<Rightarrow> path option \<Rightarrow> error_kind + writer" where
  "open_output ws output =
     (case Option.bind output (wr_create ws) of Some e \<Rightarrow> Inl (ReadStdinInput e) | None \<Rightarrow> create_writer ws output)"

fun dump_requests ::
  "('c, 'w) client_env \<Rightarrow> ('c, 'w) client \<Rightarrow> verbosity \<Rightarrow> writer \<Rightarrow> (request_error + request) list \<Rightarrow> string list \<Rightarrow>
   (error_kind + exit_code) \<times> string list" where
  "dump_requests ce cl verbosity writer [] out = (Inr Success, out)"
| "dump_requests ce cl verbosity writer (Inl e # requests) out =
     (case e of
        UserInputContent _ kind \<Rightarrow> (Inl kind, out)
      | _ \<Rightarrow> dump_requests ce cl verbosity writer requests out)"
| "dump_requests ce cl verbosity writer (Inr request # requests) out =
     (case remap_of ce cl (rq_uri request) of
        Inl e \<Rightarrow> (Inl e, out)
      | Inr (uri, _) \<Rightarrow>
          (let request = request\<lparr>rq_uri := uri\<rparr>; excluded = client_is_excluded ce cl uri in
           if excluded \<and> \<not> verbose_info verbosity then dump_requests ce cl verbosity writer requests out
           else (case dump_line verbosity request excluded of
               None \<Rightarrow> dump_requests ce cl verbosity writer requests out
             | Some line \<Rightarrow>
                 (case writer out line of
                    None \<Rightarrow> dump_requests ce cl verbosity writer requests (out @ [line])
                  | Some e \<Rightarrow>
                      if io_kind_of e = BrokenPipe then dump_requests ce cl verbosity writer requests out
                      else (Inr UnexpectedFailure, out)))))"

definition dump ::
  "('c, 'w) client_env \<Rightarrow> ('c, 'w) client \<Rightarrow> writers \<Rightarrow> config \<Rightarrow> (request_error + request) list \<Rightarrow>
   (error_kind + exit_code) \<times> string list" where
  "dump ce cl ws cfg requests =
     (case open_output ws (cf_output cfg) of
        Inl e \<Rightarrow> (Inl e, [])
      | Inr writer \<Rightarrow> dump_requests ce cl (cfg_verbose cfg) writer requests [])"

text \<open>The sources of all inputs, each printed once; the error of a source ends it, as does one in writing.\<close>

fun dump_sources ::
  "writer \<Rightarrow> (error_kind + string) list \<Rightarrow> string set \<Rightarrow> string list \<Rightarrow> (error_kind + exit_code) \<times> string list" where
  "dump_sources writer [] seen out = (Inr Success, out)"
| "dump_sources writer (Inl e # srcs) seen out = (Inl e, out)"
| "dump_sources writer (Inr source # srcs) seen out =
     (if source \<in> seen then dump_sources writer srcs seen out
      else (case writer out source of
          Some e \<Rightarrow> (Inl (ReadStdinInput e), out)
        | None \<Rightarrow> dump_sources writer srcs (insert source seen) (out @ [source])))"

definition dump_inputs ::
  "input_env \<Rightarrow> writers \<Rightarrow> input list \<Rightarrow> path option \<Rightarrow> string list \<Rightarrow> file_extensions \<Rightarrow> bool \<Rightarrow> bool \<Rightarrow>
   (error_kind + exit_code) \<times> string list" where
  "dump_inputs ie ws inputs output excluded_paths extensions skip_hidden skip_ignored =
     (case open_output ws output of
        Inl e \<Rightarrow> (Inl e, [])
      | Inr writer \<Rightarrow>
          (case regex_filter_new (ie_rx ie) excluded_paths of
             Inl e \<Rightarrow> (Inl (Regex e), [])
           | Inr excluded \<Rightarrow> dump_sources writer
               (concat (map (\<lambda>input. get_sources ie input extensions skip_hidden skip_ignored excluded) inputs)) {} []))"

section \<open>Running\<close>

text \<open>The base that is used: \<open>--base\<close> is deprecated.\<close>

definition base_of_config :: "config \<Rightarrow> base_info option" where
  "base_of_config cfg =
     (case (cf_base cfg, cf_base_url cfg) of
        (None, url) \<Rightarrow> url
      | (base, None) \<Rightarrow> base
      | (_, url) \<Rightarrow> url)"

definition create_collector ::
  "('c, 'w) program_env \<Rightarrow> bool \<Rightarrow> config \<Rightarrow> any_error + collector" where
  "create_collector pe use_html5ever cfg =
     res_bind (map_err AnyText (from_header_pairs (pe_headers pe) (pe_header_order pe (cfg_headers cfg)) [])) (\<lambda>headers.
     res_bind (map_err AnyText (regex_filter_new (pe_rx pe) (cf_exclude_path cfg))) (\<lambda>excluded_paths.
     let collector = (collector_new (pe_base pe) (cf_root_dir cfg) (unwrap_or (base_of_config cfg) BaseNone))
           \<lparr>col_skip_missing_inputs := cfg_skip_missing cfg, col_skip_hidden := \<not> cfg_hidden cfg,
            col_skip_ignored := \<not> cfg_no_ignore cfg, col_include_verbatim := cfg_include_verbatim cfg,
            col_headers := headers, col_excluded_paths := excluded_paths, col_use_html5ever := use_html5ever,
            col_include_wikilinks := cfg_include_wikilinks cfg, col_preprocessor := cf_preprocess cfg\<rparr>
     in case cf_basic_auth cfg of
          None \<Rightarrow> Inr collector
        | Some basic_auth \<Rightarrow>
            res_bind (map_err AnyText (auth_extractor_new (pe_rx pe) basic_auth)) (\<lambda>extractor.
              Inr (collector\<lparr>col_basic_auth_extractor := Some extractor\<rparr>))))"

text \<open>
  The exit code of a finished check, and what \<open>run_main\<close> makes of it all: loading the configuration, the
  parent of the output path, \<open>--generate\<close>, and the error of \<open>run\<close>, with the kind of the I/O error it can be
  traced back to.  An error that reaches \<open>main\<close> is the exit code 1.
\<close>

definition initial_stats :: "config \<Rightarrow> response_stats" where
  "initial_stats cfg = (if verbose_info (cfg_verbose cfg) then stats_extended else stats_default)"

text \<open>
  The outcome of a command: that of \<open>dump\<close>, or the statistics of a check with the entries of its cache.  The
  rest of \<open>run\<close> writes the report, the cache and the cookies, in this order, and ends at the first error.
\<close>

datatype command_result = Dumped "any_error + exit_code" | Checked "error_kind + response_stats \<times> (uri \<times> cache_value) list"

record 'w outputs =
  ou_write :: "path \<Rightarrow> glyphs \<Rightarrow> 'w \<Rightarrow> (io_error + unit) \<times> 'w"
  ou_print :: "glyphs \<Rightarrow> 'w \<Rightarrow> (io_error + unit) \<times> 'w"
  ou_store :: "string list list \<Rightarrow> 'w \<Rightarrow> (any_error + unit) \<times> 'w"

definition and_then :: "('e + unit) \<times> 'w \<Rightarrow> ('w \<Rightarrow> ('e + 'b) \<times> 'w) \<Rightarrow> ('e + 'b) \<times> 'w" where
  "and_then r f = (case r of (Inl e, w) \<Rightarrow> (Inl e, w) | (Inr _, w) \<Rightarrow> f w)"

lemma and_then_Inr: "fst (and_then r f) = Inr x \<Longrightarrow> fst r = Inr () \<and> fst (f (snd r)) = Inr x"
  by (cases r; cases "fst r") (simp_all add: and_then_def)

definition with_err :: "('e \<Rightarrow> 'f) \<Rightarrow> ('e + unit) \<times> 'w \<Rightarrow> ('f + unit) \<times> 'w" where
  "with_err f r = (map_err f (fst r), snd r)"

text \<open>\<open>formatted\<close> is what the formatter of the configured format and mode gives.\<close>

definition output_statistics :: "'w outputs \<Rightarrow> string + glyphs \<Rightarrow> config \<Rightarrow> 'w \<Rightarrow> (any_error + unit) \<times> 'w" where
  "output_statistics ou formatted cfg w =
     (case formatted of
        Inl e \<Rightarrow> (Inl (AnyText e), w)
      | Inr formatted_stats \<Rightarrow>
          (case cf_output cfg of
             Some output \<Rightarrow>
               with_err (\<lambda>e. AnyContext ''Cannot write status output to file'' (AnyIo e)) (ou_write ou output formatted_stats w)
           | None \<Rightarrow> with_err AnyIo (ou_print ou (formatted_stats @ newline) w)))"

definition run_exit ::
  "'w outputs \<Rightarrow> ('c, 'w) cookie_env \<Rightarrow> (response_stats \<Rightarrow> string + glyphs) \<Rightarrow> 'c cookie_jar option \<Rightarrow> config \<Rightarrow>
   command_result \<Rightarrow> 'w \<Rightarrow> (any_error + int) \<times> 'w" where
  "run_exit ou ck format jar cfg result w =
     (case result of
        Dumped code \<Rightarrow> (map_sum id exit_value code, w)
      | Checked (Inl e) \<Rightarrow> (Inl (AnyKind e), w)
      | Checked (Inr (stats, cache)) \<Rightarrow>
          and_then (output_statistics ou (format stats) cfg w) (\<lambda>w.
          and_then (if cfg_cache cfg then ou_store ou (cache_store cache) w else (Inr (), w)) (\<lambda>w.
          and_then (case jar of
              Some jar \<Rightarrow> with_err (\<lambda>e. AnyContext ''Cannot save cookie jar'' (AnyKind e)) (cookie_jar_save ck jar w)
            | None \<Rightarrow> (Inr (), w)) (\<lambda>w.
              (Inr (exit_value (check_exit_code (cfg_accept_timeouts cfg) stats)), w)))))"

definition output_writable :: "file_system \<Rightarrow> config \<Rightarrow> bool" where
  "output_writable fs cfg =
     (case cf_output cfg of
        None \<Rightarrow> True
      | Some output \<Rightarrow> length output \<le> 1 \<or> path_exists fs (butlast output))"

definition run_main ::
  "(any_error + lychee_options) \<Rightarrow> file_system \<Rightarrow> (generate_mode \<Rightarrow> any_error + string) \<Rightarrow>
   (lychee_options \<Rightarrow> any_error + int) \<Rightarrow> (any_error \<Rightarrow> io_kind option) \<Rightarrow> int" where
  "run_main loaded fs generate run underlying_io_error_kind =
     (case loaded of
        Inl e \<Rightarrow> exit_value ConfigFile
      | Inr opts \<Rightarrow>
          if \<not> output_writable fs (lo_config opts) then exit_value UnexpectedFailure
          else (case cf_generate (lo_config opts) of
              Some mode \<Rightarrow> (case generate mode of Inr _ \<Rightarrow> exit_value Success | Inl _ \<Rightarrow> 1)
            | None \<Rightarrow>
                (case run opts of
                   Inl e \<Rightarrow> if underlying_io_error_kind e = Some BrokenPipe then exit_value Success else 1
                 | Inr code \<Rightarrow> code)))"

section \<open>Properties\<close>

lemma create_builder_schemes:
  "create_builder pe cookie_jar cfg = Value (Inr b) \<Longrightarrow> cb_schemes b = offline_schemes cfg"
  by (auto simp: create_builder_def eval_bind_def res_bind_Inr_conv split: sum.splits eval.splits prod.splits)

lemma create_schemes:
  "create pe cookie_jar cfg = Value (Inr (cl, pool)) \<Longrightarrow> f_schemes (cl_filter cl) = offline_schemes cfg"
  using create_builder_schemes [of pe cookie_jar cfg]
  by (auto simp: create_def eval_bind_def res_bind_Inr_conv builder_filter_def split: eval.splits
      dest!: builder_client_fields)

lemma other_scheme_excluded:
  "f_schemes (cl_filter cl) \<noteq> {} \<Longrightarrow> url_scheme u \<notin> f_schemes (cl_filter cl) \<Longrightarrow> client_is_excluded ce cl u"
  by (simp add: client_is_excluded_def filter_is_excluded_def is_scheme_excluded_def)

lemma empty_patterns:
  "filter_is_excluded env (f\<lparr>f_includes := Some [], f_excludes := Some []\<rparr>) u =
     filter_is_excluded env (f\<lparr>f_includes := None, f_excludes := None\<rparr>) u"
  by (simp add: filter_is_excluded_def is_scheme_excluded_def is_host_excluded_def is_ip_excluded_def is_mail_excluded_def
      is_includes_empty_def is_excludes_empty_def)

lemma empty_remaps: "client_remap rx uc (Some []) u = client_remap rx uc None u"
  by (simp add: client_remap_def)

lemmas default_options =
  cfg_timeout_def cfg_retry_wait_time_def cfg_method_def cfg_max_redirects_def cfg_max_retries_def cfg_fragment_options_def
  cfg_accept_def cfg_user_agent_def cfg_headers_def cfg_exclude_all_private_def cfg_exclude_private_def
  cfg_exclude_link_local_def cfg_exclude_loopback_def cfg_include_mail_def cfg_insecure_def cfg_require_https_def
  cfg_include_wikilinks_def cfg_offline_def unwrap_or_def DEFAULT_TIMEOUT_SECS_def DEFAULT_MAX_REDIRECTS_def
  DEFAULT_MAX_RETRIES_def DEFAULT_RETRY_WAIT_TIME_SECS_def

text \<open>C37: Without any option the program makes the client of the library's defaults, except that its requests time out
  after 20 seconds, which the library only names as its default, and that it may have a cookie jar.  Its lists
  of patterns and of remap rules are there but empty: the filter and the remapping do the same as without.
\<close>

theorem no_options_is_library_default:
  assumes "http_documented (pe_http pe)" and "pe_method pe ''GET'' = Inr ''GET''" and "pe_user_agent pe = DEFAULT_USER_AGENT version"
    and "pe_header_order pe Map.empty = []" and "pe_host_order pe Map.empty = []"
  shows "\<exists>b d. create_builder pe jar config_default = Value (Inr b) \<and> builder_default (pe_http pe) version = Value d \<and>
    b = d\<lparr>cb_remaps := Some [], cb_includes := Some [], cb_excludes := Some [],
      cb_timeout := Some (from_secs DEFAULT_TIMEOUT_SECS), cb_cookie_jar := jar\<rparr> \<and>
    (\<forall>env u. filter_is_excluded env (builder_filter b) u = filter_is_excluded env (builder_filter d) u) \<and>
    (\<forall>rx uc u. client_remap rx uc (cb_remaps b) u = client_remap rx uc (cb_remaps d) u)"
proof -
  have accepted: "sel_codes (pe_http pe) default_accepted = Value ({100..103} \<union> {200..299})"
    using default_accepted_codes [OF assms(1)] by (simp add: DEFAULT_ACCEPTED_STATUS_CODES_def)
  have upper: "to_uppercase ''get'' = ''GET''" by code_simp
  obtain d :: "('a, 'b) client_builder" where d: "builder_default (pe_http pe) version = Value d"
    by (simp add: builder_default_def default_accepted_codes [OF assms(1)])
  let ?b = "d\<lparr>cb_remaps := Some [], cb_includes := Some [], cb_excludes := Some [],
      cb_timeout := Some (from_secs DEFAULT_TIMEOUT_SECS), cb_cookie_jar := jar\<rparr>"
  have "create_builder pe jar config_default = Value (Inr ?b)"
    using d by (auto simp: create_builder_def builder_default_def DEFAULT_ACCEPTED_STATUS_CODES_def accepted default_options
        upper assms(2-5) parse_remaps_def regex_filter_new_def config_default_def offline_schemes_def)
  moreover have "cb_remaps d = None" "cb_includes d = None" "cb_excludes d = None"
    using d by (auto simp: builder_default_def eval_bind_def split: eval.splits)
  then have "filter_is_excluded env (builder_filter ?b) u = filter_is_excluded env (builder_filter d) u" for env u
    using empty_patterns [of env "builder_filter ?b" u] by (simp add: builder_filter_def)
  moreover have "client_remap rx uc (cb_remaps ?b) u = client_remap rx uc (cb_remaps d) u" for rx uc u
    using \<open>cb_remaps d = None\<close> by (simp add: empty_remaps)
  ultimately show ?thesis using d by blast
qed

text \<open>C17: With \<open>--offline\<close> no check of a link contacts a host or a mail server, whatever the other options are: a
  link that is no file URL after remapping is reported as excluded.  But the option does not reach the
  collector: the one made from the configuration is the same, so that remote inputs are fetched as ever.
\<close>

theorem offline_checks_contact_nothing:
  assumes "create pe cookie_jar cfg = Value (Inr (cl, pool))" and "cfg_offline cfg"
    and "client_check ce cl elapsed request st = Value (res, st')"
  shows "cs_website st' = cs_website st \<and>
    (\<forall>resp. res = Inr resp \<longrightarrow> is_file (rb_uri (r_body resp)) \<or> r_status resp = StExcluded) \<and>
    create_collector pe use_html5ever (cfg\<lparr>cf_offline := None\<rparr>) = create_collector pe use_html5ever cfg"
proof -
  have schemes: "f_schemes (cl_filter cl) = {''file''}"
    using create_schemes [OF assms(1)] assms(2) by (simp add: offline_schemes_def)
  have collector: "create_collector pe use_html5ever (cfg\<lparr>cf_offline := None\<rparr>) = create_collector pe use_html5ever cfg"
    by (simp add: create_collector_def cfg_headers_def base_of_config_def cfg_skip_missing_def cfg_hidden_def cfg_no_ignore_def
        cfg_include_verbatim_def cfg_include_wikilinks_def)
  consider e where "res = Inl e" "st' = st"
    | u remap status redirects where "dispatch ce cl u (rq_credentials request) st = Value ((status, redirects), st')"
        "res = Inr (response_new u status redirects remap (input_source_of (rq_source request)) (rq_span request) (Some elapsed))"
    using client_check_Value [OF assms(3)] by blast
  then show ?thesis
  proof cases
    case 1 with collector show ?thesis by simp
  next
    case 2
    show ?thesis
    proof (cases "is_file u")
      case True
      with dispatch_file_keeps_website [OF this 2(1)] collector 2(2) show ?thesis by (simp add: response_new_def)
    next
      case False
      then have "client_is_excluded ce cl u" by (intro other_scheme_excluded) (simp_all add: schemes is_file_def)
      with dispatch_excluded [of ce cl u] 2 collector show ?thesis by (simp add: response_new_def)
    qed
  qed
qed

lemma dump_requests_admitted:
  assumes "\<forall>r \<in> set requests. user_error r = None"
    and "\<forall>request. Inr request \<in> set requests \<longrightarrow> (\<exists>r. remap_of ce cl (rq_uri request) = Inr r)"
    and "\<not> verbose_info verbosity"
  shows "dump_requests ce cl verbosity (\<lambda>_ _. None) requests out = (Inr Success, out @ map url_str
    (filter (\<lambda>u. \<not> client_is_excluded ce cl u \<and> \<not> is_data u)
      (concat (map (\<lambda>r. case r of Inl _ \<Rightarrow> [] | Inr request \<Rightarrow> [fst (projr (remap_of ce cl (rq_uri request)))]) requests))))"
  using assms
proof (induction requests arbitrary: out)
  case (Cons r requests)
  show ?case
  proof (cases r)
    case (Inl e)
    with Cons show ?thesis by (cases e) (simp_all add: user_error_def)
  next
    case (Inr request)
    with Cons.prems obtain u remap where "remap_of ce cl (rq_uri request) = Inr (u, remap)" by force
    with Cons Inr show ?thesis by (simp add: dump_line_def Let_def)
  qed
qed simp

text \<open>\<open>dump\<close> prints the links that would be checked: with the default verbosity and an output that takes
  every line, one line for each link that the filter admits after remapping and that is no data URL, in the
  order of the links and with nothing but the URL.  Errors of single links and of discovered files are not
  reported, and do not change the exit code.
\<close>

theorem dump_lists_admitted_links:
  assumes "\<forall>r \<in> set requests. user_error r = None"
    and "\<forall>request. Inr request \<in> set requests \<longrightarrow> (\<exists>r. remap_of ce cl (rq_uri request) = Inr r)"
    and "\<not> verbose_info (cfg_verbose cfg)" and "open_output ws (cf_output cfg) = Inr (\<lambda>_ _. None)"
  shows "dump ce cl ws cfg requests = (Inr Success, map url_str
    (filter (\<lambda>u. \<not> client_is_excluded ce cl u \<and> \<not> is_data u)
      (concat (map (\<lambda>r. case r of Inl _ \<Rightarrow> [] | Inr request \<Rightarrow> [fst (projr (remap_of ce cl (rq_uri request)))]) requests))))"
  using dump_requests_admitted [OF assms(1-3), of "[]"] assms(4) by (simp add: dump_def)

lemma dump_sources_lines:
  assumes "\<forall>s \<in> set srcs. \<exists>x. s = Inr x"
  shows "\<exists>new. dump_sources (\<lambda>_ _. None) srcs seen out = (Inr Success, out @ new) \<and> distinct new \<and>
    set new = {x. Inr x \<in> set srcs} - seen"
  using assms
proof (induction srcs arbitrary: seen out)
  case (Cons s srcs)
  then obtain x where s: "s = Inr x" by auto
  show ?case
  proof (cases "x \<in> seen")
    case True
    with Cons.IH [of seen out] Cons.prems s show ?thesis by auto
  next
    case False
    from Cons.IH [of "insert x seen" "out @ [x]"] Cons.prems obtain new where
      "dump_sources (\<lambda>_ _. None) srcs (insert x seen) (out @ [x]) = (Inr Success, (out @ [x]) @ new)"
      "distinct new" "set new = {x. Inr x \<in> set srcs} - insert x seen" by auto
    with False s show ?thesis by (intro exI [of _ "x # new"]) auto
  qed
qed simp

text \<open>\<open>dump_inputs\<close> prints every source of the inputs once: if no source has an error and the output takes
  every line, the lines are different, and they are the sources that reading the inputs would use.
\<close>

theorem dump_inputs_lists_sources_once:
  assumes "regex_filter_new (ie_rx ie) excluded_paths = Inr excluded" and "open_output ws output = Inr (\<lambda>_ _. None)"
    and "\<forall>input \<in> set inputs. \<forall>s \<in> set (get_sources ie input extensions hidden ignored excluded). \<exists>x. s = Inr x"
  shows "\<exists>lines. dump_inputs ie ws inputs output excluded_paths extensions hidden ignored = (Inr Success, lines) \<and>
    distinct lines \<and> set lines = {x. \<exists>input \<in> set inputs. Inr x \<in> set (get_sources ie input extensions hidden ignored excluded)}"
proof -
  let ?sources = "concat (map (\<lambda>input. get_sources ie input extensions hidden ignored excluded) inputs)"
  have "\<forall>s \<in> set ?sources. \<exists>x. s = Inr x" using assms(3) by auto
  from dump_sources_lines [OF this, of "{}" "[]"] assms(1,2) show ?thesis by (auto simp: dump_inputs_def)
qed

lemma dump_requests_codes: "fst (dump_requests ce cl verbosity writer requests out) = Inr c \<Longrightarrow> c \<in> {Success, UnexpectedFailure}"
proof (induction requests arbitrary: out)
  case (Cons r requests)
  show ?case
  proof (cases r)
    case (Inl e)
    with Cons show ?thesis by (cases e) auto
  next
    case (Inr request)
    with Cons show ?thesis
      by (simp add: Let_def split: sum.splits prod.splits if_splits option.splits)
  qed
qed simp

lemma dump_codes: "fst (dump ce cl ws cfg requests) = Inr c \<Longrightarrow> c \<in> {Success, UnexpectedFailure}"
  by (auto simp: dump_def split: sum.splits dest: dump_requests_codes)

lemma dump_sources_codes: "fst (dump_sources writer srcs seen out) = Inr c \<Longrightarrow> c = Success"
  by (induction writer srcs seen out rule: dump_sources.induct) (auto split: if_splits option.splits)

lemma dump_inputs_codes:
  "fst (dump_inputs ie ws inputs output excluded extensions hidden ignored) = Inr c \<Longrightarrow> c = Success"
  by (auto simp: dump_inputs_def dest: dump_sources_codes split: sum.splits)

section \<open>Instances\<close>

definition sample_program_env :: "(unit, nat) program_env" where
  "sample_program_env = \<lparr>pe_base = plain_base_env, pe_builder = sample_builder_env, pe_fs = sample_fs,
     pe_rx = \<lparr>rx_error = Map.empty, rx_is_match = (\<lambda>p s. False), rx_replace_all = (\<lambda>p r s. s)\<rparr>,
     pe_http = http_std, pe_headers = \<lparr>hd_name = Inr, hd_value = Inr, hd_to_str = Some\<rparr>, pe_method = Inr,
     pe_header_order = (\<lambda>_. []), pe_host_order = (\<lambda>_. []), pe_user_agent = ''lychee''\<rparr>"

definition offline_config :: config where
  "offline_config = config_default\<lparr>cf_offline := Some True, cf_accept := Some []\<rparr>"

lemma offline_client: "\<exists>cl pool. create sample_program_env False offline_config = Value (Inr (cl, pool))"
  by (simp add: create_def create_builder_def sample_program_env_def offline_config_def cfg_accept_def unwrap_or_def
      parse_remaps_def regex_filter_new_def builder_client_def build_client_def default_headers_def build_host_clients_def
      sample_builder_env_def github_client_of_def file_checker_new_def cfg_include_wikilinks_def config_default_def)

theorem offline_checks_contact_nothing_witness:
  "\<exists>cl pool resp. create sample_program_env False offline_config = Value (Inr (cl, pool)) \<and>
     client_check sample_client_env cl 1 (request_for (domain_url ''https'' ''a.org'' ''/'')) sample_client_state =
       Value (Inr resp, sample_client_state) \<and> r_status resp = StExcluded"
proof -
  let ?u = "domain_url ''https'' ''a.org'' ''/''"
  obtain cl pool where client: "create sample_program_env False offline_config = Value (Inr (cl, pool))"
    using offline_client by blast
  have offline: "cfg_offline offline_config" by (simp add: cfg_offline_def offline_config_def unwrap_or_def)
  have "cl_remaps cl = Some []"
    using client by (auto simp: create_def create_builder_def sample_program_env_def offline_config_def eval_bind_def
      res_bind_Inr_conv parse_remaps_def config_default_def split: sum.splits eval.splits dest!: builder_client_fields)
  then have remap: "remap_of sample_client_env cl ?u = Inr (?u, None)"
    by (simp add: remap_of_def client_remap_def)
  have "client_is_excluded sample_client_env cl ?u"
    using create_schemes [OF client] offline by (intro other_scheme_excluded) (simp_all add: offline_schemes_def domain_url_def)
  from excluded_response [OF _ this] remap obtain resp where
    check: "client_check sample_client_env cl 1 (request_for ?u) sample_client_state = Value (Inr resp, sample_client_state)"
      "rb_uri (r_body resp) = ?u"
    by (simp add: request_for_def response_new_def)
  from offline_checks_contact_nothing [OF client offline check(1)] check client show ?thesis
    by (auto simp: is_file_def domain_url_def)
qed

definition print_all :: writers where
  "print_all = \<lparr>wr_create = (\<lambda>_. None), wr_append = (\<lambda>_. Inr (\<lambda>_ _. None)), wr_stdout = (\<lambda>_ _. None)\<rparr>"

theorem no_options_is_library_default_witness:
  "let pe = sample_program_env\<lparr>pe_user_agent := ''lychee/0''\<rparr> in
   \<exists>b (d :: (unit, nat) client_builder). create_builder pe False config_default = Value (Inr b) \<and> builder_default (pe_http pe) ''0'' = Value d \<and>
     cb_timeout d = None \<and> cb_timeout b = Some (from_secs 20) \<and> cb_accepted b = cb_accepted d"
proof -
  let ?pe = "sample_program_env\<lparr>pe_user_agent := ''lychee/0''\<rparr>"
  have "http_documented (pe_http ?pe)" "pe_method ?pe ''GET'' = Inr ''GET''" "pe_user_agent ?pe = DEFAULT_USER_AGENT ''0''"
    "pe_header_order ?pe Map.empty = []" "pe_host_order ?pe Map.empty = []"
    by (simp_all add: sample_program_env_def http_std_documented DEFAULT_USER_AGENT_def)
  from no_options_is_library_default [OF this, of False] obtain b d :: "(unit, nat) client_builder" where
    "create_builder ?pe False config_default = Value (Inr b)" and d: "builder_default (pe_http ?pe) ''0'' = Value d"
    and "b = d\<lparr>cb_remaps := Some [], cb_includes := Some [], cb_excludes := Some [],
      cb_timeout := Some (from_secs DEFAULT_TIMEOUT_SECS), cb_cookie_jar := False\<rparr>" by blast
  moreover have "cb_timeout d = None" using d by (auto simp: builder_default_def eval_bind_def split: eval.splits)
  ultimately show ?thesis by (simp add: Let_def DEFAULT_TIMEOUT_SECS_def)
qed

theorem dump_lists_admitted_links_witness:
  "let u = domain_url ''mailto'' ''a.org'' ''/''
   in dump sample_client_env sample_client print_all config_default [Inl (GetInputContent Stdin (InvalidInput [])), Inr (request_for u)] =
     (Inr Success, map url_str (filter (\<lambda>u. \<not> client_is_excluded sample_client_env sample_client u) [u]))"
proof -
  let ?u = "domain_url ''mailto'' ''a.org'' ''/''"
  have remap: "remap_of sample_client_env sample_client u = Inr (u, None)" for u
    using sample_remap .
  have quiet: "\<not> verbose_info (cfg_verbose config_default)" by code_simp
  have out: "open_output print_all (cf_output config_default) = Inr (\<lambda>_ _. None)"
    by (simp add: open_output_def create_writer_def print_all_def config_default_def)
  have "\<forall>r \<in> set [Inl (GetInputContent Stdin (InvalidInput [])), Inr (request_for ?u)]. user_error r = None"
    by (simp add: user_error_def)
  from dump_lists_admitted_links [OF this _ quiet out, of sample_client_env sample_client] remap show ?thesis
    by (simp add: request_for_def is_data_def domain_url_def)
qed

theorem dump_inputs_lists_sources_once_witness:
  "let input = \<lparr>in_source = InputString ''x'', in_file_type_hint = None\<rparr>
   in \<exists>lines. dump_inputs sample_input_env print_all [input, input] None [] [] True True = (Inr Success, lines) \<and>
     distinct lines \<and> set lines = {''<raw string>''}"
proof -
  let ?input = "\<lparr>in_source = InputString ''x'', in_file_type_hint = None\<rparr>"
  have "regex_filter_new (ie_rx sample_input_env) [] = Inr []" by (simp add: regex_filter_new_def)
  moreover have "get_sources sample_input_env ?input [] True True [] = [Inr ''<raw string>'']"
    by (simp add: get_sources_def resolve_input_def)
  moreover have "open_output print_all None = Inr (\<lambda>_ _. None)" by (simp add: open_output_def create_writer_def print_all_def)
  ultimately show ?thesis
    using dump_inputs_lists_sources_once [of sample_input_env "[]" "[]" print_all None "[?input, ?input]" "[]" True True]
    by (simp add: Let_def)
qed

end
