(* ===== verification/HostReports.thy ===== *)
theory HostReports
  imports Reports Host Spans
begin

text \<open>
  The statistics of hosts in the reports: the rates of \<open>lychee-lib/src/ratelimit/host/stats.rs\<close>, what the pool
  gives of its hosts, and \<open>lychee-bin/src/formatters/host\_stats\<close>.  The arithmetic on \<open>f64\<close> is a parameter.
\<close>

section \<open>Rates\<close>

text \<open>
  The quotient of two counters as \<open>f64\<close>, the constants and the product with 100, the comparison with zero,
  the conversion to \<open>u64\<close>, and the text with one decimal.
\<close>

record 'f floats =
  fl_ratio :: "nat \<Rightarrow> nat \<Rightarrow> 'f"
  fl_zero :: 'f
  fl_one :: 'f
  fl_times_100 :: "'f \<Rightarrow> 'f"
  fl_positive :: "'f \<Rightarrow> bool"
  fl_to_u64 :: "'f \<Rightarrow> nat"
  fl_show :: "'f \<Rightarrow> string"

definition error_rate :: "'f floats \<Rightarrow> host_stats \<Rightarrow> 'f" where
  "error_rate fl s =
     (if hs_total_requests s = 0 then fl_zero fl
      else let errors = hs_rate_limited s + hs_client_errors s + hs_server_errors s
           in fl_times_100 fl (fl_ratio fl errors (hs_total_requests s)))"

definition success_rate :: "'f floats \<Rightarrow> host_stats \<Rightarrow> 'f" where
  "success_rate fl s =
     (if hs_total_requests s = 0 then fl_one fl else fl_ratio fl (hs_successful_requests s) (hs_total_requests s))"

definition cache_hit_rate :: "'f floats \<Rightarrow> host_stats \<Rightarrow> 'f" where
  "cache_hit_rate fl s =
     (let total = hs_cache_hits s + hs_cache_misses s in
      if total = 0 then fl_zero fl else fl_ratio fl (hs_cache_hits s) total)"

definition millis_text :: "duration \<Rightarrow> string" where
  "millis_text d = show_nat (d div from_millis 1) @ ''ms''"

definition time_text :: "duration option \<Rightarrow> string" where
  "time_text d = (case d of None \<Rightarrow> ''N/A'' | Some d \<Rightarrow> millis_text d)"

definition host_summary :: "'f floats \<Rightarrow> host_stats \<Rightarrow> string eval" where
  "host_summary fl s =
     (let success_pct = fl_to_u64 fl (fl_times_100 fl (success_rate fl s)); error_pct = fl_to_u64 fl (error_rate fl s) in
      eval_bind (average_request_time s) (\<lambda>avg. Value (show_nat (hs_total_requests s) @ '' requests ('' @
        show_nat success_pct @ ''% success, '' @ show_nat error_pct @ ''% errors), avg: '' @ time_text avg)))"

section \<open>The hosts of the pool\<close>

text \<open>\<open>HostStatsMap\<close> as its iteration gives it, sorted stably by the number of requests in descending order.\<close>

definition hosts_sorted :: "(string \<times> host_stats) list \<Rightarrow> (string \<times> host_stats) list" where
  "hosts_sorted hosts = sort_key (\<lambda>(_, stats). - int (hs_total_requests stats)) hosts"

text \<open>\<open>order\<close> is the order in which the map of hosts is iterated.\<close>

definition all_host_stats :: "host_key list \<Rightarrow> 'c host_pool \<Rightarrow> (string \<times> host_stats) list" where
  "all_host_stats order pool =
     List.map_filter (\<lambda>key. map_option (\<lambda>host. (key, h_stats host)) (hp_hosts pool key)) order"

definition cache_stats :: "'f floats \<Rightarrow> host_key list \<Rightarrow> 'c host_pool \<Rightarrow> (string \<times> nat \<times> 'f) list" where
  "cache_stats fl order pool =
     List.map_filter (\<lambda>key. map_option (\<lambda>host. (key, card (dom (h_cache host)), cache_hit_rate fl (h_stats host)))
       (hp_hosts pool key)) order"

section \<open>Reports\<close>

text \<open>Padding to a width with blanks on the right or on the left.\<close>

definition pad_right :: "nat \<Rightarrow> string \<Rightarrow> string" where
  "pad_right n s = s @ replicate (n - length s) (CHR '' '')"

definition pad_left :: "nat \<Rightarrow> string \<Rightarrow> string" where
  "pad_left n s = replicate (n - length s) (CHR '' '') @ s"

definition separator :: "string \<Rightarrow> glyphs" where
  "separator s = glyphs_of '' '' @ [Symbol Bar] @ glyphs_of ('' '' @ s)"

definition compact_host_line :: "report_env \<Rightarrow> 'f floats \<Rightarrow> nat \<Rightarrow> string \<times> host_stats \<Rightarrow> glyphs" where
  "compact_host_line re fl width entry =
     (let (hostname, stats) = entry in
      rp_paint re NORMAL
        (glyphs_of (pad_right width hostname) @
         separator (pad_left 6 (show_nat (hs_total_requests stats)) @ '' reqs'') @
         separator (pad_left 6 (fl_show fl (fl_times_100 fl (success_rate fl stats))) @ ''% success'') @
         separator (pad_left 8 (time_text (median_request_time stats)) @ '' median'') @
         separator (pad_left 6 (fl_show fl (fl_times_100 fl (cache_hit_rate fl stats))) @ ''% cached'')) @
      newline)"

definition compact_host_stats :: "report_env \<Rightarrow> 'f floats \<Rightarrow> (string \<times> host_stats) list option \<Rightarrow> glyphs" where
  "compact_host_stats re fl host_stats =
     (case host_stats of
        None \<Rightarrow> []
      | Some hosts \<Rightarrow>
          let sorted_hosts = hosts_sorted hosts;
              max_hostname_len = foldr max (map (byte_len \<circ> fst) sorted_hosts) 0;
              width = max (max_hostname_len + 2) 10 in
          newline @ Symbol Chart # glyphs_of '' Per-host Statistics'' @ newline @
          rp_paint re DIM (replicate 60 (Symbol Rule)) @ newline @
          concat (map (compact_host_line re fl width) sorted_hosts))"

definition detailed_host_block :: "'f floats \<Rightarrow> string \<times> host_stats \<Rightarrow> glyphs" where
  "detailed_host_block fl entry =
     (let (hostname, stats) = entry;
          line = (\<lambda>s. glyphs_of s @ newline);
          line_if = (\<lambda>n before after. if n > 0 then line (before @ show_nat n @ after) else []) in
      newline @ line (''Host: '' @ hostname) @
      line (''  Total requests: '' @ show_nat (hs_total_requests stats)) @
      line (''  Successful: '' @ show_nat (hs_successful_requests stats) @ '' ('' @
        fl_show fl (fl_times_100 fl (success_rate fl stats)) @ ''%)'') @
      line_if (hs_rate_limited stats) ''  Rate limited: '' '' (429 Too Many Requests)'' @
      line_if (hs_client_errors stats) ''  Client errors (4xx): '' [] @
      line_if (hs_server_errors stats) ''  Server errors (5xx): '' [] @
      (case median_request_time stats of
         Some median \<Rightarrow> line (''  Median response time: '' @ millis_text median)
       | None \<Rightarrow> []) @
      (let rate = cache_hit_rate fl stats in
       if fl_positive fl rate
       then line (''  Cache hit rate: '' @ fl_show fl (fl_times_100 fl rate) @ ''%'') @
         line (''  Cache hits: '' @ show_nat (hs_cache_hits stats) @ '', misses: '' @ show_nat (hs_cache_misses stats))
       else []))"

definition detailed_host_stats :: "'f floats \<Rightarrow> (string \<times> host_stats) list option \<Rightarrow> glyphs" where
  "detailed_host_stats fl host_stats =
     (case host_stats of
        None \<Rightarrow> []
      | Some hosts \<Rightarrow>
          newline @ Symbol Chart # glyphs_of '' Per-host Statistics'' @ newline @
          glyphs_of (replicate 21 (CHR ''-'')) @ newline @ concat (map (detailed_host_block fl) (hosts_sorted hosts)))"

text \<open>The rows of the Markdown table, which the tabled crate lays out.\<close>

record host_row =
  hr_host :: string
  hr_requests :: nat
  hr_success_rate :: string
  hr_median_time :: string
  hr_cache_hit_rate :: string

definition host_stats_table :: "'f floats \<Rightarrow> (host_row list \<Rightarrow> glyphs) \<Rightarrow> (string \<times> host_stats) list \<Rightarrow> glyphs" where
  "host_stats_table fl table hosts =
     (let entries = map (\<lambda>(hostname, stats).
          \<lparr>hr_host = hostname, hr_requests = hs_total_requests stats,
           hr_success_rate = fl_show fl (fl_times_100 fl (success_rate fl stats)) @ ''%'',
           hr_median_time = time_text (median_request_time stats),
           hr_cache_hit_rate = fl_show fl (fl_times_100 fl (cache_hit_rate fl stats)) @ ''%''\<rparr>) (hosts_sorted hosts)
      in if entries = [] then [] else table entries)"

definition markdown_host_stats ::
  "'f floats \<Rightarrow> (host_row list \<Rightarrow> glyphs) \<Rightarrow> (string \<times> host_stats) list option \<Rightarrow> glyphs" where
  "markdown_host_stats fl table host_stats =
     (case host_stats of
        None \<Rightarrow> []
      | Some hosts \<Rightarrow> newline @ glyphs_of ''## Per-host Statistics'' @ newline @ newline @
          host_stats_table fl table hosts @ newline)"

text \<open>Every host is listed once, those with more requests first.\<close>

lemma hosts_sorted_spec:
  "mset (hosts_sorted hosts) = mset hosts"
  "i < j \<Longrightarrow> j < length hosts \<Longrightarrow>
     hs_total_requests (snd (hosts_sorted hosts ! j)) \<le> hs_total_requests (snd (hosts_sorted hosts ! i))"
proof -
  let ?f = "\<lambda>(_ :: string, stats). - int (hs_total_requests stats)"
  show "mset (hosts_sorted hosts) = mset hosts" by (simp add: hosts_sorted_def)
  assume "i < j" "j < length hosts"
  moreover have "sorted (map ?f (hosts_sorted hosts))" by (simp add: hosts_sorted_def)
  ultimately have "map ?f (hosts_sorted hosts) ! i \<le> map ?f (hosts_sorted hosts) ! j"
    by (intro sorted_nth_mono) (simp_all add: hosts_sorted_def)
  then show "hs_total_requests (snd (hosts_sorted hosts ! j)) \<le> hs_total_requests (snd (hosts_sorted hosts ! i))"
    using \<open>i < j\<close> \<open>j < length hosts\<close> by (simp add: hosts_sorted_def case_prod_unfold)
qed

end
