(* ===== verification/Json.thy ===== *)
theory Json
  imports HostReports
begin

text \<open>
  The JSON report (\<open>formatters/stats/json.rs\<close>): the value that serde makes of the statistics of a run, from the
  derived serializers and the written ones of \<open>types/status.rs\<close>, \<open>types/cache.rs\<close>, \<open>types/input/source.rs\<close> and
  \<open>ratelimit/host/stats.rs\<close>.  The text of a value is serde\_json's.  Then \<open>format\<close> of every formatter, and what the JUnit report has of the responses.
\<close>

section \<open>Values\<close>

datatype 'f json =
    JNull
  | JBool bool
  | JNumber nat
  | JFloat 'f
  | JString string
  | JArray "'f json list"
  | JObject "(string \<times> 'f json) list"

text \<open>A field that is left out if it has no value, and one that is \<open>null\<close> then.\<close>

definition skip_none :: "string \<Rightarrow> ('a \<Rightarrow> 'f json) \<Rightarrow> 'a option \<Rightarrow> (string \<times> 'f json) list" where
  "skip_none name f v = (case v of None \<Rightarrow> [] | Some x \<Rightarrow> [(name, f x)])"

definition nullable :: "('a \<Rightarrow> 'f json) \<Rightarrow> 'a option \<Rightarrow> 'f json" where
  "nullable f v = (case v of None \<Rightarrow> JNull | Some x \<Rightarrow> f x)"

definition url_json :: "url \<Rightarrow> 'f json" where
  "url_json u = JString (url_str u)"

text \<open>serde's form of a \<open>Duration\<close>.\<close>

definition duration_json :: "duration \<Rightarrow> 'f json" where
  "duration_json d = JObject [(''secs'', JNumber (d div 1000000000)), (''nanos'', JNumber (d mod 1000000000))]"

section \<open>Responses\<close>

definition status_json :: "texts \<Rightarrow> status \<Rightarrow> 'f json" where
  "status_json tx status =
     (case status_serialize tx status of
        (text', Inl code) \<Rightarrow> JObject [(''text'', JString text'), (''code'', JNumber (unat code))]
      | (text', Inr details) \<Rightarrow> JObject [(''text'', JString text'), (''details'', JString details)])"

definition redirect_json :: "redirect \<Rightarrow> 'f json" where
  "redirect_json r = JObject [(''url'', url_json (rd_url r)), (''code'', JNumber (unat (rd_code r)))]"

definition redirects_json :: "redirects \<Rightarrow> 'f json" where
  "redirects_json r = JObject
     [(''origin'', url_json (rds_origin r)), (''redirects'', JArray (map redirect_json (rds_redirects r)))]"

definition remap_json :: "remap \<Rightarrow> 'f json" where
  "remap_json r = JObject [(''original'', JObject [(''url'', url_json (remap_original r))]),
     (''new'', JObject [(''url'', url_json (remap_new r))])]"

definition span_json :: "raw_uri_span \<Rightarrow> 'f json" where
  "span_json sp = JObject [(''line'', JNumber (span_line sp)), (''column'', nullable JNumber (span_column sp))]"

definition body_json :: "texts \<Rightarrow> response_body \<Rightarrow> 'f json" where
  "body_json tx body = JObject (
     [(''url'', url_json (rb_uri body)), (''status'', status_json tx (rb_status body))] @
     skip_none ''redirects'' redirects_json (rb_redirects body) @
     skip_none ''remap'' remap_json (rb_remap body) @
     skip_none ''span'' span_json (rb_span body) @
     skip_none ''duration'' duration_json (rb_duration body))"

definition suggestion_json :: "suggestion \<Rightarrow> 'f json" where
  "suggestion_json s = JObject
     [(''original'', url_json (sg_original s)), (''suggestion'', url_json (sg_suggestion s))]"

section \<open>Statistics\<close>

text \<open>A map with sources as keys, in the order of its iteration: each key is the text of its source.\<close>

definition source_map_json :: "('a \<Rightarrow> 'f json) \<Rightarrow> (input_source \<times> 'a list) list \<Rightarrow> 'f json" where
  "source_map_json f entries = JObject (map (\<lambda>(source, vs). (source_show source, JArray (map f vs))) entries)"

definition host_stats_json :: "'f floats \<Rightarrow> ((u16 \<rightharpoonup> nat) \<Rightarrow> (u16 \<times> nat) list) \<Rightarrow> host_stats \<Rightarrow> 'f json" where
  "host_stats_json fl codes s = JObject
     [(''total_requests'', JNumber (hs_total_requests s)), (''successful_requests'', JNumber (hs_successful_requests s)),
      (''success_rate'', JFloat (success_rate fl s)), (''rate_limited'', JNumber (hs_rate_limited s)),
      (''client_errors'', JNumber (hs_client_errors s)), (''server_errors'', JNumber (hs_server_errors s)),
      (''median_request_time_ms'', nullable (\<lambda>d. JNumber (d div from_millis 1)) (median_request_time s)),
      (''cache_hits'', JNumber (hs_cache_hits s)), (''cache_misses'', JNumber (hs_cache_misses s)),
      (''cache_hit_rate'', JFloat (cache_hit_rate fl s)),
      (''status_codes'', JObject (map (\<lambda>(code, n). (show_nat (unat code), JNumber n)) (codes (hs_status_codes s))))]"

definition response_stats_json :: "texts \<Rightarrow> response_stats \<Rightarrow> iterations \<Rightarrow> (string \<times> 'f json) list" where
  "response_stats_json tx stats its =
     [(''total'', JNumber (s_total stats)), (''unique'', JNumber (s_unique stats)),
      (''successful'', JNumber (s_successful stats)), (''unknown'', JNumber (s_unknown stats)),
      (''unsupported'', JNumber (s_unsupported stats)), (''timeouts'', JNumber (s_timeouts stats)),
      (''redirects'', JNumber (s_redirects stats)), (''remaps'', JNumber (s_remaps stats)),
      (''excludes'', JNumber (s_excludes stats)), (''errors'', JNumber (s_errors stats)),
      (''cached'', JNumber (s_cached stats)),
      (''success_map'', source_map_json (body_json tx) (it_successes its)),
      (''error_map'', source_map_json (body_json tx) (it_errors its)),
      (''timeout_map'', source_map_json (body_json tx) (it_timeouts its)),
      (''suggestion_map'', source_map_json suggestion_json (it_suggestions its)),
      (''redirect_map'', source_map_json redirects_json (it_redirects its)),
      (''excluded_map'', source_map_json (body_json tx) (it_excluded its)),
      (''duration'', duration_json (s_duration stats)), (''detailed_stats'', JBool (s_detailed_stats stats))]"

text \<open>\<open>OutputStats\<close>: the statistics of hosts stand beside the fields of the others, if they were asked for.\<close>

definition json_report ::
  "texts \<Rightarrow> 'f floats \<Rightarrow> ((u16 \<rightharpoonup> nat) \<Rightarrow> (u16 \<times> nat) list) \<Rightarrow> response_stats \<Rightarrow> iterations \<Rightarrow>
   (string \<times> host_stats) list option \<Rightarrow> 'f json" where
  "json_report tx fl codes stats its hosts = JObject (response_stats_json tx stats its @
     skip_none ''host_stats'' (\<lambda>hs. JObject (map (\<lambda>(host, s). (host, host_stats_json fl codes s)) hs)) hosts)"

section \<open>The formatters\<close>

text \<open>
  \<open>format\<close> of each formatter and \<open>get\_stats\_formatter\<close>, for the statistics of the hosts as they are; \<open>tables\<close> lays
  out the tables of the Markdown report, \<open>pretty\<close> prints JSON and \<open>xml\<close> the report of the junit crate.
\<close>

definition compact_format ::
  "report_env \<Rightarrow> 'f floats \<Rightarrow> output_mode \<Rightarrow> response_stats \<Rightarrow> iterations \<Rightarrow> (string \<times> host_stats) list option \<Rightarrow> glyphs" where
  "compact_format re fl mode stats its hosts =
     compact_response_stats re mode stats (it_errors its) (it_timeouts its) @ newline @ compact_host_stats re fl hosts"

definition detailed_format ::
  "report_env \<Rightarrow> 'f floats \<Rightarrow> output_mode \<Rightarrow> response_stats \<Rightarrow> iterations \<Rightarrow> (string \<times> host_stats) list option \<Rightarrow> glyphs" where
  "detailed_format re fl mode stats its hosts =
     detailed_response_stats re mode stats (it_errors its) (it_timeouts its) @ newline @ detailed_host_stats fl hosts"

definition markdown_format ::
  "report_env \<Rightarrow> 'f floats \<Rightarrow> ((glyphs \<times> nat) list \<Rightarrow> glyphs) \<times> (host_row list \<Rightarrow> glyphs) \<Rightarrow> response_stats \<Rightarrow> iterations \<Rightarrow>
   (string \<times> host_stats) list option \<Rightarrow> glyphs" where
  "markdown_format re fl tables stats its hosts =
     markdown_response_stats re (fst tables) stats (it_errors its) (it_timeouts its) (it_redirects its) (it_suggestions its) @
     newline @ markdown_host_stats fl (snd tables) hosts"

definition format_output ::
  "report_env \<Rightarrow> 'f floats \<Rightarrow> ((glyphs \<times> nat) list \<Rightarrow> glyphs) \<times> (host_row list \<Rightarrow> glyphs) \<Rightarrow> ((u16 \<rightharpoonup> nat) \<Rightarrow> (u16 \<times> nat) list) \<Rightarrow>
   ('f json \<Rightarrow> string + glyphs) \<Rightarrow> (test_case list \<Rightarrow> string + glyphs) \<Rightarrow> stats_format \<Rightarrow> output_mode \<Rightarrow>
   response_stats \<Rightarrow> iterations \<Rightarrow> (string \<times> host_stats) list option \<Rightarrow> string + glyphs" where
  "format_output re fl tables codes pretty xml format mode stats its hosts =
     (case format of
        Compact \<Rightarrow> Inr (compact_format re fl mode stats its hosts)
      | Detailed \<Rightarrow> Inr (detailed_format re fl mode stats its hosts)
      | Json \<Rightarrow> pretty (json_report (rp_texts re) fl codes stats its hosts)
      | Junit \<Rightarrow> xml (junit_testcases (rp_texts re) (it_errors its) (it_excluded its) (it_successes its))
      | MarkdownFormat \<Rightarrow> Inr (markdown_format re fl tables stats its hosts))"

text \<open>Only the JUnit report has nothing of the statistics of hosts, also if they were asked for.\<close>

lemma junit_without_hosts:
  "format_output re fl tables codes pretty xml Junit mode stats its hosts =
     format_output re fl tables codes pretty xml Junit mode stats its None"
  by (simp add: format_output_def)

section \<open>Reading it\<close>

text \<open>The values of a key, of which a parser may keep any, and the strings and numbers in a path of keys.\<close>

fun json_values :: "string \<Rightarrow> 'f json \<Rightarrow> 'f json list" where
  "json_values k (JObject members) = map snd (filter (\<lambda>(k', _). k' = k) members)"
| "json_values k _ = []"

fun json_keys :: "'f json \<Rightarrow> string list" where
  "json_keys (JObject members) = map fst members"
| "json_keys _ = []"

lemma duration_json_inj [simp]: "(duration_json a :: 'f json) = duration_json b \<longleftrightarrow> a = b"
proof
  assume "(duration_json a :: 'f json) = duration_json b"
  then have "a div 1000000000 = b div 1000000000" "a mod 1000000000 = b mod 1000000000" by (simp_all add: duration_json_def)
  then show "a = b" by (metis div_mult_mod_eq)
qed simp

lemma span_json_inj [simp]: "(span_json a :: 'f json) = span_json b \<longleftrightarrow> a = b"
  by (auto simp: span_json_def nullable_def split: option.splits)

lemma json_values_report:
  "json_values ''total'' (json_report tx fl codes stats its hosts) = [JNumber (s_total stats)]"
  "json_values ''successful'' (json_report tx fl codes stats its hosts) = [JNumber (s_successful stats)]"
  "json_values ''excludes'' (json_report tx fl codes stats its hosts) = [JNumber (s_excludes stats)]"
  "json_values ''unsupported'' (json_report tx fl codes stats its hosts) = [JNumber (s_unsupported stats)]"
  "json_values ''timeouts'' (json_report tx fl codes stats its hosts) = [JNumber (s_timeouts stats)]"
  "json_values ''errors'' (json_report tx fl codes stats its hosts) = [JNumber (s_errors stats)]"
  "json_values ''error_map'' (json_report tx fl codes stats its hosts) = [source_map_json (body_json tx) (it_errors its)]"
  "json_values ''timeout_map'' (json_report tx fl codes stats its hosts) = [source_map_json (body_json tx) (it_timeouts its)]"
  "json_values ''success_map'' (json_report tx fl codes stats its hosts) = [source_map_json (body_json tx) (it_successes its)]"
  "json_values ''excluded_map'' (json_report tx fl codes stats its hosts) = [source_map_json (body_json tx) (it_excluded its)]"
  by (simp_all add: json_report_def response_stats_json_def skip_none_def split: option.split)

lemma source_map_json_spec:
  assumes "enumerates m it"
  shows "length (json_keys (source_map_json f it)) = card (dom m)"
    and "m source = Some vs \<Longrightarrow> \<exists>ws. mset ws = mset vs \<and> JArray (map f ws) \<in> set (json_values (source_show source) (source_map_json f it))"
    and "distinct (json_keys (source_map_json f it)) \<longleftrightarrow> inj_on source_show (dom m)"
    and "json_keys (source_map_json f it) = [] \<longleftrightarrow> m = Map.empty"
proof -
  have it: "distinct (map fst it)" "fst ` set it = dom m" "\<And>k vs. (k, vs) \<in> set it \<Longrightarrow> mset vs = mset (the (m k))"
    using assms by (auto simp: enumerates_def)
  have keys: "json_keys (source_map_json f it) = map source_show (map fst it)"
    by (simp add: source_map_json_def case_prod_unfold comp_def)
  show "length (json_keys (source_map_json f it)) = card (dom m)"
    unfolding keys using distinct_card [OF it(1)] it(2) by simp
  show "distinct (json_keys (source_map_json f it)) \<longleftrightarrow> inj_on source_show (dom m)"
    unfolding keys distinct_map [of source_show] using it(1,2) by simp
  show "json_keys (source_map_json f it) = [] \<longleftrightarrow> m = Map.empty"
    unfolding keys using it(2) by (cases it) auto
  show "\<exists>ws. mset ws = mset vs \<and> JArray (map f ws) \<in> set (json_values (source_show source) (source_map_json f it))"
    if "m source = Some vs"
  proof -
    from that it(2) have "source \<in> fst ` set it" by auto
    then obtain ws where ws: "(source, ws) \<in> set it" by force
    with it(3) [OF ws] that show ?thesis by (force simp: source_map_json_def)
  qed
qed

section \<open>The cases of the JUnit report\<close>

text \<open>The test case of a response, by its outcome.\<close>

fun case_status_of :: "outcome \<Rightarrow> string \<Rightarrow> case_status" where
  "case_status_of Failed msg = FailureCase msg"
| "case_status_of Skipped msg = SkippedCase msg"
| "case_status_of _ msg = SuccessCase"

fun case_word :: "outcome \<Rightarrow> string" where
  "case_word Failed = ''Failed''"
| "case_word Skipped = ''Excluded''"
| "case_word _ = ''Successful''"

definition response_case :: "texts \<Rightarrow> response \<Rightarrow> test_case" where
  "response_case tx r =
     (let body = r_body r; k = outcome_of (r_status r) in
      \<lparr>tc_name = case_word k @ '' '' @ url_str (rb_uri body), tc_status = case_status_of k (body_show tx body),
       tc_time = rb_duration body, tc_file = source_show (r_source r), tc_line = map_option span_line (rb_span body),
       tc_system_out = body_show tx body\<rparr>)"

text \<open>The responses that differ, the first of each: equal ones of one input and outcome are kept once.\<close>

definition same_entry :: "response \<Rightarrow> response \<Rightarrow> bool" where
  "same_entry r r' \<longleftrightarrow> r_source r = r_source r' \<and> outcome_of (r_status r) = outcome_of (r_status r') \<and> body_eq (r_body r) (r_body r')"

definition different :: "response list \<Rightarrow> response list" where
  "different rs = fold (set_insert same_entry) rs []"

definition entries_of :: "outcome \<Rightarrow> response list \<Rightarrow> response list" where
  "entries_of k rs = filter (\<lambda>r. outcome_of (r_status r) = k) (different rs)"

definition bodies_for :: "input_source \<Rightarrow> response list \<Rightarrow> response_body list" where
  "bodies_for source ds = map r_body (filter (\<lambda>r. r_source r = source) ds)"

definition holds_entries :: "(input_source \<rightharpoonup> response_body list) \<Rightarrow> response list \<Rightarrow> bool" where
  "holds_entries m ds \<longleftrightarrow> (\<forall>source. m source = (if bodies_for source ds = [] then None else Some (bodies_for source ds)))"

lemma different_snoc: "different (rs @ [r]) = set_insert same_entry r (different rs)"
  by (simp add: different_def)

lemma entries_snoc: "entries_of k (rs @ [r]) =
  (if outcome_of (r_status r) = k \<and> \<not> (\<exists>r' \<in> set (entries_of k rs). r_source r' = r_source r \<and> body_eq (r_body r) (r_body r'))
   then entries_of k rs @ [r] else entries_of k rs)"
  by (auto simp: entries_of_def different_snoc set_insert_def same_entry_def)

lemma bodies_for_simps: "bodies_for source (ds @ [r]) = bodies_for source ds @ (if r_source r = source then [r_body r] else [])"
  by (simp add: bodies_for_def)

lemma bodies_for_set: "body \<in> set (bodies_for source ds) \<longleftrightarrow> (\<exists>r \<in> set ds. r_source r = source \<and> r_body r = body)"
  by (auto simp: bodies_for_def)

lemma holds_entries_insert:
  assumes "holds_entries m (entries_of k rs)" and "outcome_of (r_status r) = k"
  shows "holds_entries (map_insert body_eq (r_source r) (r_body r) m) (entries_of k (rs @ [r]))"
proof -
  have val: "(case m source of Some xs \<Rightarrow> xs | None \<Rightarrow> []) = bodies_for source (entries_of k rs)" for source
    using assms(1) by (simp add: holds_entries_def)
  have known: "(\<exists>y \<in> set (bodies_for (r_source r) (entries_of k rs)). body_eq (r_body r) y) \<longleftrightarrow>
      (\<exists>r' \<in> set (entries_of k rs). r_source r' = r_source r \<and> body_eq (r_body r) (r_body r'))"
    unfolding bodies_for_def by auto
  show ?thesis
  proof (cases "\<exists>r' \<in> set (entries_of k rs). r_source r' = r_source r \<and> body_eq (r_body r) (r_body r')")
    case True
    then have "entries_of k (rs @ [r]) = entries_of k rs" by (simp add: entries_snoc)
    moreover have "set_insert body_eq (r_body r) (bodies_for (r_source r) (entries_of k rs)) = bodies_for (r_source r) (entries_of k rs)"
      using True known by (simp add: set_insert_def)
    moreover have "bodies_for (r_source r) (entries_of k rs) \<noteq> []" using True known by auto
    ultimately show ?thesis using assms(1) by (auto simp: holds_entries_def map_insert_def)
  next
    case False
    then have "entries_of k (rs @ [r]) = entries_of k rs @ [r]" using assms(2) by (simp add: entries_snoc)
    moreover have "set_insert body_eq (r_body r) (bodies_for (r_source r) (entries_of k rs)) =
        bodies_for (r_source r) (entries_of k rs) @ [r_body r]"
      using False known by (simp add: set_insert_def)
    ultimately show ?thesis using assms(1) by (auto simp: holds_entries_def map_insert_def bodies_for_simps)
  qed
qed

lemma entries_other: "outcome_of (r_status r) \<noteq> k \<Longrightarrow> entries_of k (rs @ [r]) = entries_of k rs"
  by (simp add: entries_snoc)

text \<open>The maps of the statistics hold the different responses of their outcome.\<close>

lemma stats_add_by_outcome:
  "s_error_map (stats_add r s) = (if outcome_of (r_status r) = Failed then map_insert body_eq (r_source r) (r_body r) (s_error_map s) else s_error_map s)"
  "s_timeout_map (stats_add r s) = (if outcome_of (r_status r) = TimedOutCheck then map_insert body_eq (r_source r) (r_body r) (s_timeout_map s) else s_timeout_map s)"
  "s_excluded_map (stats_add r s) = (if outcome_of (r_status r) = Skipped then map_insert body_eq (r_source r) (r_body r) (s_excluded_map s) else s_excluded_map s)"
  "s_success_map (stats_add r s) = (if outcome_of (r_status r) = Passed \<and> s_detailed_stats s then map_insert body_eq (r_source r) (r_body r) (s_success_map s) else s_success_map s)"
  "s_detailed_stats (stats_add r s) = s_detailed_stats s"
  by (cases "outcome_of (r_status r)"; simp add: stats_add_def Let_def add_response_status_outcome increment_fields)+

lemma maps_hold_entries:
  assumes "stats = fold stats_add rs (if detailed then stats_extended else stats_default)"
  shows "holds_entries (s_error_map stats) (entries_of Failed rs) \<and> holds_entries (s_timeout_map stats) (entries_of TimedOutCheck rs) \<and>
    holds_entries (s_excluded_map stats) (entries_of Skipped rs) \<and>
    holds_entries (s_success_map stats) (if detailed then entries_of Passed rs else []) \<and> s_detailed_stats stats = detailed"
  unfolding assms
proof (induction rs rule: rev_induct)
  case Nil
  show ?case by (simp add: holds_entries_def entries_of_def different_def bodies_for_def stats_default_def stats_extended_def)
next
  case (snoc r rs)
  then show ?case
    by (cases "outcome_of (r_status r)") (auto simp: stats_add_by_outcome holds_entries_insert entries_other)
qed

lemma group_cases:
  assumes "distinct (map fst it)" and "fst ` set it = r_source ` set ds"
    and "\<And>source vs. (source, vs) \<in> set it \<Longrightarrow> mset vs = mset (bodies_for source ds)"
  shows "mset (concat (map (\<lambda>(source, bodies). map (f source) bodies) it)) = image_mset (\<lambda>r. f (r_source r) (r_body r)) (mset ds)"
  using assms
proof (induction it arbitrary: ds)
  case Nil
  then show ?case by simp
next
  case (Cons e it)
  obtain source vs where e: "e = (source, vs)" by force
  let ?rest = "filter (\<lambda>r. r_source r \<noteq> source) ds"
  have other: "source' \<noteq> source" if "(source', ws) \<in> set it" for source' ws
    using Cons.prems(1) that e by force
  have "mset (concat (map (\<lambda>(source, bodies). map (f source) bodies) it)) = image_mset (\<lambda>r. f (r_source r) (r_body r)) (mset ?rest)"
  proof (rule Cons.IH)
    show "distinct (map fst it)" using Cons.prems(1) by simp
    show "fst ` set it = r_source ` set ?rest"
    proof -
      have "source \<notin> fst ` set it" using Cons.prems(1) e by simp
      then have "fst ` set it = r_source ` set ds - {source}" using Cons.prems(2) e by auto
      then show ?thesis by auto
    qed
    show "mset ws = mset (bodies_for source' ?rest)" if "(source', ws) \<in> set it" for source' ws
    proof -
      have "bodies_for source' ?rest = bodies_for source' ds"
        using other [OF that] by (auto simp: bodies_for_def intro!: arg_cong [of _ _ "map r_body"] filter_cong)
      with Cons.prems(3) [of source' ws] that show ?thesis by simp
    qed
  qed
  moreover have "image_mset (f source) (mset vs) = image_mset (\<lambda>r. f (r_source r) (r_body r)) (mset (filter (\<lambda>r. r_source r = source) ds))"
    using Cons.prems(3) [of source vs] e
    by (auto simp: bodies_for_def image_mset.compositionality comp_def intro!: image_mset_cong)
  moreover have "mset ds = mset (filter (\<lambda>r. r_source r = source) ds) + mset ?rest"
    unfolding mset_filter by (rule multiset_partition)
  then have "image_mset g (mset ds) = image_mset g (mset (filter (\<lambda>r. r_source r = source) ds)) + image_mset g (mset ?rest)"
    for g :: "response \<Rightarrow> 'a" by (metis image_mset_union)
  ultimately show ?case using e by simp
qed

lemma enumerated_cases:
  assumes "enumerates m it" and "holds_entries m (entries_of k rs)" and "k \<in> {Failed, Skipped, Passed}"
  shows "mset (junit_testcases_group tx it (case_status_of k []) (case_word k)) =
    image_mset (response_case tx) (mset (entries_of k rs))"
proof -
  let ?f = "\<lambda>source body. \<lparr>tc_name = case_word k @ '' '' @ url_str (rb_uri body), tc_status = case_status_of k (body_show tx body),
       tc_time = rb_duration body, tc_file = source_show source, tc_line = map_option span_line (rb_span body),
       tc_system_out = body_show tx body\<rparr>"
  have "set_message msg (case_status_of k []) = case_status_of k msg" for msg
    using assms(3) by auto
  then have "junit_testcases_group tx it (case_status_of k []) (case_word k) = concat (map (\<lambda>(source, bodies). map (?f source) bodies) it)"
    by (simp add: junit_testcases_group_def)
  also have "mset \<dots> = image_mset (\<lambda>r. ?f (r_source r) (r_body r)) (mset (entries_of k rs))"
  proof (rule group_cases)
    show "distinct (map fst it)" using assms(1) by (simp add: enumerates_def)
    have "m source \<noteq> None \<longleftrightarrow> source \<in> r_source ` set (entries_of k rs)" for source
      using assms(2) by (auto simp: holds_entries_def bodies_for_def filter_empty_conv)
    then have "dom m = r_source ` set (entries_of k rs)" by auto
    then show "fst ` set it = r_source ` set (entries_of k rs)" using assms(1) by (simp add: enumerates_def)
    show "mset vs = mset (bodies_for source (entries_of k rs))" if "(source, vs) \<in> set it" for source vs
    proof -
      have "source \<in> dom m" using assms(1) that by (force simp: enumerates_def)
      with assms(2) have "the (m source) = bodies_for source (entries_of k rs)" by (auto simp: holds_entries_def split: if_splits)
      with assms(1) that show ?thesis by (auto simp: enumerates_def)
    qed
  qed
  also have "\<dots> = image_mset (response_case tx) (mset (entries_of k rs))"
    by (rule image_mset_cong) (auto simp: response_case_def Let_def entries_of_def)
  finally show ?thesis .
qed

lemma different_subset: "set (different rs) \<subseteq> set rs"
  by (induction rs rule: rev_induct) (auto simp: different_snoc set_insert_def different_def)

lemma timed_out_kept:
  assumes "stats = fold stats_add rs (if detailed then stats_extended else stats_default)"
    and "r \<in> set rs" "outcome_of (r_status r) = TimedOutCheck"
  shows "s_timeout_map stats \<noteq> Map.empty"
  using assms(2,3) unfolding assms(1)
proof (induction rs rule: rev_induct)
  case (snoc r' rs)
  then show ?case by (auto simp: stats_add_by_outcome map_insert_def)
qed simp

fun is_failure :: "test_case \<Rightarrow> bool" where
  "is_failure tc = (case tc_status tc of FailureCase _ \<Rightarrow> True | _ \<Rightarrow> False)"

lemma response_case_failure: "is_failure (response_case tx r) \<longleftrightarrow> outcome_of (r_status r) = Failed"
  by (cases "outcome_of (r_status r)") (simp_all add: response_case_def Let_def)

lemma junit_cases_of_responses:
  assumes "stats = fold stats_add rs (if detailed then stats_extended else stats_default)"
    and "enumerates (s_error_map stats) errors" "enumerates (s_excluded_map stats) excluded" "enumerates (s_success_map stats) successes"
  shows "mset (junit_testcases tx errors excluded successes) = image_mset (response_case tx)
    (mset (entries_of Failed rs) + mset (entries_of Skipped rs) + mset (if detailed then entries_of Passed rs else []))"
proof -
  note maps = maps_hold_entries [OF assms(1)]
  have "mset (junit_testcases_group tx successes SuccessCase ''Successful'') =
      image_mset (response_case tx) (mset (if detailed then entries_of Passed rs else []))"
  proof (cases detailed)
    case True
    with enumerated_cases [OF assms(4), of Passed rs tx] maps show ?thesis by simp
  next
    case False
    with maps have "s_success_map stats = Map.empty" by (auto simp: holds_entries_def bodies_for_def)
    with assms(4) have "successes = []" by (simp add: enumerates_def)
    with False show ?thesis by (simp add: junit_testcases_group_def)
  qed
  with enumerated_cases [OF assms(2), of Failed rs tx] enumerated_cases [OF assms(3), of Skipped rs tx] maps
  show ?thesis by (simp add: junit_testcases_def)
qed

section \<open>Properties\<close>

definition mirrors :: "texts \<Rightarrow> 'f json \<Rightarrow> (input_source \<rightharpoonup> response_body list) \<Rightarrow> bool" where
  "mirrors tx v m \<longleftrightarrow> length (json_keys v) = card (dom m) \<and> (distinct (json_keys v) \<longleftrightarrow> inj_on source_show (dom m)) \<and>
     (\<forall>source bodies. m source = Some bodies \<longrightarrow>
       (\<exists>bs. mset bs = mset bodies \<and> JArray (map (body_json tx) bs) \<in> set (json_values (source_show source) v)))"

lemma source_map_mirrors: "enumerates m it \<Longrightarrow> mirrors tx (source_map_json (body_json tx) it :: 'f json) m"
  using source_map_json_spec [of m it, where f = "body_json tx :: _ \<Rightarrow> 'f json"] by (simp add: mirrors_def)

text \<open>C34: The JSON report has what the statistics have: for every input with responses of a kind there is a member
  whose array has each of them, whatever the order in which the maps are iterated, so that the exit code of
  the check can be read off the report.  The keys are the texts of the inputs: they are different exactly if
  no two inputs of the map print alike.
\<close>

theorem json_report_complete:
  fixes fl :: "'f floats"
  assumes "enumerates (s_error_map stats) (it_errors its)" "enumerates (s_timeout_map stats) (it_timeouts its)"
    and "enumerates (s_success_map stats) (it_successes its)" "enumerates (s_excluded_map stats) (it_excluded its)"
  shows "\<exists>errors timeouts successes excluded.
    json_values ''error_map'' (json_report tx fl codes stats its hosts) = [errors] \<and> mirrors tx errors (s_error_map stats) \<and>
    json_values ''timeout_map'' (json_report tx fl codes stats its hosts) = [timeouts] \<and> mirrors tx timeouts (s_timeout_map stats) \<and>
    json_values ''success_map'' (json_report tx fl codes stats its hosts) = [successes] \<and> mirrors tx successes (s_success_map stats) \<and>
    json_values ''excluded_map'' (json_report tx fl codes stats its hosts) = [excluded] \<and> mirrors tx excluded (s_excluded_map stats) \<and>
    (check_exit_code accept_timeouts stats = Success \<longleftrightarrow>
      json_keys errors = [] \<and> (accept_timeouts \<or> json_keys timeouts = []))"
  using source_map_json_spec(4) [OF assms(1), where f = "body_json tx :: _ \<Rightarrow> 'f json"]
    source_map_json_spec(4) [OF assms(2), where f = "body_json tx :: _ \<Rightarrow> 'f json"]
  by (simp add: assms [THEN source_map_mirrors] json_values_report check_exit_code_def stats_is_success_def stats_is_success_ignoring_timeouts_def)

lemma redirects_json_show: "(redirects_json a :: 'f json) = redirects_json b \<Longrightarrow> redirects_show a = redirects_show b"
proof -
  assume "(redirects_json a :: 'f json) = redirects_json b"
  then have origin: "url_str (rds_origin a) = url_str (rds_origin b)"
    and steps: "map (redirect_json :: _ \<Rightarrow> 'f json) (rds_redirects a) = map redirect_json (rds_redirects b)"
    by (simp_all add: redirects_json_def url_json_def)
  let ?step = "\<lambda>acc x. acc @ '' --['' @ show_nat (unat (rd_code x)) @ '']--> '' @ url_str (rd_url x)"
  have folds: "foldl ?step acc xs = foldl ?step acc ys" if "map (redirect_json :: _ \<Rightarrow> 'f json) xs = map redirect_json ys" for acc xs ys
    using that
  proof (induction xs arbitrary: acc ys)
    case (Cons x xs)
    then obtain y ys' where ys: "ys = y # ys'" by (cases ys) auto
    have "url_str (rd_url x) = url_str (rd_url y)" "unat (rd_code x) = unat (rd_code y)"
      using Cons.prems ys by (simp_all add: redirect_json_def url_json_def)
    moreover have "foldl ?step acc' xs = foldl ?step acc' ys'" for acc'
      using Cons.IH Cons.prems ys by simp
    ultimately show ?case using ys by simp
  qed simp
  show ?thesis unfolding redirects_show_def origin by (rule folds [OF steps])
qed

lemma status_json_inj:
  "(status_json tx a :: 'f json) = status_json tx b \<longleftrightarrow> status_serialize tx a = status_serialize tx b"
  by (auto simp: status_json_def word_unat_eq_iff split: prod.splits sum.splits)

lemma skip_none_fields:
  "filter (\<lambda>(k', _). k' = k) (skip_none name f v) = (if k = name then skip_none name f v else [])"
  by (auto simp: skip_none_def split: option.splits)

lemma body_json_values:
  "json_values ''url'' (body_json tx a) = [url_json (rb_uri a)]"
  "json_values ''status'' (body_json tx a) = [status_json tx (rb_status a)]"
  "json_values ''redirects'' (body_json tx a) = map snd (skip_none ''redirects'' redirects_json (rb_redirects a))"
  "json_values ''remap'' (body_json tx a) = map snd (skip_none ''remap'' remap_json (rb_remap a))"
  "json_values ''span'' (body_json tx a) = map snd (skip_none ''span'' span_json (rb_span a))"
  "json_values ''duration'' (body_json tx a) = map snd (skip_none ''duration'' duration_json (rb_duration a))"
  by (simp_all add: body_json_def skip_none_fields)

text \<open>The JSON of a response determines its URL, its status as it is printed with its code or its details, its
  position and duration, and its redirects and remapping as they are printed.
\<close>

theorem json_body_determines:
  assumes "(body_json tx a :: 'f json) = body_json tx b"
  shows "url_str (rb_uri a) = url_str (rb_uri b) \<and> status_serialize tx (rb_status a) = status_serialize tx (rb_status b) \<and>
    rb_span a = rb_span b \<and> rb_duration a = rb_duration b \<and>
    map_option redirects_show (rb_redirects a) = map_option redirects_show (rb_redirects b) \<and>
    map_option remap_show (rb_remap a) = map_option remap_show (rb_remap b)"
proof -
  have same: "json_values k (body_json tx a :: 'f json) = json_values k (body_json tx b)" for k
    using assms by simp
  from same [of "''url''"] same [of "''status''"] same [of "''span''"] same [of "''duration''"]
    same [of "''redirects''"] same [of "''remap''"]
  show ?thesis unfolding body_json_values
    by (auto simp: url_json_def status_json_inj skip_none_def remap_json_def remap_show_def
        split: option.splits dest: redirects_json_show)
qed

text \<open>C39: The JUnit report of the responses of a run has one test case for each different one that was an error,
  excluded or, if details are asked for, successful, with its outcome, and no case at all for a link that
  timed out: where only timeouts fail a run, its exit code is that of a failed check and no test case fails.
\<close>

theorem junit_leaves_out_timeouts:
  assumes "stats = fold stats_add rs (if detailed then stats_extended else stats_default)"
    and "enumerates (s_error_map stats) (it_errors its)" "enumerates (s_excluded_map stats) (it_excluded its)"
    and "enumerates (s_success_map stats) (it_successes its)"
  shows "\<exists>cases. format_output re fl tables codes pretty xml Junit mode stats its hosts = xml cases \<and>
    mset cases = image_mset (response_case (rp_texts re))
      {# r \<in># mset (different rs). outcome_of (r_status r) \<in> {Failed, Skipped} \<or> outcome_of (r_status r) = Passed \<and> detailed #} \<and>
    ((\<exists>r \<in> set rs. outcome_of (r_status r) = TimedOutCheck) \<longrightarrow> check_exit_code False stats = LinkCheckFailure) \<and>
    ((\<forall>r \<in> set rs. outcome_of (r_status r) \<noteq> Failed) \<longrightarrow> (\<forall>tc \<in> set cases. \<not> is_failure tc))"
proof -
  let ?cases = "junit_testcases (rp_texts re) (it_errors its) (it_excluded its) (it_successes its)"
  let ?kept = "{# r \<in># mset (different rs). outcome_of (r_status r) \<in> {Failed, Skipped} \<or> outcome_of (r_status r) = Passed \<and> detailed #}"
  have "mset (entries_of Failed rs) + mset (entries_of Skipped rs) + mset (if detailed then entries_of Passed rs else []) = ?kept"
    by (simp add: multiset_eq_iff entries_of_def mset_filter)
  with junit_cases_of_responses [OF assms] have mset: "mset ?cases = image_mset (response_case (rp_texts re)) ?kept" by simp
  have "check_exit_code False stats = LinkCheckFailure" if "r \<in> set rs" "outcome_of (r_status r) = TimedOutCheck" for r
  proof -
    have "s_timeout_map stats \<noteq> Map.empty" using that timed_out_kept [OF assms(1)] by blast
    then show ?thesis by (simp add: check_exit_code_def stats_is_success_def)
  qed
  moreover have "\<not> is_failure tc" if "\<forall>r \<in> set rs. outcome_of (r_status r) \<noteq> Failed" "tc \<in> set ?cases" for tc
  proof -
    from that(2) mset have "tc \<in># image_mset (response_case (rp_texts re)) ?kept" by (metis set_mset_mset)
    then obtain r where "r \<in> set (different rs)" "tc = response_case (rp_texts re) r" by auto
    with different_subset [of rs] that(1) show ?thesis by (auto simp: response_case_failure simp del: is_failure.simps)
  qed
  ultimately show ?thesis using mset by (intro exI [of _ ?cases]) (auto simp: format_output_def)
qed

section \<open>Instances\<close>

definition no_floats :: "unit floats" where
  "no_floats = \<lparr>fl_ratio = (\<lambda>_ _. ()), fl_zero = (), fl_one = (), fl_times_100 = id, fl_positive = (\<lambda>_. False),
     fl_to_u64 = (\<lambda>_. 0), fl_show = (\<lambda>_. [])\<rparr>"

definition failed_body :: response_body where
  "failed_body = \<lparr>rb_uri = domain_url ''https'' ''a.org'' ''/'', rb_status = StError (RejectedStatusCode 404), rb_redirects = None,
     rb_remap = None, rb_span = Some \<lparr>span_line = 1, span_column = None\<rparr>, rb_duration = Some 1500000000\<rparr>"

text \<open>Standard input and a file named \<open>stdin\<close> give the report two members with one key.\<close>

theorem json_report_complete_witness:
  "let entries = [(Stdin, [failed_body]), (FsPath [''stdin''], [failed_body])];
     stats = stats_default\<lparr>s_error_map := map_of entries\<rparr>;
     its = \<lparr>it_errors = entries, it_timeouts = [], it_excluded = [], it_successes = [], it_redirects = [], it_suggestions = []\<rparr>;
     report = json_report sample_texts no_floats (\<lambda>_. []) stats its None
   in \<exists>errors. json_values ''error_map'' report = [errors] \<and> json_keys errors = [''stdin'', ''stdin''] \<and>
     check_exit_code True stats \<noteq> Success \<and> mirrors sample_texts errors (s_error_map stats)"
proof -
  have stdin_file: "path_show [''stdin''] = ''stdin''" by code_simp
  let ?entries = "[(Stdin, [failed_body]), (FsPath [''stdin''], [failed_body])]"
  let ?stats = "stats_default\<lparr>s_error_map := map_of ?entries\<rparr>"
  let ?its = "\<lparr>it_errors = ?entries, it_timeouts = [], it_excluded = [], it_successes = [], it_redirects = [], it_suggestions = []\<rparr>"
  let ?report = "json_report sample_texts no_floats (\<lambda>_. []) ?stats ?its None"
  have "enumerates (s_error_map ?stats) (it_errors ?its)" "enumerates (s_timeout_map ?stats) (it_timeouts ?its)"
    "enumerates (s_success_map ?stats) (it_successes ?its)" "enumerates (s_excluded_map ?stats) (it_excluded ?its)"
    by (auto simp: enumerates_def stats_default_def)
  from json_report_complete [OF this, of sample_texts no_floats "\<lambda>_. []" None True]
  obtain errors where e: "json_values ''error_map'' ?report = [errors]" "mirrors sample_texts errors (s_error_map ?stats)"
      "check_exit_code True ?stats = Success \<longleftrightarrow> json_keys errors = []"
    by blast
  moreover have "json_keys errors = [''stdin'', ''stdin'']"
    using e(1) by (auto simp: json_values_report source_map_json_def stdin_file)
  ultimately show ?thesis by (simp add: Let_def)
qed

text \<open>An error and a timeout of one input: one case for the two.\<close>

theorem junit_leaves_out_timeouts_witness:
  "let rs = [\<lparr>r_source = Stdin, r_body = sample_body (StError (RejectedStatusCode 404))\<rparr>,
       \<lparr>r_source = Stdin, r_body = sample_body (StTimeout None)\<rparr>];
     stats = fold stats_add rs stats_default;
     its = \<lparr>it_errors = [(Stdin, [sample_body (StError (RejectedStatusCode 404))])], it_timeouts = [(Stdin, [sample_body (StTimeout None)])],
       it_excluded = [], it_successes = [], it_redirects = [], it_suggestions = []\<rparr>
   in format_output printing no_floats (\<lambda>_. [], \<lambda>_. []) (\<lambda>_. []) (\<lambda>_. Inr []) (\<lambda>cases. Inl (show_nat (length cases)))
       Junit PlainMode stats its None = Inl (show_nat 1) \<and> check_exit_code False stats = LinkCheckFailure"
proof -
  let ?error = "\<lparr>r_source = Stdin, r_body = sample_body (StError (RejectedStatusCode 404))\<rparr>"
  let ?timeout = "\<lparr>r_source = Stdin, r_body = sample_body (StTimeout None)\<rparr>"
  let ?its = "\<lparr>it_errors = [(Stdin, [r_body ?error])], it_timeouts = [(Stdin, [r_body ?timeout])],
       it_excluded = [], it_successes = [], it_redirects = [], it_suggestions = []\<rparr>"
  let ?stats = "fold stats_add [?error, ?timeout] stats_default"
  have outcomes: "outcome_of (r_status ?error) = Failed" "outcome_of (r_status ?timeout) = TimedOutCheck"
    by (simp_all add: sample_body_def)
  have start: "?stats = fold stats_add [?error, ?timeout] (if False then stats_extended else stats_default)" by simp
  have maps: "s_error_map ?stats = [Stdin \<mapsto> [r_body ?error]]" "s_excluded_map ?stats = Map.empty" "s_success_map ?stats = Map.empty"
    using outcomes by (simp_all add: stats_add_by_outcome map_insert_def set_insert_def) (simp_all add: stats_default_def)
  have its: "enumerates (s_error_map ?stats) (it_errors ?its)" "enumerates (s_excluded_map ?stats) (it_excluded ?its)"
    "enumerates (s_success_map ?stats) (it_successes ?its)"
    unfolding maps by (simp_all add: enumerates_def)
  obtain cases where cases: "format_output printing no_floats (\<lambda>_. [], \<lambda>_. []) (\<lambda>_. []) (\<lambda>_. Inr []) (\<lambda>cases. Inl (show_nat (length cases)))
       Junit PlainMode ?stats ?its None = Inl (show_nat (length cases))"
     "mset cases = image_mset (response_case (rp_texts printing))
       {# r \<in># mset (different [?error, ?timeout]). outcome_of (r_status r) \<in> {Failed, Skipped} \<or> outcome_of (r_status r) = Passed \<and> False #}"
     "(\<exists>r \<in> set [?error, ?timeout]. outcome_of (r_status r) = TimedOutCheck) \<longrightarrow> check_exit_code False ?stats = LinkCheckFailure"
    using junit_leaves_out_timeouts [OF start its, of printing no_floats "(\<lambda>_. [], \<lambda>_. [])" "\<lambda>_. []" "\<lambda>_. Inr []"
      "\<lambda>cases. Inl (show_nat (length cases))" PlainMode None] by blast
  have "different [?error, ?timeout] = [?error, ?timeout]"
    using outcomes by (simp add: different_def set_insert_def same_entry_def)
  with cases(2) outcomes have "size (mset cases) = 1" by (simp add: sample_body_def)
  then have "length cases = 1" by simp
  moreover have "\<exists>r \<in> set [?error, ?timeout]. outcome_of (r_status r) = TimedOutCheck" using outcomes(2) by auto
  ultimately show ?thesis using cases(1,3) unfolding Let_def response.simps by metis
qed

text \<open>Two responses that differ only in a URL that is printed alike have the same JSON.\<close>

theorem json_body_determines_witness:
  "let other = failed_body\<lparr>rb_uri := (rb_uri failed_body)\<lparr>url_path := ''/x''\<rparr>\<rparr>
   in other \<noteq> failed_body \<and> (body_json sample_texts other :: unit json) = body_json sample_texts failed_body \<and>
     rb_span other = Some \<lparr>span_line = 1, span_column = None\<rparr>"
proof -
  let ?other = "failed_body\<lparr>rb_uri := (rb_uri failed_body)\<lparr>url_path := ''/x''\<rparr>\<rparr>"
  have same: "(body_json sample_texts ?other :: unit json) = body_json sample_texts failed_body"
    by (simp add: body_json_def url_json_def)
  have "?other \<noteq> failed_body" by (simp add: failed_body_def domain_url_def)
  with json_body_determines [OF same] same show ?thesis by (simp add: Let_def failed_body_def)
qed

end
