(* ===== verification/Run.thy ===== *)
theory Run
  imports Program Json
begin

text \<open>
  A run of the program from its options to its exit code (\<open>lychee-bin/src/main.rs\<close>): what \<open>run\<close> loads and builds
  before a command, the commands of \<open>commands/check.rs\<close> and \<open>commands/dump.rs\<close> around it, and which errors end
  the process with which code.
\<close>

section \<open>Errors of I/O\<close>

text \<open>
  The kind of the first I/O error among an error and its sources.  \<open>octo\<close> looks for it in an error of octocrab.
  The errors that the model holds as a text have none of writing, and only these can be a broken pipe.
\<close>

fun first_io :: "error_source list \<Rightarrow> io_kind option" where
  "first_io [] = None"
| "first_io (IoSource e # _) = Some (io_kind_of e)"
| "first_io (_ # rest) = first_io rest"

fun kind_io :: "(octo_error \<Rightarrow> io_kind option) \<Rightarrow> error_kind \<Rightarrow> io_kind option" where
  "kind_io octo (NetworkRequest e) = first_io (re_sources e)"
| "kind_io octo (ReadResponseBody e) = first_io (re_sources e)"
| "kind_io octo (BuildRequestClient e) = first_io (re_sources e)"
| "kind_io octo (GithubRequest e) = octo e"
| "kind_io octo (BuildGithubClient e) = octo e"
| "kind_io octo (ReadFileInput e _) = Some (io_kind_of e)"
| "kind_io octo (ReadStdinInput e) = Some (io_kind_of e)"
| "kind_io octo _ = None"

fun underlying_io_error_kind :: "(octo_error \<Rightarrow> io_kind option) \<Rightarrow> any_error \<Rightarrow> io_kind option" where
  "underlying_io_error_kind octo (AnyText _) = None"
| "underlying_io_error_kind octo (AnyKind e) = kind_io octo e"
| "underlying_io_error_kind octo (AnyIo e) = Some (io_kind_of e)"
| "underlying_io_error_kind octo (AnyContext _ e) = underlying_io_error_kind octo e"

section \<open>Before the command\<close>

record ('c, 'w, 'k, 'v) run_env =
  rn_program :: "('c, 'w) program_env"
  rn_inputs :: input_env
  rn_open :: open_file
  rn_cookies :: "('k, 'v) cookie_env"
  rn_writers :: writers
  rn_outputs :: "'v outputs"
  rn_cache_file :: "(duration option \<times> string list list) option"
  rn_parse_uri :: "string \<Rightarrow> uri option"
  rn_now :: u64
  rn_checks :: bool
  rn_terminal :: bool
  rn_html5ever :: bool

record ('c, 'w, 'k) prepared =
  pd_client :: "('c, 'w) client"
  pd_pool :: "'c host_pool"
  pd_cache :: cache
  pd_collector :: collector
  pd_inputs :: "input list"
  pd_is_stdin_input :: bool
  pd_cookies :: "'k cookie_jar option"

definition is_stdin_input :: "bool \<Rightarrow> input list \<Rightarrow> bool" where
  "is_stdin_input terminal inputs \<longleftrightarrow> length inputs = 1 \<and> (\<exists>input \<in> set inputs. in_source input = Stdin) \<and> terminal"

definition cookie_context :: "path option \<Rightarrow> string" where
  "cookie_context path = ''Cannot load cookie jar from path `'' @
     (case path of None \<Rightarrow> ''<none>'' | Some p \<Rightarrow> path_show p) @ ''`''"

text \<open>\<open>--dump-inputs\<close> ends the run before anything else is loaded.\<close>

definition prepare ::
  "('c, 'w, 'k, 'v) run_env \<Rightarrow> 'v \<Rightarrow> lychee_options \<Rightarrow> (any_error + exit_code + ('c, 'w, 'k) prepared) eval" where
  "prepare re w opts =
     (let cfg = lo_config opts; pe = rn_program re in
      case options_inputs (rn_inputs re) (rn_open re) opts of
        Inl e \<Rightarrow> Value (Inl e)
      | Inr inputs \<Rightarrow>
          if cfg_dump_inputs cfg then
            Value (res_bind (map_err AnyKind (fst (dump_inputs (rn_inputs re) (rn_writers re) inputs (cf_output cfg)
                (cf_exclude_path cfg) (cfg_extensions cfg) (\<not> cfg_hidden cfg) (\<not> cfg_no_ignore cfg)))) (\<lambda>code. Inr (Inl code)))
          else
            eval_bind (load_cache (rn_checks re) (pe_http pe) (rn_parse_uri re) (cfg_cache cfg) (cfg_max_cache_age cfg)
                (cfg_cache_exclude_status cfg) (rn_now re) (rn_cache_file re)) (\<lambda>cache.
            case load_cookie_jar (rn_cookies re) w (cf_cookie_jar cfg) of
              Inl e \<Rightarrow> Value (Inl (AnyContext (cookie_context (cf_cookie_jar cfg)) (AnyKind e)))
            | Inr jar \<Rightarrow>
                eval_bind (create pe (jar \<noteq> None) cfg) (\<lambda>client. Value (
                  res_bind client (\<lambda>(client, pool).
                  res_bind (create_collector pe (rn_html5ever re) cfg) (\<lambda>collector.
                    Inr (Inr \<lparr>pd_client = client, pd_pool = pool,
                      pd_cache = (case cache of Some c \<Rightarrow> c | None \<Rightarrow> Map.empty), pd_collector = collector,
                      pd_inputs = inputs, pd_is_stdin_input = is_stdin_input (rn_terminal re) inputs,
                      pd_cookies = jar\<rparr>)))))))"

section \<open>The command\<close>

text \<open>
  The end of \<open>check\<close>: \<open>tasks\<close> is what the tasks give (\<open>CheckPipeline.check\_result\<close>, and the cache they leave);
  \<open>order\<close> is that in which the failed links are looked up in the archive.
\<close>

definition check_end ::
  "url_crate \<Rightarrow> wayback_api \<Rightarrow> input_source list \<Rightarrow> nat \<Rightarrow> config \<Rightarrow> error_kind + response_stats \<times> (uri \<times> cache_value) list \<Rightarrow>
   error_kind + response_stats \<times> (uri \<times> cache_value) list" where
  "check_end uc api order elapsed cfg tasks =
     res_bind tasks (\<lambda>(stats, cache).
       let stats = stats\<lparr>s_duration := elapsed\<rparr>;
           stats = (if cfg_suggest cfg then suggest_archived_links uc api (cfg_timeout cfg) order stats else stats)
       in Inr (stats, cache))"

text \<open>
  What the rest of a run depends on: the links that the collector gives, the outcome of the tasks of a check,
  the time it took, and the crates behind.
\<close>

record ('c, 'w) command_env =
  cm_client :: "('c, 'w) client_env"
  cm_writers :: writers
  cm_urls :: url_crate
  cm_archive :: wayback_api
  cm_order :: "input_source list"
  cm_elapsed :: nat
  cm_requests :: "(request_error + request) list"
  cm_tasks :: "error_kind + response_stats \<times> (uri \<times> cache_value) list"

definition run_command :: "('c, 'w) command_env \<Rightarrow> config \<Rightarrow> ('c, 'w) client \<Rightarrow> command_result" where
  "run_command cm cfg client =
     (if cfg_dump cfg then Dumped (map_err AnyKind (fst (dump (cm_client cm) client (cm_writers cm) cfg (cm_requests cm))))
      else Checked (check_end (cm_urls cm) (cm_archive cm) (cm_order cm) (cm_elapsed cm) cfg (cm_tasks cm)))"

definition main_run ::
  "('c, 'w, 'k, 'v) run_env \<Rightarrow> (('c, 'w, 'k) prepared \<Rightarrow> ('c, 'w) command_env) \<Rightarrow> (response_stats \<Rightarrow> string + glyphs) \<Rightarrow> 'v \<Rightarrow>
   lychee_options \<Rightarrow> ((any_error + int) \<times> 'v) eval" where
  "main_run re cm format w opts =
     eval_bind (prepare re w opts) (\<lambda>stage. Value (
       case stage of
         Inl e \<Rightarrow> (Inl e, w)
       | Inr (Inl code) \<Rightarrow> (Inr (exit_value code), w)
       | Inr (Inr pd) \<Rightarrow> run_exit (rn_outputs re) (rn_cookies re) format (pd_cookies pd) (lo_config opts)
           (run_command (cm pd) (lo_config opts) (pd_client pd)) w))"

section \<open>Properties\<close>

lemma run_command_codes: "run_command cm cfg client = Dumped (Inr c) \<Longrightarrow> c \<in> {Success, UnexpectedFailure}"
  by (auto simp: run_command_def dest: dump_codes split: if_splits)

lemma prepare_codes: "prepare re w opts = Value (Inr (Inl c)) \<Longrightarrow> c = Success"
  by (auto simp: prepare_def Let_def eval_bind_def res_bind_Inr_conv dest: dump_inputs_codes split: sum.splits if_splits eval.splits)

lemma prepare_outputs [simp]: "prepare (re\<lparr>rn_outputs := ou\<rparr>) w opts = prepare re w opts"
  by (cases re, hypsubst, unfold prepare_def run_env.simps, rule refl)

text \<open>Neither the time nor the suggestions change the outcome of a check.\<close>

lemma check_end_exit:
  assumes "check_end uc api order elapsed cfg tasks = Inr (stats', cache)"
  shows "\<exists>stats. tasks = Inr (stats, cache) \<and> check_exit_code a stats' = check_exit_code a stats"
proof -
  obtain stats where tasks: "tasks = Inr (stats, cache)"
    and stats': "stats' = (if cfg_suggest cfg then suggest_archived_links uc api (cfg_timeout cfg) order (stats\<lparr>s_duration := elapsed\<rparr>)
      else stats\<lparr>s_duration := elapsed\<rparr>)"
    using assms by (auto simp: check_end_def res_bind_Inr_conv Let_def)
  have "check_exit_code a stats' = check_exit_code a (stats\<lparr>s_duration := elapsed\<rparr>)"
    unfolding stats' using suggest_fold_keeps by (simp add: suggest_archived_links_def)
  with tasks show ?thesis
    by (simp add: check_exit_code_def stats_is_success_def stats_is_success_ignoring_timeouts_def)
qed

definition failed_check ::
  "('c, 'w, 'k, 'v) run_env \<Rightarrow> (('c, 'w, 'k) prepared \<Rightarrow> ('c, 'w) command_env) \<Rightarrow> 'v \<Rightarrow> lychee_options \<Rightarrow> bool" where
  "failed_check re cm w opts \<longleftrightarrow> \<not> cfg_dump (lo_config opts) \<and>
     (\<exists>pd stats cache. prepare re w opts = Value (Inr (Inr pd)) \<and> cm_tasks (cm pd) = Inr (stats, cache) \<and>
       check_exit_code (cfg_accept_timeouts (lo_config opts)) stats = LinkCheckFailure)"

lemma main_run_checked:
  assumes "prepare re w opts = Value (Inr (Inr pd))" and "\<not> cfg_dump (lo_config opts)"
    and "main_run re cm format w opts = Value (Inr code, w')"
  shows "\<exists>stats cache. cm_tasks (cm pd) = Inr (stats, cache) \<and>
    code = exit_value (check_exit_code (cfg_accept_timeouts (lo_config opts)) stats)"
proof -
  let ?cfg = "lo_config opts"
  let ?tasks = "check_end (cm_urls (cm pd)) (cm_archive (cm pd)) (cm_order (cm pd)) (cm_elapsed (cm pd)) ?cfg (cm_tasks (cm pd))"
  have "fst (run_exit (rn_outputs re) (rn_cookies re) format (pd_cookies pd) ?cfg (Checked ?tasks) w) = Inr code"
    using assms by (simp add: main_run_def run_command_def)
  then obtain stats' cache where ended: "?tasks = Inr (stats', cache)"
    "code = exit_value (check_exit_code (cfg_accept_timeouts ?cfg) stats')"
    by (cases ?tasks) (auto simp: run_exit_def dest!: and_then_Inr)
  with check_end_exit [OF ended(1)] show ?thesis by metis
qed

lemma main_run_codes:
  assumes "main_run re cm format w opts = Value (Inr code, w')"
  shows "code \<in> {0, 1, 2} \<and> (code = 2 \<longleftrightarrow> failed_check re cm w opts)"
proof -
  let ?cfg = "lo_config opts"
  obtain stage where stage: "prepare re w opts = Value stage"
    using assms by (cases "prepare re w opts") (simp_all add: main_run_def)
  consider c where "stage = Inr (Inl c)"
    | pd where "stage = Inr (Inr pd)" "cfg_dump ?cfg" | pd where "stage = Inr (Inr pd)" "\<not> cfg_dump ?cfg"
    using assms stage by (cases stage; cases "projr stage") (auto simp: main_run_def)
  then show ?thesis
  proof cases
    case 1
    with assms stage prepare_codes [of re w opts c] show ?thesis by (auto simp: main_run_def failed_check_def)
  next
    case 2
    with assms stage show ?thesis
      by (auto simp: main_run_def failed_check_def run_command_def run_exit_def map_sum_def dest: dump_codes split: sum.splits)
  next
    case 3
    with main_run_checked [OF _ 3(2) assms] stage obtain stats cache where "cm_tasks (cm pd) = Inr (stats, cache)"
      "code = exit_value (check_exit_code (cfg_accept_timeouts ?cfg) stats)" by auto
    with stage 3 show ?thesis by (auto simp: failed_check_def check_exit_code_def Let_def)
  qed
qed

lemma run_main_codes:
  assumes "\<And>opts. loaded = Inr opts \<Longrightarrow> main_run re cm (format opts) w opts = Value (result opts)"
  shows "let code = run_main loaded fs generate (fst \<circ> result) (underlying_io_error_kind octo) in
    code \<in> {0, 1, 2, 3} \<and> (code = 3 \<longleftrightarrow> (\<exists>e. loaded = Inl e)) \<and>
    (code = 2 \<longleftrightarrow> (\<exists>opts v w'. loaded = Inr opts \<and> cf_generate (lo_config opts) = None \<and>
      output_writable fs (lo_config opts) \<and> failed_check re cm w opts \<and> result opts = (Inr v, w'))) \<and>
    (\<forall>opts e w'. loaded = Inr opts \<longrightarrow> cf_generate (lo_config opts) = None \<longrightarrow> output_writable fs (lo_config opts) \<longrightarrow>
      result opts = (Inl e, w') \<longrightarrow> code = (if underlying_io_error_kind octo e = Some BrokenPipe then 0 else 1))"
proof (cases loaded)
  case (Inl e)
  then show ?thesis by (simp add: run_main_def)
next
  case (Inr opts)
  show ?thesis
  proof (cases "cf_generate (lo_config opts) = None \<and> output_writable fs (lo_config opts)")
    case False
    with Inr show ?thesis by (auto simp: run_main_def split: sum.split)
  next
    case True
    obtain res w' where res: "result opts = (res, w')" by (cases "result opts")
    show ?thesis
    proof (cases res)
      case e: (Inl e)
      with Inr True res show ?thesis by (simp add: run_main_def Let_def)
    next
      case code: (Inr code)
      with main_run_codes [of re cm "format opts" w opts code w'] assms [OF Inr] res Inr True
      show ?thesis by (auto simp: run_main_def)
    qed
  qed
qed


section \<open>Instances\<close>

definition printing_fails :: "(io_error + string) outputs" where
  "printing_fails = \<lparr>ou_write = (\<lambda>path text w. (Inr (), w)),
     ou_print = (\<lambda>text w. (Inl \<lparr>io_kind_of = BrokenPipe, io_text = ''broken pipe'', io_inner = None\<rparr>, w)),
     ou_store = (\<lambda>rows w. (Inr (), w))\<rparr>"

definition sample_run_env :: "(unit, nat, string, io_error + string) run_env" where
  "sample_run_env = \<lparr>rn_program = sample_program_env, rn_inputs = sample_input_env,
     rn_open = (\<lambda>_. Inl \<lparr>io_kind_of = NotFound, io_text = ''not found'', io_inner = None\<rparr>), rn_cookies = one_file,
     rn_writers = print_all, rn_outputs = printing_fails, rn_cache_file = None, rn_parse_uri = (\<lambda>_. None), rn_now = 0,
     rn_checks = True, rn_terminal = False, rn_html5ever = False\<rparr>"

definition sample_command :: "error_kind + response_stats \<times> (uri \<times> cache_value) list \<Rightarrow> (unit, nat) command_env" where
  "sample_command tasks = \<lparr>cm_client = sample_client_env, cm_writers = print_all, cm_urls = plain_urls,
     cm_archive = (\<lambda>_ _. Inr None), cm_order = [], cm_elapsed = 0, cm_requests = [], cm_tasks = tasks\<rparr>"

definition offline_options :: lychee_options where
  "offline_options = \<lparr>lo_raw_inputs = [], lo_config_files = [], lo_config = offline_config\<rparr>"

lemma offline_options_simps:
  "cf_generate (lo_config offline_options) = None" "output_writable fs (lo_config offline_options)"
  "\<not> cfg_dump (lo_config offline_options)" "cf_output (lo_config offline_options) = None"
  "\<not> cfg_suggest (lo_config offline_options)" "\<not> cfg_cache (lo_config offline_options)"
  by (simp_all add: offline_options_def offline_config_def config_default_def output_writable_def cfg_dump_def cfg_suggest_def
      cfg_cache_def unwrap_or_def)

lemma sample_prepared: "\<exists>pd. prepare sample_run_env w offline_options = Value (Inr (Inr pd)) \<and> pd_cookies pd = None"
proof -
  obtain cl pool where "create sample_program_env False offline_config = Value (Inr (cl, pool))"
    using offline_client by blast
  then show ?thesis
    by (simp add: prepare_def Let_def sample_run_env_def offline_options_def options_inputs_def offline_config_def
        config_default_def cfg_dump_inputs_def unwrap_or_def load_cache_def cfg_cache_def load_cookie_jar_def
        create_collector_def sample_program_env_def regex_filter_new_def)
qed


definition broken_off :: reqwest_error where
  "broken_off = \<lparr>re_text = ''error sending request'', re_timeout = False, re_connect = False, re_body = False, re_decode = False,
     re_builder = False, re_redirect = False, re_request = True, re_status = None,
     re_sources = [OtherSource ''client error'', IoSource \<lparr>io_kind_of = BrokenPipe, io_text = ''broken pipe'', io_inner = None\<rparr>]\<rparr>"

end
