(* ===== verification/Generate.thy ===== *)
theory Generate
  imports Run
begin

text \<open>
  \<open>--generate\<close>: the manual page and the completions (\<open>lychee-bin/src/commands/generate.rs\<close>).  What clap and roff
  render is a parameter; the sections, their order and the texts that are the program's own are modelled.
\<close>

section \<open>Texts\<close>

definition LF :: string where "LF = [CHR 0x0A]"
definition backslash :: string where "backslash = [CHR 0x5C]"

definition CONTRIBUTOR_THANK_NOTE :: string where
  "CONTRIBUTOR_THANK_NOTE = LF @ LF @
     ''A huge thank you to all the wonderful contributors who helped make this project a success.''"

definition BUG_SECTION :: string where
  "BUG_SECTION = ''Report any bugs or questions to <https://github.com/lycheeverse/lychee/issues/>'' @ LF @ LF @
     ''Questions can also be asked on <https://github.com/lycheeverse/lychee/discussions>''"

text \<open>The descriptions of the examples with their commands.\<close>

definition EXAMPLES :: "(string \<times> string list) list" where
  "EXAMPLES =
     [(''Check all links in supported files by specifying a directory'', [''lychee .'']),
      (''Specify files explicitly or use glob patterns'',
        [''lychee README.md test.html info.txt'',
         ''lychee '' @ quoted ''public/**/*.html'' @ '' '' @ quoted ''*.md'']),
      (''Check all links on a website'', [''lychee https://example.com'']),
      (''Check links from stdin'',
        [''cat test.md | lychee -'', ''echo '' @ quoted ''https://example.com'' @ '' | lychee -'']),
      (''Links can be excluded and included with regular expressions'',
        [''lychee --exclude '' @ quoted (''^https?://blog'' @ backslash @ ''.example'' @ backslash @ ''.com'') @ '' --exclude '' @
           quoted (backslash @ ''.(pdf|zip|png|jpg)$'') @ '' .'']),
      (''Further examples can be found in the online documentation at <https://lychee.cli.rs>'', [])]"

definition EXIT_CODE_SECTION :: string where
  "EXIT_CODE_SECTION = LF @
     ''0   Success. The operation was completed successfully as instructed.'' @ LF @ LF @
     ''1   Missing inputs or any unexpected runtime failures or configuration errors'' @ LF @ LF @
     ''2   Link check failures. At least one non-excluded link failed the check.'' @ LF @ LF @
     ''3   Encountered errors in the config file.'' @ LF"

section \<open>The manual page\<close>

datatype man_section =
    TitleLine | NameSection | SynopsisSection | DescriptionSection | OptionsSection | VersionSection | AuthorsSection

datatype shell = Bash | Elvish | Fish | PowerShell | Zsh

record man_crates =
  mg_authors :: string
  mg_section :: "string \<Rightarrow> man_section \<Rightarrow> io_error + string" \<comment> \<open>of a command with these authors\<close>
  mg_roff :: "string \<Rightarrow> string \<Rightarrow> io_error + string" \<comment> \<open>title and text\<close>
  mg_completion :: "shell \<Rightarrow> string \<Rightarrow> string" \<comment> \<open>the bytes for a program of this name\<close>
  mg_utf8 :: "string \<Rightarrow> string + string"

definition render_section :: "man_crates \<Rightarrow> string \<Rightarrow> string \<Rightarrow> io_error + string" where
  "render_section mc title content = mg_roff mc title content"

definition render_exit_codes :: "man_crates \<Rightarrow> io_error + string" where
  "render_exit_codes mc = render_section mc ''EXIT CODES'' EXIT_CODE_SECTION"

definition examples_text :: string where
  "examples_text = join (LF @ LF) (map (\<lambda>(description, examples).
     description @ LF @ LF @ join LF (map (\<lambda>example. ''    $ '' @ example) examples)) EXAMPLES)"

definition render_examples :: "man_crates \<Rightarrow> io_error + string" where
  "render_examples mc = render_section mc ''EXAMPLES'' examples_text"

definition render_bug_reporting :: "man_crates \<Rightarrow> io_error + string" where
  "render_bug_reporting mc = render_section mc ''REPORTING BUGS'' BUG_SECTION"

definition man_page :: "man_crates \<Rightarrow> any_error + string" where
  "man_page mc =
     (let man = mg_section mc (mg_authors mc @ CONTRIBUTOR_THANK_NOTE) in
      res_bind (map_err AnyIo (collect_results
        [man TitleLine, man NameSection, man SynopsisSection, man DescriptionSection, man OptionsSection,
         render_examples mc, render_exit_codes mc, render_bug_reporting mc, man VersionSection, man AuthorsSection])) (\<lambda>buffer.
      map_err AnyText (mg_utf8 mc (concat buffer))))"

definition shell_completion :: "man_crates \<Rightarrow> shell \<Rightarrow> any_error + string" where
  "shell_completion mc sh = map_err AnyText (mg_utf8 mc (mg_completion mc sh ''lychee''))"

fun generate :: "man_crates \<Rightarrow> generate_mode \<Rightarrow> any_error + string" where
  "generate mc Man = man_page mc"
| "generate mc CompleteBash = shell_completion mc Bash"
| "generate mc CompleteElvish = shell_completion mc Elvish"
| "generate mc CompleteFish = shell_completion mc Fish"
| "generate mc CompletePowershell = shell_completion mc PowerShell"
| "generate mc CompleteZsh = shell_completion mc Zsh"

section \<open>The exit codes of the manual\<close>

text \<open>The codes that the lines of the section begin with.\<close>

definition manual_codes :: "string list" where
  "manual_codes = map (takeWhile (\<lambda>c. c \<noteq> CHR '' '')) (filter (\<lambda>line. line \<noteq> []) (split_on (CHR 0x0A) EXIT_CODE_SECTION))"

lemma manual_codes: "manual_codes = [''0'', ''1'', ''2'', ''3'']"
  by code_simp

lemma exit_codes_in_manual: "show_nat (nat (exit_value c)) \<in> set manual_codes"
proof -
  have "\<forall>c \<in> {Success, UnexpectedFailure, LinkCheckFailure, ConfigFile}. show_nat (nat (exit_value c)) \<in> set manual_codes"
    by code_simp
  then show ?thesis by (cases c) simp_all
qed

text \<open>With \<open>--generate\<close> the process does nothing else: it ends with 0, or with 1 if the text cannot be made.\<close>

lemma generate_exit:
  assumes "cf_generate (lo_config opts) = Some mode" "output_writable fs (lo_config opts)"
  shows "run_main (Inr opts) fs (generate mc) run io = (case generate mc mode of Inr _ \<Rightarrow> 0 | Inl _ \<Rightarrow> 1)"
  using assms by (simp add: run_main_def split: sum.split)

end
