(* ===== verification/Spec2Isabelle.thy ===== *)
theory Spec2Isabelle
  imports HostSteps Generate
begin

text \<open>
  A model of lychee, a link checker: the library \<open>lychee-lib\<close> and the program \<open>lychee-bin\<close>, both in Rust.

  The program and its parts.  A run loads its configuration, reads its inputs, extracts their links, makes a
  request of every link, checks the requests concurrently, counts the responses and prints a report; the exit
  code says whether a link failed.  The theories follow this path, each named after what it models:

  \<^item> The basis: Prelude (strings, integers and results of the standard library), Externals (interfaces of other
    crates), Steps (step relations with invariants and measures), Paths (\<open>std::path\<close>, \<open>types/file.rs\<close>).
  \<^item> Values: StatusRange and StatusSelector (\<open>types/accept\<close>, \<open>types/status\_code\_selector.rs\<close>), Status (errors,
    statuses, cached statuses), Response (responses, requests, redirects), ErrorTexts (what they are printed
    as, \<open>utils/reqwest.rs\<close>, and their hashes), BasicAuth (credentials and selectors), Retry (\<open>retry.rs\<close>).
  \<^item> Configuration: Options (values of options, \<open>verbosity.rs\<close>, \<open>config/header.rs\<close>, \<open>files\_from.rs\<close>), Config
    (\<open>config/mod.rs\<close>, its loaders and \<open>load\_config\<close>), Cookies (\<open>types/cookies.rs\<close>).
  \<^item> Inputs to requests: Inputs (\<open>types/input\<close>, \<open>types/resolver.rs\<close>, the preprocessor), Spans (\<open>types/uri/raw.rs\<close>),
    Extract, HtmlLinks, Html5ever, Srcset and MarkdownLinks (\<open>extract\<close>), BaseInfo (\<open>types/base\_info.rs\<close>,
    \<open>types/uri/parsed.rs\<close>, \<open>utils/url.rs\<close>), Requests (\<open>utils/request.rs\<close>), Collector (\<open>collector.rs\<close>).
  \<^item> Checking one request: UriFilter (\<open>filter\<close>), Remap (\<open>remap.rs\<close>, \<open>types/uri/github.rs\<close>), Quirks, Chain
    (\<open>chain/mod.rs\<close>), HostStats, Host and HostSteps (\<open>ratelimit\<close>), Fragment and FragmentChecker
    (\<open>utils/fragment\_checker\<close>), Website and FileChecker (\<open>checker\<close>), Client (\<open>client.rs\<close>),
    Library (the library's defaults and entry points).
  \<^item> The run: Cache (\<open>lychee-bin/src/cache.rs\<close>), ResponseStats (\<open>formatters/stats/response.rs\<close>), CheckPipeline
    (\<open>commands/check.rs\<close>, \<open>waiter.rs\<close>), Archive (suggestions), Reports, HostReports and Json
    (\<open>formatters\<close>, \<open>progress.rs\<close>, the rates of \<open>ratelimit/host/stats.rs\<close>), Program (\<open>client.rs\<close>,
    \<open>commands/dump.rs\<close>, \<open>commands/dump\_inputs.rs\<close>, the end of a run), Run (\<open>main.rs\<close> from the options to the
    exit code), Generate (\<open>commands/generate.rs\<close>).

  How the model corresponds to the code.  A struct is a record with a prefix per type, an enum a datatype with
  the constructors of the source (with a prefix where they clash), a function or method a definition of its
  name.  A method that changes \<open>self\<close> or shared state takes the state and returns the new one.  A \<open>Result\<close> is a
  sum with the error on the left; code that can panic returns \<open>eval\<close>, with \<open>Panic\<close> as a value.  Integers whose
  overflow matters are words.  Loops are structural recursion; where the source loops on its own state the
  recursion is on what is left (the attempts of a retry, the characters of a text).  No definition takes fuel.

  Concurrency.  HostSteps and CheckPipeline are step relations: HostSteps interleaves the tasks that ask one
  host, with the locks per URL and the permits; CheckPipeline the sender, the request task and the collector of
  a check, with their two bounded channels and the guards of the \<open>WaitGroup\<close>.  There a step is what a task does
  between two of its suspensions, except that a handler serves its request in one step: what two checks do to
  the same host at the same time is the subject of HostSteps.  The sender holds an item, with a guard of its
  own, from when the stream gives it until there is room in the channel.  The streams of the collector give
  inputs and contents in any order: \<open>collected\<close> (Collector) has every order, and the order does not matter for
  local inputs.

  Interfaces as locales: \<open>invariant\_of\_steps\<close> and \<open>terminating\_steps\<close> (Steps) are interpreted on the host's
  tasks and on the pipeline, \<open>commuting\_steps\<close> and \<open>kept\_by\_steps\<close> (Prelude) on adding responses (ResponseStats), the
  monoid of configurations on their merge (Config); others stand where they are used.

  What the lemmas show.  Each theory ends with its properties and concrete instances of them.  They say, in
  short: what is excluded is never contacted or read; every link of an input ends as one request or one
  reported error and every request is counted once; a check always ends, in whatever order its tasks run, and
  its outcome is that of a sequential run; the exit code is a failure exactly if a link failed; the cache, the
  retries, the redirects and the statistics of hosts keep their invariants; parsers and printers round-trip;
  the reports have each failure once.  The properties below combine the parts.  Where the code does something
  else than it documents, the property states what it does.

  Other crates are parameters: the url, regex, http, reqwest, octocrab, glob, ignore, html5gum, html5ever,
  pulldown-cmark, quick\_xml, linkify, csv, mailify and cookie\_store crates appear as the functions the code
  calls, collected in records (Externals and the first section of each theory), and documented behaviour that a
  proof needs is a named hypothesis with an instance.  Files, the network and the clock are such records too,
  or a state \<open>'w\<close> they change.

  Limits.  Strings range over the characters U+0000 to U+00FF; the symbols of the reports have a type of their
  own.  Paths are lists of components, so that a trailing separator is lost.  Hash maps and sets whose order of
  iteration matters are lists or take the order as an argument.

  Not modelled: the command line parser of clap and the derived deserializers of serde, which give the records
  that Config merges; the text of a JSON value (Json has the value); the arithmetic on floating point numbers, a
  parameter of HostReports; what clap and roff render of manual page and completions (Generate has the sections
  and their texts); the drawing of the progress bar; logging beyond the format of its lines; the tokenizers and
  regular expressions of the extractors.
\<close>

section \<open>Whole runs\<close>

text \<open>A broken link cannot be lost between the inputs and the report.\<close>

definition reported :: "report_env \<Rightarrow> response_stats \<Rightarrow> response \<Rightarrow> bool" where
  "reported re stats r \<longleftrightarrow>
     (\<forall>errors timeouts. enumerates (s_error_map stats) errors \<longrightarrow> enumerates (s_timeout_map stats) timeouts \<longrightarrow>
       (\<exists>(source, bodies) \<in> set (failures re errors timeouts). source = r_source r \<and>
         (\<exists>b \<in> set bodies. b = r_body r \<or> body_eq (r_body r) b)))"

lemma holds_kept: "holds_body m source body \<Longrightarrow> \<exists>b. b \<in># kept m source \<and> (b = body \<or> body_eq body b)"
  by (auto simp: holds_body_def kept_def)

lemma failures_reported:
  assumes "permutes (rp_order re)"
    and "holds_body (s_error_map stats) (r_source r) (r_body r) \<or> holds_body (s_timeout_map stats) (r_source r) (r_body r)"
  shows "reported re stats r"
  unfolding reported_def
proof (intro allI impI)
  fix errors timeouts
  assume e: "enumerates (s_error_map stats) errors" and t: "enumerates (s_timeout_map stats) timeouts"
  from assms(2) obtain b where b: "b \<in># kept (s_error_map stats) (r_source r) + kept (s_timeout_map stats) (r_source r)"
    "b = r_body r \<or> body_eq (r_body r) b"
    using holds_kept by (metis union_iff)
  then have "r_source r \<in> fst ` set (failures re errors timeouts)"
    unfolding failures_spec(2) [OF assms(1) e t] by (auto simp: kept_def split: option.splits)
  then obtain bodies where bodies: "(r_source r, bodies) \<in> set (failures re errors timeouts)" by auto
  from failures_spec(3) [OF assms(1) e t this] b(1) have "b \<in> set bodies" by (metis set_mset_mset)
  with bodies b(2) show "\<exists>(source, bodies) \<in> set (failures re errors timeouts). source = r_source r \<and>
      (\<exists>b \<in> set bodies. b = r_body r \<or> body_eq (r_body r) b)" by blast
qed

lemma answered_run:
  assumes "(check_step (Suc n) (serve_request client error_uri ces accept ts check))\<^sup>*\<^sup>*
      (pipeline_start requests stats0 (c, w)) s"
    and "all_finished s" and "stats0 \<in> {stats_default, stats_extended}" and "\<forall>r \<in> set requests. user_error r = None"
  obtains answers where "mset (map fst answers) = mset requests"
    "\<forall>(r, x) \<in> set answers. \<exists>st. fst (serve_request client error_uri ces accept ts check r st) = Inr x"
    "check_result s = Some (Inr (fold stats_add (map snd answers) stats0))"
    "\<forall>t. check_exit_code t (fold stats_add (map snd answers) stats0) =
      (if \<exists>(r, x) \<in> set answers. is_error (r_status x) \<and> (t \<longrightarrow> \<not> is_timeout (r_status x)) then LinkCheckFailure else Success)"
proof -
  let ?serve = "serve_request client error_uri ces accept ts check"
  have never: "fst (?serve r st) \<noteq> Inl e" if "r \<in> set requests" for r st e
    using assms(4) that serve_request_answer(1) [of client error_uri ces accept ts check r st e] by auto
  obtain answers where answers: "\<forall>(r, x) \<in> set answers. \<exists>st. fst (?serve r st) = Inr x"
      "mset (map fst answers) = mset requests"
      "check_result s = Some (Inr (fold stats_add (map snd answers) stats0))"
    by (rule finished_run [OF assms(1,2) never])
  let ?failed = "\<lambda>t. \<exists>(r, x) \<in> set answers. is_error (r_status x) \<and> (t \<longrightarrow> \<not> is_timeout (r_status x))"
  let ?code = "\<lambda>t. check_exit_code t (fold stats_add (map snd answers) stats0)"
  have fails: "?code t = LinkCheckFailure \<longleftrightarrow> ?failed t" for t
    unfolding fold_exit_code [OF assms(3)] by force
  have "?code t = (if ?failed t then LinkCheckFailure else Success)" for t
  proof (cases "?failed t")
    case True
    with fails [of t] show ?thesis by (simp only: if_True)
  next
    case False
    with fails [of t] have "?code t \<noteq> LinkCheckFailure" by (simp only: not_False_eq_True)
    then have "?code t = Success" by (simp add: check_exit_code_def Let_def split: if_splits)
    with False show ?thesis by (simp only: if_False)
  qed
  then have "\<forall>t. ?code t = (if ?failed t then LinkCheckFailure else Success)" by (rule allI)
  from that [OF answers(2,1,3) this] show ?thesis .
qed

text \<open>C3: A check whose inputs can be read answers every request exactly once, whatever the order in which its
  tasks run, and from these answers its exit code and its report follow: the code is that of a failure exactly
  if some answer is an error, where a timeout counts unless timeouts are accepted, and every answer that is an
  error has its block and its line in the compact and the detailed report.\<close>

theorem broken_links_fail_and_are_reported:
  assumes "(check_step (Suc n) (serve_request client error_uri ces accept ts check))\<^sup>*\<^sup>*
      (pipeline_start requests stats0 (c, w)) s"
    and "all_finished s" and "stats0 \<in> {stats_default, stats_extended}"
    and "\<forall>r \<in> set requests. user_error r = None" and "permutes (rp_order re)"
  shows "\<exists>answers stats. check_result s = Some (Inr stats) \<and> mset (map fst answers) = mset requests \<and>
    (\<forall>(r, x) \<in> set answers. \<exists>st. fst (serve_request client error_uri ces accept ts check r st) = Inr x) \<and>
    (check_exit_code accept_timeouts stats = LinkCheckFailure \<longleftrightarrow>
      (\<exists>(r, x) \<in> set answers. is_error (r_status x) \<and> (accept_timeouts \<longrightarrow> \<not> is_timeout (r_status x)))) \<and>
    (\<forall>(r, x) \<in> set answers. is_error (r_status x) \<longrightarrow> reported re stats x)"
proof -
  obtain answers where answers: "mset (map fst answers) = mset requests"
      "\<forall>(r, x) \<in> set answers. \<exists>st. fst (serve_request client error_uri ces accept ts check r st) = Inr x"
      "check_result s = Some (Inr (fold stats_add (map snd answers) stats0))"
    and code: "\<forall>t. check_exit_code t (fold stats_add (map snd answers) stats0) =
      (if \<exists>(r, x) \<in> set answers. is_error (r_status x) \<and> (t \<longrightarrow> \<not> is_timeout (r_status x)) then LinkCheckFailure else Success)"
    by (rule answered_run [OF assms(1-4)])
  have "\<forall>(r, x) \<in> set answers. is_error (r_status x) \<longrightarrow> reported re (fold stats_add (map snd answers) stats0) x"
    using fold_holds_failures [of _ "map snd answers" stats0] failures_reported [OF assms(5)] by force
  with answers code [rule_format, of accept_timeouts] show ?thesis by (intro exI [of _ answers]) (auto split: if_splits)
qed

text \<open>C4: The exit code of the process tells whether a link is broken: after a check of inputs that can be read, whose
  report, cache and cookies are written, it is 2 if some link or input was answered with an error, where a
  timeout counts unless timeouts are accepted, and else 0, whatever the order in which the tasks ran.\<close>

theorem process_fails_for_broken_links:
  assumes "(check_step (Suc n) (serve_request client error_uri ces accept ts check))\<^sup>*\<^sup>*
      (pipeline_start requests (initial_stats (lo_config opts)) (c, w)) s" and "all_finished s"
    and "\<forall>r \<in> set requests. user_error r = None"
    and "prepare re v opts = Value (Inr (Inr pd))" and "\<not> cfg_dump (lo_config opts)"
    and "check_result s = Some tasks" and "cm_tasks (cm pd) = map_sum id (\<lambda>stats. (stats, entries)) tasks"
    and "main_run re cm format v opts = Value (Inr code, v')"
    and "cf_generate (lo_config opts) = None" and "output_writable fs (lo_config opts)"
  shows "\<exists>answers. mset (map fst answers) = mset requests \<and>
    (\<forall>(r, x) \<in> set answers. \<exists>st. fst (serve_request client error_uri ces accept ts check r st) = Inr x) \<and>
    run_main (Inr opts) fs gen (\<lambda>_. Inr code) io =
      (if \<exists>(r, x) \<in> set answers. is_error (r_status x) \<and>
          (cfg_accept_timeouts (lo_config opts) \<longrightarrow> \<not> is_timeout (r_status x)) then 2 else 0)"
proof -
  have "initial_stats (lo_config opts) \<in> {stats_default, stats_extended}" by (simp add: initial_stats_def)
  then obtain answers where answers: "mset (map fst answers) = mset requests"
      "\<forall>(r, x) \<in> set answers. \<exists>st. fst (serve_request client error_uri ces accept ts check r st) = Inr x"
      "check_result s = Some (Inr (fold stats_add (map snd answers) (initial_stats (lo_config opts))))"
    and exit: "\<forall>t. check_exit_code t (fold stats_add (map snd answers) (initial_stats (lo_config opts))) =
      (if \<exists>(r, x) \<in> set answers. is_error (r_status x) \<and> (t \<longrightarrow> \<not> is_timeout (r_status x)) then LinkCheckFailure else Success)"
    by (rule answered_run [OF assms(1,2) _ assms(3)])
  let ?stats = "fold stats_add (map snd answers) (initial_stats (lo_config opts))"
  have "code = exit_value (check_exit_code (cfg_accept_timeouts (lo_config opts)) ?stats)"
    using main_run_checked [OF assms(4,5,8)] answers(3) assms(6,7) by auto
  moreover have "run_main (Inr opts) fs gen (\<lambda>_. Inr code) io = code"
    using assms(9,10) by (simp add: run_main_def)
  ultimately show ?thesis using answers(1,2) exit by auto
qed

text \<open>C12: The outcome of a run over local inputs depends neither on the order in which the inputs are collected nor
  on the order in which their links are checked: if each request has one answer, whenever it is asked for,
  then two runs over the same inputs in any order, with any limits on the concurrency, both end with the same
  counters, the same sets of URIs and sources, and the same exit code.\<close>

theorem outcome_independent_of_order:
  assumes "\<forall>input \<in> set inputs. local_input input" and "mset inputs' = mset inputs"
    and "collect_links_from_file_types cn self extensions inputs st = Value (requests, st1)"
    and "collect_links_from_file_types cn self extensions inputs' st = Value (requests', st2)"
    and "\<forall>r \<in> set requests. \<exists>x. \<forall>w. fst (serve r w) = Inr x"
    and "(check_step (Suc n) serve)\<^sup>*\<^sup>* (pipeline_start requests stats0 w) s" and "all_finished s"
    and "(check_step (Suc n') serve)\<^sup>*\<^sup>* (pipeline_start requests' stats0 w') s'" and "all_finished s'"
  shows "\<exists>stats stats'. check_result s = Some (Inr stats) \<and> check_result s' = Some (Inr stats') \<and>
    view_of stats = view_of stats' \<and> check_exit_code t stats = check_exit_code t stats'"
proof -
  have same: "mset requests' = mset requests"
    using collection_permuted [OF assms(1-3)] assms(4) by auto
  define answer where "answer r = projr (fst (serve r w))" for r
  have determined: "fst (serve r v) = Inr (answer r)" if "r \<in> set requests" for r v
    using assms(5) that unfolding answer_def by fastforce
  have result: "\<exists>rs. check_result z = Some (Inr (fold stats_add rs stats0)) \<and> mset rs = image_mset answer (mset requests)"
    if run: "(check_step (Suc k) serve)\<^sup>*\<^sup>* (pipeline_start qs stats0 v) z" "all_finished z" and qs: "mset qs = mset requests"
    for k qs v z
  proof -
    have never: "fst (serve r u) \<noteq> Inl e" if "r \<in> set qs" for r u e
      using determined [of r u] that mset_eq_setD [OF qs] by simp
    obtain answers where answers: "\<forall>(r, x) \<in> set answers. \<exists>u. fst (serve r u) = Inr x"
        "mset (map fst answers) = mset qs" "check_result z = Some (Inr (fold stats_add (map snd answers) stats0))"
      by (rule finished_run [OF run never])
    have "x = answer r" if "(r, x) \<in> set answers" for r x
    proof -
      from that have "r \<in> set (map fst answers)" by force
      with mset_eq_setD [OF answers(2)] mset_eq_setD [OF qs] have "r \<in> set requests" by simp
      with determined answers(1) that show ?thesis by fastforce
    qed
    then have "map snd answers = map answer (map fst answers)" by auto
    with answers(2,3) qs show ?thesis by (metis mset_map)
  qed
  from result [OF assms(6,7) refl] result [OF assms(8,9) same] obtain rs rs' where
    "check_result s = Some (Inr (fold stats_add rs stats0))" "check_result s' = Some (Inr (fold stats_add rs' stats0))"
    "mset rs = mset rs'" by auto
  with stats_any_order [where rs = rs and rs' = rs'] show ?thesis by blast
qed

text \<open>C36: An input named by the user that cannot be read hides what the check found: in whatever order its tasks
  run, the run ends with the error of such an input, and nothing is printed, written or stored, whatever was
  answered to the links of the other inputs.  The process then ends with 1, except that an error that comes
  from a broken pipe, such as a server that breaks the connection off, is taken for a closed output: the
  exit code is 0, that of a check without broken links.\<close>

theorem unreadable_input_hides_links:
  assumes "(check_step (Suc n) (serve_request client error_uri ces accept ts check))\<^sup>*\<^sup>*
      (pipeline_start requests (initial_stats (lo_config opts)) (c, w)) s" and "all_finished s"
    and "\<exists>r \<in> set requests. user_error r \<noteq> None"
    and "prepare re v opts = Value (Inr (Inr pd))" and "\<not> cfg_dump (lo_config opts)"
    and "check_result s = Some tasks" and "cm_tasks (cm pd) = map_sum id (\<lambda>stats. (stats, entries)) tasks"
    and "main_run re cm format v opts = Value (result, v')"
    and "cf_generate (lo_config opts) = None" and "output_writable fs (lo_config opts)"
  shows "v' = v \<and> (\<exists>source e. Inl (UserInputContent source e) \<in> set requests \<and> result = Inl (AnyKind e) \<and>
    run_main (Inr opts) fs gen (\<lambda>_. result) (underlying_io_error_kind octo) =
      (if kind_io octo e = Some BrokenPipe then 0 else 1))"
proof -
  have total: "s_total (initial_stats (lo_config opts)) = 0"
    by (simp add: initial_stats_def stats_default_def stats_extended_def)
  obtain r e where r: "r \<in> set requests" "user_error r = Some e" and tasks: "tasks = Inl e"
    using check_counts_every_request [OF assms(1,2) total] assms(3,6) by (auto split: if_splits)
  then obtain source where "r = Inl (UserInputContent source e)"
    by (auto simp: user_error_def split: sum.splits request_error.splits)
  moreover have "result = Inl (AnyKind e)" "v' = v"
    using assms(4,5,7,8) tasks by (simp_all add: main_run_def run_command_def check_end_def run_exit_def res_bind_def)
  ultimately show ?thesis using r(1) assms(9,10) by (auto simp: run_main_def)
qed

section \<open>Instances\<close>

text \<open>An input found in another one that cannot be read, and handlers that always answer the same.\<close>

definition unreadable_page :: "request_error + request" where
  "unreadable_page = Inl (GetInputContent Stdin EmptyUrl)"

definition fixed_serve :: "request_error + request \<Rightarrow> nat \<Rightarrow> (error_kind + response) \<times> nat" where
  "fixed_serve r w = (Inr (response_new (domain_url ''https'' ''a.b'' ''/'') (StOk 200) None None Stdin None None), w + 1)"

definition printing_works :: "(io_error + string) outputs" where
  "printing_works = \<lparr>ou_write = (\<lambda>path text w. (Inr (), w)), ou_print = (\<lambda>text w. (Inr (), w)), ou_store = (\<lambda>rows w. (Inr (), w))\<rparr>"

lemma finished_exists:
  obtains s where "(check_step (Suc n) serve)\<^sup>*\<^sup>* (pipeline_start requests stats0 w) s" "all_finished s"
  using pipeline.reaches_final [OF inv_start] by metis

theorem broken_links_fail_and_are_reported_witness:
  "\<exists>s x stats. (check_step 1 sample_serve)\<^sup>*\<^sup>* (pipeline_start [unreadable_page] stats_default (Map.empty, 0)) s \<and>
     check_result s = Some (Inr stats) \<and> check_exit_code True stats = LinkCheckFailure \<and>
     r_source x = Stdin \<and> reported printing stats x"
proof -
  obtain s where run: "(check_step (Suc 0) sample_serve)\<^sup>*\<^sup>* (pipeline_start [unreadable_page] stats_default (Map.empty, 0)) s"
    and fin: "all_finished s" by (rule finished_exists)
  have "\<forall>r \<in> set [unreadable_page]. user_error r = None" by (simp add: unreadable_page_def user_error_def)
  from broken_links_fail_and_are_reported [OF run [unfolded sample_serve_def] fin _ this permutes_orders(3), of True]
  obtain answers stats where answers: "check_result s = Some (Inr stats)" "mset (map fst answers) = mset [unreadable_page]"
    "\<forall>(r, x) \<in> set answers. \<exists>st. fst (sample_serve r st) = Inr x"
    "check_exit_code True stats = LinkCheckFailure \<longleftrightarrow>
      (\<exists>(r, x) \<in> set answers. is_error (r_status x) \<and> (True \<longrightarrow> \<not> is_timeout (r_status x)))"
    "\<forall>(r, x) \<in> set answers. is_error (r_status x) \<longrightarrow> reported printing stats x"
    unfolding sample_serve_def by blast
  from arg_cong [OF answers(2), of size] obtain a where "answers = [a]" by (auto simp: length_Suc_conv)
  with answers(2) obtain x where x: "answers = [(unreadable_page, x)]" by (cases a) auto
  have "is_error (r_status x) \<and> \<not> is_timeout (r_status x) \<and> r_source x = Stdin"
    using answers(3) by (auto simp: x unreadable_page_def sample_serve_def serve_request_def handle_def response_new_def)
  with answers x run show ?thesis by auto
qed

text \<open>A page that cannot be read is found in the input; the report is printed and the process ends with 2.\<close>

theorem process_fails_for_broken_links_witness:
  "\<exists>s stats. (check_step 1 sample_serve)\<^sup>*\<^sup>* (pipeline_start [unreadable_page] (initial_stats offline_config) (Map.empty, 0)) s \<and>
     check_result s = Some (Inr stats) \<and>
     (\<exists>code w'. main_run (sample_run_env\<lparr>rn_outputs := printing_works\<rparr>) (\<lambda>_. sample_command (Inr (stats, []))) (\<lambda>_. Inr [])
         (Inr []) offline_options = Value (Inr code, w') \<and>
       run_main (Inr offline_options) sample_fs (\<lambda>_. Inr []) (\<lambda>_. Inr code) (\<lambda>_. None) = 2)"
proof -
  let ?re = "sample_run_env\<lparr>rn_outputs := printing_works\<rparr>"
  have cfg: "lo_config offline_options = offline_config" by (simp add: offline_options_def)
  obtain s where run: "(check_step (Suc 0) sample_serve)\<^sup>*\<^sup>* (pipeline_start [unreadable_page] (initial_stats offline_config) (Map.empty, 0)) s"
    and fin: "all_finished s" by (rule finished_exists)
  have ok: "\<forall>r \<in> set [unreadable_page]. user_error r = None" by (simp add: unreadable_page_def user_error_def)
  have "initial_stats offline_config \<in> {stats_default, stats_extended}" by (simp add: initial_stats_def)
  from answered_run [OF run [unfolded sample_serve_def] fin this ok] obtain stats where result: "check_result s = Some (Inr stats)"
    by metis
  let ?cm = "\<lambda>_. sample_command (Inr (stats, []))"
  obtain pd where "prepare sample_run_env (Inr []) offline_options = Value (Inr (Inr pd))" "pd_cookies pd = None"
    using sample_prepared by blast
  then have pd: "prepare ?re (Inr []) offline_options = Value (Inr (Inr pd))" "pd_cookies pd = None" by simp_all
  then obtain code w' where main: "main_run ?re ?cm (\<lambda>_. Inr []) (Inr []) offline_options = Value (Inr code, w')"
    by (simp add: main_run_def run_command_def offline_options_simps sample_command_def check_end_def run_exit_def
        output_statistics_def printing_works_def and_then_def with_err_def Let_def)
  from process_fails_for_broken_links [OF run [folded cfg, unfolded sample_serve_def] fin ok pd(1) offline_options_simps(3) result _ main
      offline_options_simps(1,2), of "[]" sample_fs "\<lambda>_. Inr []" "\<lambda>_. None"]
  obtain answers where answers: "mset (map fst answers) = mset [unreadable_page]"
    "\<forall>(r, x) \<in> set answers. \<exists>st. fst (sample_serve r st) = Inr x"
    and exit: "run_main (Inr offline_options) sample_fs (\<lambda>_. Inr []) (\<lambda>_. Inr code) (\<lambda>_. None) =
      (if \<exists>(r, x) \<in> set answers. is_error (r_status x) \<and>
        (cfg_accept_timeouts (lo_config offline_options) \<longrightarrow> \<not> is_timeout (r_status x)) then 2 else 0)"
    by (auto simp: sample_serve_def sample_command_def)
  from arg_cong [OF answers(1), of size] obtain a where "answers = [a]" by (auto simp: length_Suc_conv)
  with answers(1) obtain x where x: "answers = [(unreadable_page, x)]" by (cases a) auto
  have "is_error (r_status x) \<and> \<not> is_timeout (r_status x)"
    using answers(2) by (auto simp: x unreadable_page_def sample_serve_def serve_request_def handle_def response_new_def)
  with exit x have "run_main (Inr offline_options) sample_fs (\<lambda>_. Inr []) (\<lambda>_. Inr code) (\<lambda>_. None) = 2" by simp
  with run result main show ?thesis by (auto intro!: exI [of _ s])
qed

text \<open>A broken link and a page of the user whose connection is broken off: the process is a success.\<close>

definition broken_page :: "request_error + request" where
  "broken_page = Inl (UserInputContent (RemoteUrl (domain_url ''https'' ''a.b'' ''/'')) (NetworkRequest broken_off))"

theorem unreadable_input_hides_links_witness:
  "\<exists>s e result w'. (check_step 1 sample_serve)\<^sup>*\<^sup>* (pipeline_start [unreadable_page, broken_page] (initial_stats offline_config) (Map.empty, 0)) s \<and>
     check_result s = Some (Inl e) \<and>
     main_run sample_run_env (\<lambda>_. sample_command (Inl e)) (\<lambda>_. Inr []) (Inr []) offline_options = Value (result, w') \<and>
     run_main (Inr offline_options) sample_fs (\<lambda>_. Inr []) (\<lambda>_. result) (underlying_io_error_kind (\<lambda>_. None)) = 0"
proof -
  have cfg: "lo_config offline_options = offline_config" by (simp add: offline_options_def)
  obtain s where run: "(check_step (Suc 0) sample_serve)\<^sup>*\<^sup>* (pipeline_start [unreadable_page, broken_page] (initial_stats offline_config) (Map.empty, 0)) s"
    and fin: "all_finished s" by (rule finished_exists)
  have user: "\<exists>r \<in> set [unreadable_page, broken_page]. user_error r \<noteq> None"
    by (simp add: unreadable_page_def broken_page_def user_error_def)
  have "s_total (initial_stats offline_config) = 0"
    by (simp add: initial_stats_def stats_default_def stats_extended_def)
  from check_counts_every_request [OF run [unfolded sample_serve_def] fin this] user
  obtain e where result: "check_result s = Some (Inl e)" by auto
  let ?cm = "\<lambda>_. sample_command (Inl e)"
  obtain pd where pd: "prepare sample_run_env (Inr []) offline_options = Value (Inr (Inr pd))" using sample_prepared by blast
  then obtain result w' where main: "main_run sample_run_env ?cm (\<lambda>_. Inr []) (Inr []) offline_options = Value (result, w')"
    by (simp add: main_run_def run_command_def offline_options_simps sample_command_def check_end_def run_exit_def res_bind_def)
  have tasks: "cm_tasks (?cm pd) = map_sum id (\<lambda>stats. (stats, [])) (Inl e)" by (simp add: sample_command_def)
  from unreadable_input_hides_links [OF run [folded cfg, unfolded sample_serve_def] fin user pd offline_options_simps(3) result tasks main
      offline_options_simps(1,2), of sample_fs "\<lambda>_. Inr []" "\<lambda>_. None"]
  have "run_main (Inr offline_options) sample_fs (\<lambda>_. Inr []) (\<lambda>_. result) (underlying_io_error_kind (\<lambda>_. None)) = 0"
    by (auto simp: unreadable_page_def broken_page_def broken_off_def)
  with run result main show ?thesis by (intro exI [of _ s] exI [of _ e]) auto
qed

theorem outcome_independent_of_order_witness:
  "\<exists>s s' requests requests' stats stats'.
     (check_step 1 fixed_serve)\<^sup>*\<^sup>* (pipeline_start requests stats_default 0) s \<and>
     (check_step 5 fixed_serve)\<^sup>*\<^sup>* (pipeline_start requests' stats_default 7) s' \<and> length requests = 2 \<and>
     check_result s = Some (Inr stats) \<and> check_result s' = Some (Inr stats') \<and> view_of stats = view_of stats'"
proof -
  let ?self = "collector_new plain_base_env None BaseNone"
  obtain ra rb where "input_requests sample_collect_env ?self [] (string_input ''a'') st = Value ([ra], st)"
    "input_requests sample_collect_env ?self [] (string_input ''b'') st = Value ([rb], st)" for st
    using Collector.sample_requests by metis
  then have collect: "collect_links_from_file_types sample_collect_env ?self [] [string_input ''a'', string_input ''b''] (new_pool, 0) =
      Value ([ra, rb], new_pool, 0)"
    "collect_links_from_file_types sample_collect_env ?self [] [string_input ''b'', string_input ''a''] (new_pool, 0) =
      Value ([rb, ra], new_pool, 0)" by simp_all
  have inputs: "\<forall>input \<in> set [string_input ''a'', string_input ''b'']. local_input input"
    "mset [string_input ''b'', string_input ''a''] = mset [string_input ''a'', string_input ''b'']"
    by (simp_all add: string_input_def local_input_def add_mset_commute)
  have fixed: "\<forall>r \<in> set [ra, rb]. \<exists>x. \<forall>w. fst (fixed_serve r w) = Inr x" by (simp add: fixed_serve_def)
  obtain s where s: "(check_step (Suc 0) fixed_serve)\<^sup>*\<^sup>* (pipeline_start [ra, rb] stats_default 0) s" "all_finished s"
    by (rule finished_exists)
  obtain s' where s': "(check_step (Suc 4) fixed_serve)\<^sup>*\<^sup>* (pipeline_start [rb, ra] stats_default 7) s'" "all_finished s'"
    by (rule finished_exists)
  from outcome_independent_of_order [OF inputs collect fixed s s', of True] s(1) s'(1) show ?thesis
    by (intro exI [of _ s] exI [of _ s'] exI [of _ "[ra, rb]"] exI [of _ "[rb, ra]"]) auto
qed

end
